theory Spec2Isabelle
  imports Main "HOL-Library.Word" "HOL-Library.Signed_Division" "HOL-Library.Multiset"
    "HOL-Library.AList"
begin

section \<open>Machine values shared by all packages\<close>

text \<open>
  Go's \<open>int64\<close> and \<open>time.Duration\<close> (an \<open>int64\<close> of nanoseconds) are 64-bit words read
  in two's complement by \<open>sint\<close>; \<open>+\<close> and \<open>-\<close> wrap as in Go. An instant of the
  monotonic clock is an integer number of nanoseconds.
\<close>

type_synonym int64 = "64 word"
type_synonym Duration = "64 word"
type_synonym Time = int

datatype go_panic = SliceBoundsOutOfRange | NilPointerDereference | AssignmentToNilMap

text \<open>Go's \<open>/\<close> on \<open>int64\<close> truncates towards zero.\<close>

definition go_div :: "int64 \<Rightarrow> int64 \<Rightarrow> int64" where
  "go_div a b = word_of_int (sint a sdiv sint b)"

text \<open>\<open>copy(dst, src)\<close>: overwrites the first \<open>min (len dst) (len src)\<close> cells of \<open>dst\<close>.\<close>

definition go_copy :: "'a list \<Rightarrow> 'a list \<Rightarrow> 'a list" where
  "go_copy dst src = take (length dst) src @ drop (length src) dst"

definition Millisecond :: Duration where
  "Millisecond = 1000000"

definition Second :: Duration where
  "Second = 1000000000"

text \<open>\<open>Time.Sub\<close> (behind \<open>time.Since\<close>) saturates at the ends of \<open>Duration\<close>.\<close>

definition time_Sub :: "Time \<Rightarrow> Time \<Rightarrow> Duration" where
  "time_Sub t u =
     (let d = t - u
      in if d > 2 ^ 63 - 1 then word_of_int (2 ^ 63 - 1)
         else if d < - (2 ^ 63) then word_of_int (- (2 ^ 63))
         else word_of_int d)"

text \<open>\<open>Duration.Milliseconds\<close>: \<open>int64(d) / 1e6\<close>.\<close>

definition Milliseconds :: "Duration \<Rightarrow> int64" where
  "Milliseconds d = go_div d 1000000"

subsection \<open>The double-precision product \<open>float64(n) * 0.9\<close>\<close>

text \<open>
  \<open>Snapshot\<close> computes \<open>int(float64(n) * 0.9)\<close> for a slice length \<open>n\<close>. The values involved
  are non-negative and far from the ends of the exponent range, so a double is a pair
  \<open>(m, e)\<close> standing for \<open>m * 2 ^ e\<close> with \<open>m\<close> at most \<open>2 ^ 53\<close>; every operation rounds its exact
  result to 53 significant bits, ties to even.
\<close>

type_synonym f64 = "nat \<times> int"

fun bitlen :: "nat \<Rightarrow> nat" where
  "bitlen n = (if n = 0 then 0 else Suc (bitlen (n div 2)))"

declare bitlen.simps [simp del]

definition round_f64 :: "nat \<times> int \<Rightarrow> f64" where
  "round_f64 x =
     (case x of (m, e) \<Rightarrow>
        let b = bitlen m
        in if b \<le> 53 then (m, e)
           else let s = b - 53; q = m div 2 ^ s; r = m mod 2 ^ s; h = 2 ^ (s - 1)
                in (if h < r \<or> (r = h \<and> odd q) then q + 1 else q, e + int s))"

definition f64_of_nat :: "nat \<Rightarrow> f64" where
  "f64_of_nat n = round_f64 (n, 0)"

definition f64_mul :: "f64 \<Rightarrow> f64 \<Rightarrow> f64" where
  "f64_mul x y = (case x of (m1, e1) \<Rightarrow> case y of (m2, e2) \<Rightarrow> round_f64 (m1 * m2, e1 + e2))"

text \<open>The constant \<open>0.9\<close> is the double \<open>0x3FECCCCCCCCCCCCD\<close>.\<close>

definition f64_0_9 :: f64 where
  "f64_0_9 = (8106479329266893, - 53)"

text \<open>\<open>int(x)\<close> discards the fraction.\<close>

definition f64_trunc :: "f64 \<Rightarrow> nat" where
  "f64_trunc x = (case x of (m, e) \<Rightarrow> if 0 \<le> e then m * 2 ^ nat e else m div 2 ^ nat (- e))"

section \<open>Package stats\<close>

record Stats =
  totalConns :: int64
  openConns :: int64
  totalRequests :: int64
  totalBytes :: int64
  requestTimes :: "Duration list"
  maxSamples :: int
  serverLatency :: Duration
  startTime :: Time

record Snapshot =
  TotalConnections :: int64
  OpenConnections :: int64
  TotalRequests :: int64
  TotalBytes :: int64
  RT1 :: Duration
  RT5 :: Duration
  P50 :: Duration
  P90 :: Duration
  ServerLatency :: Duration
  Uptime :: Duration

text \<open>\<open>New\<close> and \<open>NewWithOptions\<close> read the clock; the instant read is the argument \<open>now\<close>.\<close>

definition New :: "Time \<Rightarrow> Stats" where
  "New now =
     \<lparr>totalConns = 0, openConns = 0, totalRequests = 0, totalBytes = 0,
      requestTimes = [], maxSamples = 100, serverLatency = 0, startTime = now\<rparr>"

definition NewWithOptions :: "int \<Rightarrow> Time \<Rightarrow> Stats" where
  "NewWithOptions maxSamples0 now =
     (let m = (if maxSamples0 \<le> 0 then 100 else maxSamples0)
      in \<lparr>totalConns = 0, openConns = 0, totalRequests = 0, totalBytes = 0,
          requestTimes = [], maxSamples = m, serverLatency = 0, startTime = now\<rparr>)"

definition IncrementConnections :: "Stats \<Rightarrow> Stats" where
  "IncrementConnections s = s\<lparr>totalConns := totalConns s + 1, openConns := openConns s + 1\<rparr>"

definition DecrementOpenConnections :: "Stats \<Rightarrow> Stats" where
  "DecrementOpenConnections s =
     (if 0 <s openConns s then s\<lparr>openConns := openConns s - 1\<rparr> else s)"

text \<open>
  \<open>RecordRequest\<close>: when the buffer is full, \<open>copy(ts, ts[1:])\<close> shifts left and the slice
  is cut by one before the append. \<open>ts[1:]\<close> of an empty slice panics; that needs
  \<open>maxSamples \<le> 0\<close>, which no constructor produces.
\<close>

definition RecordRequest :: "Duration \<Rightarrow> int64 \<Rightarrow> Stats \<Rightarrow> go_panic + Stats" where
  "RecordRequest duration bytes s =
     (let s1 = s\<lparr>totalRequests := totalRequests s + 1, totalBytes := totalBytes s + bytes\<rparr>;
          ts = requestTimes s1
      in if maxSamples s1 \<le> int (length ts)
         then (if ts = [] then Inl SliceBoundsOutOfRange
               else Inr (s1\<lparr>requestTimes := butlast (go_copy ts (tl ts)) @ [duration]\<rparr>))
         else Inr (s1\<lparr>requestTimes := ts @ [duration]\<rparr>))"

definition SetServerLatency :: "Duration \<Rightarrow> Stats \<Rightarrow> Stats" where
  "SetServerLatency latency s = s\<lparr>serverLatency := latency\<rparr>"

text \<open>
  The loop \<open>for i := n - count; i < n; i++ { sum += ts[i] }\<close>; the local \<open>count\<close> is
  \<open>cnt\<close> here.
\<close>

definition sum_last :: "Duration list \<Rightarrow> nat \<Rightarrow> nat \<Rightarrow> Duration" where
  "sum_last ts n cnt = fold (\<lambda>i sum. sum + ts ! i) [n - cnt ..< n] 0"

text \<open>
  \<open>sort.Slice\<close> with \<open>sorted[i] < sorted[j]\<close> orders by the signed value. Elements of equal
  key are equal, so the ascending arrangement is unique and insertion sort computes it.
\<close>

definition sort_durations :: "Duration list \<Rightarrow> Duration list" where
  "sort_durations ts = sort_key sint ts"

definition p90Index :: "nat \<Rightarrow> nat" where
  "p90Index n =
     (let i = f64_trunc (f64_mul (f64_of_nat n) f64_0_9)
      in if n \<le> i then n - 1 else i)"

definition Snapshot :: "Stats \<Rightarrow> Time \<Rightarrow> Snapshot" where
  "Snapshot s now =
     (let snap = \<lparr>TotalConnections = totalConns s, OpenConnections = openConns s,
                  TotalRequests = totalRequests s, TotalBytes = totalBytes s,
                  RT1 = 0, RT5 = 0, P50 = 0, P90 = 0,
                  ServerLatency = serverLatency s, Uptime = time_Sub now (startTime s)\<rparr>;
          n = length (requestTimes s)
      in if n = 0 then snap
         else let cnt = (if n < 5 then n else 5);
                  sum = sum_last (requestTimes s) n cnt;
                  sorted = sort_durations (requestTimes s)
              in snap\<lparr>RT1 := requestTimes s ! (n - 1),
                      RT5 := go_div sum (of_nat cnt),
                      P50 := sorted ! (n div 2),
                      P90 := sorted ! p90Index n\<rparr>)"

definition Reset :: "Time \<Rightarrow> Stats \<Rightarrow> Stats" where
  "Reset now s =
     s\<lparr>totalConns := 0, openConns := 0, totalRequests := 0, totalBytes := 0,
       requestTimes := take 0 (requestTimes s), serverLatency := 0, startTime := now\<rparr>"

text \<open>
  A caller's history: the methods of one \<open>Stats\<close> value in the order the lock serialises
  them. \<open>run_stats\<close> collects the snapshots taken on the way.
\<close>

datatype stats_op =
    OpIncrementConnections
  | OpDecrementOpenConnections
  | OpRecordRequest Duration int64
  | OpSetServerLatency Duration
  | OpReset Time
  | OpSnapshot Time

fun run_stats :: "Stats \<Rightarrow> stats_op list \<Rightarrow> go_panic + (Stats \<times> Snapshot list)" where
  "run_stats s [] = Inr (s, [])"
| "run_stats s (OpIncrementConnections # ops) = run_stats (IncrementConnections s) ops"
| "run_stats s (OpDecrementOpenConnections # ops) = run_stats (DecrementOpenConnections s) ops"
| "run_stats s (OpRecordRequest d b # ops) =
     (case RecordRequest d b s of Inl p \<Rightarrow> Inl p | Inr s' \<Rightarrow> run_stats s' ops)"
| "run_stats s (OpSetServerLatency l # ops) = run_stats (SetServerLatency l s) ops"
| "run_stats s (OpReset now # ops) = run_stats (Reset now s) ops"
| "run_stats s (OpSnapshot now # ops) =
     (case run_stats s ops of Inl p \<Rightarrow> Inl p
      | Inr (s', snaps) \<Rightarrow> Inr (s', Snapshot s now # snaps))"

text \<open>The durations of the percentile scenario: \<open>time.Duration(i*10) * time.Millisecond\<close> for \<open>i\<close> from 1 to 10.\<close>

definition percentile_durations :: "Duration list" where
  "percentile_durations = map (\<lambda>i. of_nat (i * 10) * Millisecond) [1 ..< 11]"

section \<open>Package inspector\<close>

subsection \<open>Captured exchanges and the memory they point into\<close>

text \<open>
  \<open>HTTPExchange\<close> holds its request and response by pointer, and a header map is a
  reference as every Go map is. The pointed-to cells live in a \<open>heap\<close>; a \<open>nil\<close> pointer or
  map is \<open>None\<close>. Copying an \<open>HTTPExchange\<close> copies the addresses, not the cells. A header
  map is an association list with one entry per key.
\<close>

type_synonym addr = nat
type_synonym Header = "(string \<times> string list) list"

record HTTPRequest =
  Method :: string
  URL :: string
  Proto :: string
  Headers :: "addr option"
  Body :: string
  Size :: int64

text \<open>
  The fields of \<open>HTTPResponse\<close> are \<open>Status\<close>, \<open>Proto\<close>, \<open>Headers\<close>, \<open>Body\<close> and \<open>Size\<close>; the
  last four carry the suffix \<open>_r\<close> here, since a record's field names are global.
\<close>

record HTTPResponse =
  Status :: int
  Proto_r :: string
  Headers_r :: "addr option"
  Body_r :: string
  Size_r :: int64

record HTTPExchange =
  ID :: int64
  Request :: "addr option"
  Response :: "addr option"
  Duration :: int64
  Timestamp :: Time

record heap =
  requests :: "addr \<rightharpoonup> HTTPRequest"
  responses :: "addr \<rightharpoonup> HTTPResponse"
  header_maps :: "addr \<rightharpoonup> Header"
  next_addr :: addr

definition empty_heap :: heap where
  "empty_heap = \<lparr>requests = Map.empty, responses = Map.empty, header_maps = Map.empty, next_addr = 0\<rparr>"

text \<open>\<open>&HTTPRequest{...}\<close>, \<open>&HTTPResponse{...}\<close> and a map literal allocate a fresh cell.\<close>

definition new_request :: "HTTPRequest \<Rightarrow> heap \<Rightarrow> addr \<times> heap" where
  "new_request r h =
     (next_addr h, h\<lparr>requests := (requests h)(next_addr h \<mapsto> r), next_addr := Suc (next_addr h)\<rparr>)"

definition new_response :: "HTTPResponse \<Rightarrow> heap \<Rightarrow> addr \<times> heap" where
  "new_response r h =
     (next_addr h, h\<lparr>responses := (responses h)(next_addr h \<mapsto> r), next_addr := Suc (next_addr h)\<rparr>)"

definition new_header_map :: "Header \<Rightarrow> heap \<Rightarrow> addr \<times> heap" where
  "new_header_map m h =
     (next_addr h, h\<lparr>header_maps := (header_maps h)(next_addr h \<mapsto> m), next_addr := Suc (next_addr h)\<rparr>)"

text \<open>The zero value \<open>HTTPExchange{}\<close>, which \<open>make\<close> fills a new slice with.\<close>

definition zero_exchange :: HTTPExchange where
  "zero_exchange = \<lparr>ID = 0, Request = None, Response = None, Duration = 0, Timestamp = 0\<rparr>"

subsection \<open>\<open>InMemoryStore\<close>\<close>

record InMemoryStore =
  exchanges :: "HTTPExchange list"
  nextID :: int64
  maxSize :: int

definition NewInMemoryStore :: "int \<Rightarrow> InMemoryStore" where
  "NewInMemoryStore maxSize0 =
     (let m = (if maxSize0 \<le> 0 then 100 else maxSize0)
      in \<lparr>exchanges = [], nextID = 0, maxSize = m\<rparr>)"

text \<open>
  \<open>Add\<close>. At capacity the slice is shifted in place,
  \<open>copy(s.exchanges[1:], s.exchanges[:len(s.exchanges)-1])\<close>, and cell 0 overwritten;
  \<open>s.exchanges[1:]\<close> of an empty slice panics, which needs \<open>maxSize \<le> 0\<close>. Below capacity a
  slice one longer is made and the old one copied behind the new exchange.
\<close>

definition Add :: "HTTPExchange \<Rightarrow> InMemoryStore \<Rightarrow> go_panic + (InMemoryStore \<times> int64)" where
  "Add exchange0 s =
     (let exchange = exchange0\<lparr>ID := nextID s\<rparr>;
          s1 = s\<lparr>nextID := nextID s + 1\<rparr>;
          xs = exchanges s1
      in if maxSize s1 \<le> int (length xs)
         then (if xs = [] then Inl SliceBoundsOutOfRange
               else Inr (s1\<lparr>exchanges := (hd xs # go_copy (tl xs) (butlast xs))[0 := exchange]\<rparr>,
                         ID exchange))
         else (let newExchanges = replicate (length xs + 1) zero_exchange;
                   newExchanges1 = newExchanges[0 := exchange];
                   newExchanges2 = hd newExchanges1 # go_copy (tl newExchanges1) xs
               in Inr (s1\<lparr>exchanges := newExchanges2\<rparr>, ID exchange)))"

text \<open>
  A \<open>*HTTPExchange\<close> points at an element of the store's slice, \<open>&s.exchanges[i]\<close>, or at
  a variable of its own. The \<open>memory\<close> holds every cell a caller of the store can reach:
  the store with its slice, the variables whose address has been taken, and the
  \<open>objects\<close>, the request and response records and header maps.
\<close>

datatype exchange_ptr = Element nat | Variable addr

record memory =
  store :: InMemoryStore
  variables :: "addr \<rightharpoonup> HTTPExchange"
  next_variable :: addr
  objects :: heap

text \<open>Reading and writing an \<open>HTTPExchange\<close> through a pointer.\<close>

definition load :: "exchange_ptr \<Rightarrow> memory \<Rightarrow> HTTPExchange option" where
  "load p m =
     (case p of
        Element i \<Rightarrow>
          (if i < length (exchanges (store m)) then Some (exchanges (store m) ! i) else None)
      | Variable a \<Rightarrow> variables m a)"

definition assign :: "exchange_ptr \<Rightarrow> HTTPExchange \<Rightarrow> memory \<Rightarrow> memory" where
  "assign p v m =
     (case p of
        Element i \<Rightarrow> m\<lparr>store := (store m)\<lparr>exchanges := (exchanges (store m))[i := v]\<rparr>\<rparr>
      | Variable a \<Rightarrow> m\<lparr>variables := (variables m)(a \<mapsto> v)\<rparr>)"

text \<open>
  \<open>Get\<close>: the loop stops at the first index whose element has the identifier;
  \<open>ex := s.exchanges[i]\<close> declares a variable holding a copy of the element, and its
  address \<open>&ex\<close> is returned. The result \<open>(nil, false)\<close> is \<open>None\<close>.
\<close>

definition Get :: "int64 \<Rightarrow> memory \<Rightarrow> exchange_ptr option \<times> memory" where
  "Get id0 m =
     (let xs = exchanges (store m)
      in case find (\<lambda>i. ID (xs ! i) = id0) [0 ..< length xs] of
           None \<Rightarrow> (None, m)
         | Some i \<Rightarrow>
             (let ex = next_variable m
              in (Some (Variable ex),
                  m\<lparr>variables := (variables m)(ex \<mapsto> xs ! i), next_variable := Suc ex\<rparr>)))"

definition List :: "InMemoryStore \<Rightarrow> HTTPExchange list" where
  "List s = go_copy (replicate (length (exchanges s)) zero_exchange) (exchanges s)"

definition Clear :: "InMemoryStore \<Rightarrow> InMemoryStore" where
  "Clear s = s\<lparr>exchanges := take 0 (exchanges s)\<rparr>"

definition Count :: "InMemoryStore \<Rightarrow> int" where
  "Count s = int (length (exchanges s))"

text \<open>
  A history of calls on one store, in the order its lock serialises them; \<open>run_store\<close>
  returns the final store and the identifiers the \<open>Add\<close> calls returned, in call order.
\<close>

datatype store_op =
    OpAdd HTTPExchange
  | OpGet int64
  | OpList
  | OpClear
  | OpCount

fun run_store :: "InMemoryStore \<Rightarrow> store_op list \<Rightarrow> go_panic + (InMemoryStore \<times> int64 list)" where
  "run_store s [] = Inr (s, [])"
| "run_store s (OpAdd e # ops) =
     (case Add e s of Inl p \<Rightarrow> Inl p
      | Inr (s', i) \<Rightarrow>
          (case run_store s' ops of Inl p \<Rightarrow> Inl p | Inr (s'', ids) \<Rightarrow> Inr (s'', i # ids)))"
| "run_store s (OpGet i # ops) = run_store s ops"
| "run_store s (OpList # ops) = run_store s ops"
| "run_store s (OpClear # ops) = run_store (Clear s) ops"
| "run_store s (OpCount # ops) = run_store s ops"

subsection \<open>What a caller can do with the pointer \<open>Get\<close> returned\<close>

text \<open>
  With \<open>p\<close> the pointer: \<open>p.ID = v\<close> and the like assign to a field of the record \<open>p\<close>
  points at; \<open>p.Request.Method = v\<close> and the like write through the record's \<open>Request\<close> or
  \<open>Response\<close> pointer; \<open>p.Request.Headers[k] = v\<close> writes into the header map reached from
  there. Reading or writing through a \<open>nil\<close> pointer and writing into a \<open>nil\<close> map panic.
\<close>

definition update_exchange ::
  "exchange_ptr \<Rightarrow> (HTTPExchange \<Rightarrow> HTTPExchange) \<Rightarrow> memory \<Rightarrow> go_panic + memory" where
  "update_exchange p f m =
     (case load p m of None \<Rightarrow> Inl NilPointerDereference
      | Some ex \<Rightarrow> Inr (assign p (f ex) m))"

definition update_request ::
  "exchange_ptr \<Rightarrow> (HTTPRequest \<Rightarrow> HTTPRequest) \<Rightarrow> memory \<Rightarrow> go_panic + memory" where
  "update_request p f m =
     (case load p m of None \<Rightarrow> Inl NilPointerDereference
      | Some ex \<Rightarrow>
          (case Request ex of None \<Rightarrow> Inl NilPointerDereference
           | Some a \<Rightarrow>
               (case requests (objects m) a of None \<Rightarrow> Inl NilPointerDereference
                | Some r \<Rightarrow>
                    Inr (m\<lparr>objects := (objects m)\<lparr>requests := (requests (objects m))(a \<mapsto> f r)\<rparr>\<rparr>))))"

definition update_response ::
  "exchange_ptr \<Rightarrow> (HTTPResponse \<Rightarrow> HTTPResponse) \<Rightarrow> memory \<Rightarrow> go_panic + memory" where
  "update_response p f m =
     (case load p m of None \<Rightarrow> Inl NilPointerDereference
      | Some ex \<Rightarrow>
          (case Response ex of None \<Rightarrow> Inl NilPointerDereference
           | Some a \<Rightarrow>
               (case responses (objects m) a of None \<Rightarrow> Inl NilPointerDereference
                | Some r \<Rightarrow>
                    Inr (m\<lparr>objects := (objects m)\<lparr>responses := (responses (objects m))(a \<mapsto> f r)\<rparr>\<rparr>))))"

definition set_header ::
  "addr option \<Rightarrow> string \<Rightarrow> string list \<Rightarrow> memory \<Rightarrow> go_panic + memory" where
  "set_header hm k v m =
     (case hm of None \<Rightarrow> Inl AssignmentToNilMap
      | Some a \<Rightarrow>
          (case header_maps (objects m) a of None \<Rightarrow> Inl AssignmentToNilMap
           | Some al \<Rightarrow>
               Inr (m\<lparr>objects := (objects m)\<lparr>header_maps :=
                      (header_maps (objects m))(a \<mapsto> AList.update k v al)\<rparr>\<rparr>)))"

datatype mutation =
    SetID int64
  | SetRequest "addr option"
  | SetResponse "addr option"
  | SetDuration int64
  | SetTimestamp Time
  | SetRequestMethod string
  | SetRequestURL string
  | SetRequestBody string
  | SetRequestHeader string "string list"
  | SetResponseStatus int
  | SetResponseBody string
  | SetResponseHeader string "string list"

fun own_field :: "mutation \<Rightarrow> bool" where
  "own_field (SetID _) = True"
| "own_field (SetRequest _) = True"
| "own_field (SetResponse _) = True"
| "own_field (SetDuration _) = True"
| "own_field (SetTimestamp _) = True"
| "own_field _ = False"

text \<open>
  The first five assign to the record's own fields; the others write to the nested
  records.
\<close>

fun mutate :: "mutation \<Rightarrow> exchange_ptr \<Rightarrow> memory \<Rightarrow> go_panic + memory" where
  "mutate (SetID v) p m = update_exchange p (\<lambda>ex. ex\<lparr>ID := v\<rparr>) m"
| "mutate (SetRequest q) p m = update_exchange p (\<lambda>ex. ex\<lparr>Request := q\<rparr>) m"
| "mutate (SetResponse q) p m = update_exchange p (\<lambda>ex. ex\<lparr>Response := q\<rparr>) m"
| "mutate (SetDuration v) p m = update_exchange p (\<lambda>ex. ex\<lparr>Duration := v\<rparr>) m"
| "mutate (SetTimestamp v) p m = update_exchange p (\<lambda>ex. ex\<lparr>Timestamp := v\<rparr>) m"
| "mutate (SetRequestMethod v) p m = update_request p (\<lambda>r. r\<lparr>Method := v\<rparr>) m"
| "mutate (SetRequestURL v) p m = update_request p (\<lambda>r. r\<lparr>URL := v\<rparr>) m"
| "mutate (SetRequestBody v) p m = update_request p (\<lambda>r. r\<lparr>Body := v\<rparr>) m"
| "mutate (SetRequestHeader k v) p m =
     (case load p m of None \<Rightarrow> Inl NilPointerDereference
      | Some ex \<Rightarrow>
          (case Request ex of None \<Rightarrow> Inl NilPointerDereference
           | Some a \<Rightarrow>
               (case requests (objects m) a of None \<Rightarrow> Inl NilPointerDereference
                | Some r \<Rightarrow> set_header (Headers r) k v m)))"
| "mutate (SetResponseStatus v) p m = update_response p (\<lambda>r. r\<lparr>Status := v\<rparr>) m"
| "mutate (SetResponseBody v) p m = update_response p (\<lambda>r. r\<lparr>Body_r := v\<rparr>) m"
| "mutate (SetResponseHeader k v) p m =
     (case load p m of None \<Rightarrow> Inl NilPointerDereference
      | Some ex \<Rightarrow>
          (case Response ex of None \<Rightarrow> Inl NilPointerDereference
           | Some a \<Rightarrow>
               (case responses (objects m) a of None \<Rightarrow> Inl NilPointerDereference
                | Some r \<Rightarrow> set_header (Headers_r r) k v m)))"

fun mutate_all :: "mutation list \<Rightarrow> exchange_ptr \<Rightarrow> memory \<Rightarrow> go_panic + memory" where
  "mutate_all [] p m = Inr m"
| "mutate_all (mu # mus) p m =
     (case mutate mu p m of Inl e \<Rightarrow> Inl e | Inr m' \<Rightarrow> mutate_all mus p m')"

text \<open>
  The data of an exchange as a reader sees it: its own fields and, behind the pointers,
  the request, the response and their header maps.
\<close>

definition request_data ::
  "heap \<Rightarrow> addr \<Rightarrow> (HTTPRequest \<times> Header option) option" where
  "request_data h a =
     map_option (\<lambda>r. (r, case Headers r of None \<Rightarrow> None | Some m \<Rightarrow> header_maps h m)) (requests h a)"

definition response_data ::
  "heap \<Rightarrow> addr \<Rightarrow> (HTTPResponse \<times> Header option) option" where
  "response_data h a =
     map_option (\<lambda>r. (r, case Headers_r r of None \<Rightarrow> None | Some m \<Rightarrow> header_maps h m)) (responses h a)"

definition exchange_data ::
  "heap \<Rightarrow> HTTPExchange \<Rightarrow>
     HTTPExchange \<times> (HTTPRequest \<times> Header option) option \<times> (HTTPResponse \<times> Header option) option" where
  "exchange_data h ex =
     (ex, case Request ex of None \<Rightarrow> None | Some a \<Rightarrow> request_data h a,
          case Response ex of None \<Rightarrow> None | Some a \<Rightarrow> response_data h a)"

subsection \<open>Strings and \<open>strconv.ParseInt\<close>\<close>

definition HasPrefix :: "string \<Rightarrow> string \<Rightarrow> bool" where
  "HasPrefix s p = (take (length p) s = p)"

definition TrimPrefix :: "string \<Rightarrow> string \<Rightarrow> string" where
  "TrimPrefix s p = (if HasPrefix s p then drop (length p) s else s)"

fun Contains :: "string \<Rightarrow> string \<Rightarrow> bool" where
  "Contains [] sub = (sub = [])"
| "Contains (c # cs) sub = (HasPrefix (c # cs) sub \<or> Contains cs sub)"

text \<open>
  \<open>strconv.ParseInt(s, 10, 64)\<close>: an optional sign, then one or more decimal digits and
  nothing else; a value outside \<open>int64\<close> is a range error. \<open>None\<close> is any error.
\<close>

definition digit_of :: "char \<Rightarrow> nat option" where
  "digit_of c =
     (let n = (of_char c :: nat) in if 48 \<le> n \<and> n \<le> 57 then Some (n - 48) else None)"

fun ParseUint_from :: "nat \<Rightarrow> string \<Rightarrow> nat option" where
  "ParseUint_from n [] = Some n"
| "ParseUint_from n (c # cs) =
     (case digit_of c of None \<Rightarrow> None | Some d \<Rightarrow> ParseUint_from (n * 10 + d) cs)"

definition ParseInt :: "string \<Rightarrow> int64 option" where
  "ParseInt s =
     (if s = [] then None
      else let neg = (hd s = CHR ''-'');
               s1 = (if hd s = CHR ''+'' \<or> hd s = CHR ''-'' then tl s else s)
           in if s1 = [] then None
              else (case ParseUint_from 0 s1 of None \<Rightarrow> None
                    | Some un \<Rightarrow>
                        if \<not> neg \<and> 2 ^ 63 \<le> un then None
                        else if neg \<and> 2 ^ 63 < un then None
                        else Some (if neg then - of_nat un else of_nat un)))"

subsection \<open>The package-level capture list\<close>

text \<open>
  The package variables \<open>exchanges\<close>, \<open>nextID\<close> and \<open>localPort\<close> (here \<open>pkg_exchanges\<close>,
  \<open>pkg_nextID\<close>, \<open>localPort\<close>); \<open>maxBodySize\<close> is never assigned after its initialisation.
\<close>

record inspector =
  pkg_exchanges :: "HTTPExchange list"
  pkg_nextID :: int64
  localPort :: string

definition inspector_init :: inspector where
  "inspector_init = \<lparr>pkg_exchanges = [], pkg_nextID = 0, localPort = []\<rparr>"

definition maxBodySize :: nat where
  "maxBodySize = 1024 * 1024"

definition SetLocalPort :: "string \<Rightarrow> inspector \<Rightarrow> inspector" where
  "SetLocalPort port g = g\<lparr>localPort := port\<rparr>"

definition truncateBody :: "string \<Rightarrow> string" where
  "truncateBody body =
     (if maxBodySize < length body then take maxBodySize body @ (CHR 0x0A # ''... (truncated)'')
      else body)"

text \<open>
  What the worker holds of a parsed \<open>*http.Request\<close> and \<open>*http.Response\<close>: the method,
  \<open>req.URL.String()\<close>, the protocol, the status and the header map, itself a heap cell.
\<close>

record http_Request =
  req_Method :: string
  req_URL :: string
  req_Proto :: string
  req_Header :: "addr option"

record http_Response =
  resp_StatusCode :: int
  resp_Proto :: string
  resp_Header :: "addr option"

text \<open>\<open>AddExchange\<close>; \<open>now\<close> is the instant \<open>time.Now()\<close> returns inside it.\<close>

definition AddExchange ::
  "http_Request \<Rightarrow> string \<Rightarrow> http_Response option \<Rightarrow> string \<Rightarrow> Duration \<Rightarrow> Time \<Rightarrow>
     inspector \<times> heap \<Rightarrow> (inspector \<times> heap) \<times> int64" where
  "AddExchange req reqBody resp respBody duration now st =
     (case st of (g, h) \<Rightarrow>
        let id0 = pkg_nextID g;
            g1 = g\<lparr>pkg_nextID := pkg_nextID g + 1\<rparr>;
            (rq, h1) = new_request
                \<lparr>Method = req_Method req, URL = req_URL req, Proto = req_Proto req,
                 Headers = req_Header req, Body = truncateBody reqBody,
                 Size = of_nat (length reqBody)\<rparr> h;
            exchange = \<lparr>ID = id0, Request = Some rq, Response = None,
                        Duration = Milliseconds duration, Timestamp = now\<rparr>;
            (exchange1, h2) =
               (case resp of None \<Rightarrow> (exchange, h1)
                | Some r \<Rightarrow>
                    (let (rp, h') = new_response
                           \<lparr>Status = resp_StatusCode r, Proto_r = resp_Proto r,
                            Headers_r = resp_Header r, Body_r = truncateBody respBody,
                            Size_r = of_nat (length respBody)\<rparr> h1
                     in (exchange\<lparr>Response := Some rp\<rparr>, h')));
            xs = exchange1 # pkg_exchanges g1;
            xs1 = (if 100 < length xs then take 100 xs else xs)
        in ((g1\<lparr>pkg_exchanges := xs1\<rparr>, h2), id0))"

definition GetExchange :: "int64 \<Rightarrow> inspector \<Rightarrow> HTTPExchange option" where
  "GetExchange id0 g = find (\<lambda>ex. ID ex = id0) (pkg_exchanges g)"

text \<open>The legacy \<open>AddRequest(method, host, path, status)\<close>.\<close>

definition AddRequest ::
  "string \<Rightarrow> string \<Rightarrow> string \<Rightarrow> int \<Rightarrow> Time \<Rightarrow> inspector \<times> heap \<Rightarrow> inspector \<times> heap" where
  "AddRequest method0 host path status now st =
     (case st of (g, h) \<Rightarrow>
        let id0 = pkg_nextID g;
            g1 = g\<lparr>pkg_nextID := pkg_nextID g + 1\<rparr>;
            (m, h0) = new_header_map [(''Host'', [host])] h;
            (rq, h1) = new_request
                \<lparr>Method = method0, URL = path, Proto = [], Headers = Some m, Body = [], Size = 0\<rparr> h0;
            exchange = \<lparr>ID = id0, Request = Some rq, Response = None, Duration = 0, Timestamp = now\<rparr>;
            (exchange1, h2) =
               (if 0 < status
                then (let (rp, h') = new_response
                            \<lparr>Status = status, Proto_r = [], Headers_r = None, Body_r = [], Size_r = 0\<rparr> h1
                      in (exchange\<lparr>Response := Some rp\<rparr>, h'))
                else (exchange, h1));
            xs = exchange1 # pkg_exchanges g1;
            xs1 = (if 100 < length xs then take 100 xs else xs)
        in (g1\<lparr>pkg_exchanges := xs1\<rparr>, h2))"

subsection \<open>The HTTP surface: route handlers and replay\<close>

text \<open>
  The library calls of \<open>handleReplay\<close> that leave the process or parse a URL are parameters:
  \<open>url_Parse\<close> answers with the error of \<open>net/url.Parse\<close> if any, \<open>client_Do\<close> with the error
  or the response of \<open>http.Client.Do\<close> (body read whole), \<open>canonical_key\<close> is
  \<open>textproto.CanonicalMIMEHeaderKey\<close>, behind \<open>Header.Add\<close>.
\<close>

record http_Client =
  Timeout :: Duration

record outgoing_request =
  out_Method :: string
  out_URL :: string
  out_Header :: Header
  out_Body :: string

record upstream_response =
  up_StatusCode :: int
  up_Header :: Header
  up_Body :: string

record net_env =
  url_Parse :: "string \<Rightarrow> string option"
  client_Do :: "http_Client \<Rightarrow> outgoing_request \<Rightarrow> string + upstream_response"
  canonical_key :: "string \<Rightarrow> string"

text \<open>\<open>httpguts.IsTokenRune\<close>: the characters of an HTTP token.\<close>

definition isTokenRune :: "char \<Rightarrow> bool" where
  "isTokenRune c =
     (let n = (of_char c :: nat)
      in (48 \<le> n \<and> n \<le> 57) \<or> (65 \<le> n \<and> n \<le> 90) \<or> (97 \<le> n \<and> n \<le> 122)
         \<or> c \<in> set ''!#$%&*+-.^_`|~'' \<or> n = 39)"

definition validMethod :: "string \<Rightarrow> bool" where
  "validMethod m = (m \<noteq> [] \<and> list_all isTokenRune m)"

text \<open>
  \<open>http.NewRequest(method, url, body)\<close>: an empty method is \<open>GET\<close>; an invalid method or
  a URL that does not parse is an error.
\<close>

definition http_NewRequest :: "net_env \<Rightarrow> string \<Rightarrow> string \<Rightarrow> string \<Rightarrow> string + outgoing_request" where
  "http_NewRequest env method0 url body =
     (let m = (if method0 = [] then ''GET'' else method0)
      in if \<not> validMethod m then Inl (''net/http: invalid method '' @ m)
         else (case url_Parse env url of Some err \<Rightarrow> Inl err
               | None \<Rightarrow> Inr \<lparr>out_Method = m, out_URL = url, out_Header = [], out_Body = body\<rparr>))"

definition Header_Add :: "net_env \<Rightarrow> string \<Rightarrow> string \<Rightarrow> Header \<Rightarrow> Header" where
  "Header_Add env k v hd0 =
     (let key = canonical_key env k
      in AList.update key ((case map_of hd0 key of None \<Rightarrow> [] | Some vs \<Rightarrow> vs) @ [v]) hd0)"

text \<open>What a handler writes: \<open>http.Error\<close> with its text and code, or a JSON document.\<close>

datatype reply =
    Error_reply string int
  | Replay_JSON int Header string
  | Exchange_JSON HTTPExchange

fun reply_status :: "reply \<Rightarrow> int" where
  "reply_status (Error_reply msg code) = code"
| "reply_status (Replay_JSON st hd0 body) = 200"
| "reply_status (Exchange_JSON ex) = 200"

text \<open>
  The parts of \<open>handleReplay\<close>: \<open>exchange.Request\<close> dereferenced (\<open>None\<close> is the \<open>nil\<close> pointer,
  which panics when read through), the URL \<open>reqURL\<close>, the entries of the stored header map
  in the order the \<open>range\<close> loop visits them, and the loop that adds each value to the
  outgoing request.
\<close>

definition stored_request :: "heap \<Rightarrow> HTTPExchange \<Rightarrow> HTTPRequest option" where
  "stored_request h ex = (case Request ex of None \<Rightarrow> None | Some a \<Rightarrow> requests h a)"

definition replay_URL :: "inspector \<Rightarrow> HTTPRequest \<Rightarrow> string" where
  "replay_URL g rq = ''http://localhost:'' @ localPort g @ URL rq"

definition stored_headers :: "heap \<Rightarrow> HTTPRequest \<Rightarrow> Header" where
  "stored_headers h rq =
     (case Headers rq of None \<Rightarrow> []
      | Some m \<Rightarrow> (case header_maps h m of None \<Rightarrow> [] | Some al \<Rightarrow> al))"

definition copy_headers :: "net_env \<Rightarrow> Header \<Rightarrow> outgoing_request \<Rightarrow> outgoing_request" where
  "copy_headers env hs req =
     req\<lparr>out_Header := fold (\<lambda>(k, vv) hd0. fold (Header_Add env k) vv hd0) hs (out_Header req)\<rparr>"

text \<open>The client of the replay: \<open>&http.Client{Timeout: 30 * time.Second}\<close>.\<close>

definition replay_client :: http_Client where
  "replay_client = \<lparr>Timeout = 30 * Second\<rparr>"

text \<open>
  \<open>handleReplay\<close> returns its reply and the upstream calls it made, each with the client
  it was made through.
\<close>

definition handleReplay ::
  "net_env \<Rightarrow> inspector \<times> heap \<Rightarrow> string \<Rightarrow> string \<Rightarrow>
     go_panic + (reply \<times> (http_Client \<times> outgoing_request) list)" where
  "handleReplay env st r_Method idStr =
     (case st of (g, h) \<Rightarrow>
        if r_Method \<noteq> ''POST'' then Inr (Error_reply ''Method not allowed'' 405, [])
        else (case ParseInt idStr of
                None \<Rightarrow> Inr (Error_reply ''Invalid ID'' 400, [])
              | Some id0 \<Rightarrow>
                  (case GetExchange id0 g of
                     None \<Rightarrow> Inr (Error_reply ''Exchange not found'' 404, [])
                   | Some exchange \<Rightarrow>
                       if localPort g = []
                       then Inr (Error_reply ''Replay not configured (no local port)'' 500, [])
                       else (case stored_request h exchange of
                               None \<Rightarrow> Inl NilPointerDereference
                             | Some rq \<Rightarrow>
                                 (case http_NewRequest env (Method rq) (replay_URL g rq) (Body rq) of
                                    Inl err \<Rightarrow>
                                      Inr (Error_reply (''Failed to create request: '' @ err) 500, [])
                                  | Inr req0 \<Rightarrow>
                                      (let req = copy_headers env (stored_headers h rq) req0;
                                           client = replay_client
                                       in case client_Do env client req of
                                            Inl err \<Rightarrow>
                                              Inr (Error_reply (''Replay failed: '' @ err) 502,
                                                   [(client, req)])
                                          | Inr resp \<Rightarrow>
                                              Inr (Replay_JSON (up_StatusCode resp) (up_Header resp)
                                                     (up_Body resp),
                                                   [(client, req)])))))))"

text \<open>The handlers \<open>Start\<close> registers for \<open>/api/replay/\<close> and for \<open>/api/exchanges/\<close>.\<close>

definition replay_route ::
  "net_env \<Rightarrow> inspector \<times> heap \<Rightarrow> string \<Rightarrow> string \<Rightarrow>
     go_panic + (reply \<times> (http_Client \<times> outgoing_request) list)" where
  "replay_route env st r_Method path =
     (if r_Method \<noteq> ''POST'' then Inr (Error_reply ''Method not allowed'' 405, [])
      else handleReplay env st r_Method (TrimPrefix path ''/api/replay/''))"

definition exchanges_route ::
  "net_env \<Rightarrow> inspector \<times> heap \<Rightarrow> string \<Rightarrow> string \<Rightarrow>
     go_panic + (reply \<times> (http_Client \<times> outgoing_request) list)" where
  "exchanges_route env st r_Method path =
     (let idStr = TrimPrefix path ''/api/exchanges/''
      in if HasPrefix idStr ''replay/''
         then handleReplay env st r_Method (TrimPrefix idStr ''replay/'')
         else (case ParseInt idStr of
                 None \<Rightarrow> Inr (Error_reply ''Invalid ID'' 400, [])
               | Some id0 \<Rightarrow>
                   (case GetExchange id0 (fst st) of
                      None \<Rightarrow> Inr (Error_reply ''Not found'' 404, [])
                    | Some exchange \<Rightarrow> Inr (Exchange_JSON exchange, []))))"

text \<open>
  The states of the package: what calls of \<open>SetLocalPort\<close>, \<open>AddExchange\<close> and
  \<open>AddRequest\<close> make of the initial one. Header maps of parsed messages are heap cells
  allocated by the parser before the call.
\<close>

datatype inspector_op =
    DoSetLocalPort string
  | DoAddExchange http_Request string "http_Response option" string Duration Time
  | DoAddRequest string string string int Time
  | DoParseHeader Header

fun inspector_step :: "inspector_op \<Rightarrow> inspector \<times> heap \<Rightarrow> inspector \<times> heap" where
  "inspector_step (DoSetLocalPort p) (g, h) = (SetLocalPort p g, h)"
| "inspector_step (DoAddExchange req reqBody resp respBody d now) (g, h) =
     fst (AddExchange req reqBody resp respBody d now (g, h))"
| "inspector_step (DoAddRequest m host path status now) (g, h) =
     AddRequest m host path status now (g, h)"
| "inspector_step (DoParseHeader hd0) (g, h) = (g, snd (new_header_map hd0 h))"

definition inspector_run :: "inspector_op list \<Rightarrow> inspector \<times> heap" where
  "inspector_run ops = fold inspector_step ops (inspector_init, empty_heap)"

section \<open>Package events\<close>

text \<open>
  Modelled from the spec: the event kinds of the bus. The file \<open>events.go\<close> is not among
  the sources, only its tests are; the names are the ones the tests and the dashboard use.
\<close>

datatype EventType =
    EventConnecting
  | EventConnected
  | EventDisconnected
  | EventReconnecting
  | EventRequestStart
  | EventRequestComplete
  | EventError
  | EventTunnelReady

text \<open>
  Modelled from the spec: the payload of an event, opaque to the bus (\<open>events.go\<close> is
  missing). \<open>RequestData\<close> carries method, path, status, duration and bytes.
\<close>

datatype event_data =
    NoData
  | RequestData string string int Duration int64
  | ErrorData string string
  | OtherData string

text \<open>
  Modelled from the spec: an event is a kind, a payload and a timestamp, which is unset
  (\<open>None\<close>) until publish time (\<open>events.go\<close> is missing).
\<close>

record Event =
  ev_Type :: EventType
  ev_Data :: event_data
  ev_Timestamp :: "Time option"

text \<open>
  Modelled from the spec: a subscriber endpoint, a bounded queue of the events delivered
  and not yet received, which may be closed (\<open>events.go\<close> is missing).
\<close>

record endpoint =
  ep_id :: nat
  queue :: "Event list"
  ep_closed :: bool

text \<open>
  Modelled from the spec: the bus, its subscriber endpoints, the number of slots of each
  endpoint and the closed mark (\<open>events.go\<close> is missing).
\<close>

record Bus =
  subscribers :: "endpoint list"
  bufferSize :: nat
  next_ep :: nat
  closed :: bool

text \<open>Modelled from the spec: \<open>NewBusWithBuffer\<close>, a bus without subscribers (\<open>events.go\<close> is missing).\<close>

definition NewBusWithBuffer :: "nat \<Rightarrow> Bus" where
  "NewBusWithBuffer n = \<lparr>subscribers = [], bufferSize = n, next_ep = 0, closed = False\<rparr>"

text \<open>Modelled from the spec: \<open>NewBus\<close>, endpoints of 16 slots by default (\<open>events.go\<close> is missing).\<close>

definition NewBus :: Bus where
  "NewBus = NewBusWithBuffer 16"

text \<open>
  Modelled from the spec: \<open>subscribe()\<close> returns a new endpoint; on a closed bus the
  endpoint is closed from the start and is not registered (\<open>events.go\<close> is missing).
\<close>

definition Subscribe :: "Bus \<Rightarrow> Bus \<times> endpoint" where
  "Subscribe b =
     (if closed b then (b, \<lparr>ep_id = next_ep b, queue = [], ep_closed = True\<rparr>)
      else (let ep = \<lparr>ep_id = next_ep b, queue = [], ep_closed = False\<rparr>
            in (b\<lparr>subscribers := subscribers b @ [ep], next_ep := Suc (next_ep b)\<rparr>, ep)))"

text \<open>
  Modelled from the spec: delivery to one endpoint enqueues when the endpoint is open and
  has room; a full endpoint drops the event and a closed one ignores it; the publisher
  never waits (\<open>events.go\<close> is missing).
\<close>

definition offer :: "nat \<Rightarrow> Event \<Rightarrow> endpoint \<Rightarrow> endpoint" where
  "offer slots e ep =
     (if ep_closed ep then ep
      else if length (queue ep) < slots then ep\<lparr>queue := queue ep @ [e]\<rparr>
      else ep)"

text \<open>
  Modelled from the spec: \<open>publish(event)\<close> fills in the timestamp if unset and offers the
  event to every subscriber endpoint; on a closed bus it does nothing (\<open>events.go\<close> is
  missing).
\<close>

definition Publish :: "Time \<Rightarrow> Event \<Rightarrow> Bus \<Rightarrow> Bus" where
  "Publish now e b =
     (if closed b then b
      else (let e1 = (case ev_Timestamp e of None \<Rightarrow> e\<lparr>ev_Timestamp := Some now\<rparr> | Some t \<Rightarrow> e)
            in b\<lparr>subscribers := map (offer (bufferSize b) e1) (subscribers b)\<rparr>))"

text \<open>
  Modelled from the spec: \<open>unsubscribe(endpoint)\<close> closes that endpoint and removes it
  (\<open>events.go\<close> is missing).
\<close>

definition Unsubscribe :: "nat \<Rightarrow> Bus \<Rightarrow> Bus" where
  "Unsubscribe i b = b\<lparr>subscribers := filter (\<lambda>ep. ep_id ep \<noteq> i) (subscribers b)\<rparr>"

text \<open>
  Modelled from the spec: \<open>close()\<close> closes every endpoint and marks the bus closed; what
  an endpoint still holds stays readable (\<open>events.go\<close> is missing).
\<close>

definition Close :: "Bus \<Rightarrow> Bus" where
  "Close b = b\<lparr>subscribers := map (\<lambda>ep. ep\<lparr>ep_closed := True\<rparr>) (subscribers b), closed := True\<rparr>"


section \<open>Package protocol\<close>

record AuthRequest =
  Token :: string
  Force :: bool

text \<open>\<open>RequestedDomains\<close> is a slice: \<open>None\<close> is \<open>nil\<close>.\<close>

record TunnelRequest =
  RequestedDomains :: "string list option"

record ServerStats =
  BandwidthToday :: int64
  BandwidthTotal :: int64
  BandwidthLimit :: int64

record InitResponse =
  Success :: bool
  Error :: string
  ErrorCode :: string
  BoundDomains :: "string list"
  ServerStats :: "ServerStats option"

section \<open>Package tunnel\<close>

text \<open>The field \<open>Token\<close> of \<open>Tunnel\<close> is \<open>TunnelToken\<close> here, \<open>Token\<close> being the field of \<open>AuthRequest\<close>.\<close>

record Tunnel =
  ServerAddr :: string
  TunnelToken :: string
  LocalPort :: string
  Subdomain :: string

definition NewTunnel :: "string \<Rightarrow> string \<Rightarrow> string \<Rightarrow> Tunnel" where
  "NewTunnel serverAddr token localPort0 =
     \<lparr>ServerAddr = serverAddr, TunnelToken = token, LocalPort = localPort0, Subdomain = []\<rparr>"

text \<open>
  What a session does to the outside, in the order it happens: records written to or the
  closing of the control stream, lines printed and logged, the dial of the local service,
  the two-way byte copy, messages forwarded, connections closed.
\<close>

datatype control_msg = Auth_msg AuthRequest | Tunnel_msg TunnelRequest

datatype effect =
    Control_write control_msg
  | Control_close
  | Printed string
  | Logged string
  | Dialed_local string
  | Raw_copy
  | Request_forwarded
  | Response_forwarded
  | Closed_response_body
  | Closed_local
  | Closed_remote
  | Closed_conn

text \<open>
  The process: the inspector's package state with the heap, the statistics engine, the
  event bus, and the effects so far.
\<close>

record world =
  insp :: "inspector \<times> heap"
  stats_w :: Stats
  bus_w :: Bus
  effects :: "effect list"

definition emit :: "effect \<Rightarrow> world \<Rightarrow> world" where
  "emit e w = w\<lparr>effects := effects w @ [e]\<rparr>"

text \<open>
  What the network and the clock give one worker: the error of the local dial if any; the
  request read from the stream (\<open>None\<close>: \<open>http.ReadRequest\<close> failed) and its body; the error
  of \<open>req.Write(local)\<close> if any; the response read from the local socket (\<open>None\<close>:
  \<open>http.ReadResponse\<close> failed) and its body; the error of \<open>resp.Write(remote)\<close> if any; the
  instants read by \<open>time.Now()\<close> at the start, by \<open>time.Since\<close>, and by \<open>time.Now()\<close> inside
  \<open>AddExchange\<close>.
\<close>

record wire_request =
  w_Method :: string
  w_URL :: string
  w_Proto :: string
  w_Header :: Header

record wire_response =
  w_StatusCode :: int
  w_RespProto :: string
  w_RespHeader :: Header

record stream_env =
  dial_err :: "string option"
  read_request :: "wire_request option"
  request_body :: string
  write_local_err :: "string option"
  read_response :: "wire_response option"
  response_body :: string
  write_remote_err :: "string option"
  t_start :: Time
  t_since :: Time
  t_stamp :: Time

text \<open>The parsers allocate the header map of the message they return.\<close>

definition http_ReadRequest :: "wire_request \<Rightarrow> heap \<Rightarrow> http_Request \<times> heap" where
  "http_ReadRequest wr h =
     (let (m, h1) = new_header_map (w_Header wr) h
      in (\<lparr>req_Method = w_Method wr, req_URL = w_URL wr, req_Proto = w_Proto wr,
           req_Header = Some m\<rparr>, h1))"

definition http_ReadResponse :: "wire_response \<Rightarrow> heap \<Rightarrow> http_Response \<times> heap" where
  "http_ReadResponse wr h =
     (let (m, h1) = new_header_map (w_RespHeader wr) h
      in (\<lparr>resp_StatusCode = w_StatusCode wr, resp_Proto = w_RespProto wr,
           resp_Header = Some m\<rparr>, h1))"

text \<open>
  \<open>proxyStream\<close>. The deferred calls run at every return, last deferred first:
  \<open>resp.Body.Close()\<close>, \<open>local.Close()\<close>, \<open>remote.Close()\<close>.
\<close>

definition proxyStream :: "Tunnel \<Rightarrow> stream_env \<Rightarrow> world \<Rightarrow> world" where
  "proxyStream t se w =
     (let w0 = emit (Dialed_local (''localhost:'' @ LocalPort t)) w
      in case dial_err se of
           Some err \<Rightarrow>
             emit Closed_remote
               (emit (Logged (''Failed to dial local port '' @ LocalPort t @ '': '' @ err)) w0)
         | None \<Rightarrow>
             (case read_request se of
                None \<Rightarrow> emit Closed_remote (emit Closed_local (emit Raw_copy w0))
              | Some wr \<Rightarrow>
                  (let (req, h1) = http_ReadRequest wr (snd (insp w0));
                       w1 = w0\<lparr>insp := (fst (insp w0), h1)\<rparr>;
                       reqBody = request_body se
                   in case write_local_err se of
                        Some err \<Rightarrow>
                          emit Closed_remote (emit Closed_local
                            (emit (Logged (''Failed to write request to local: '' @ err)) w1))
                      | None \<Rightarrow>
                          (let w2 = emit Request_forwarded w1
                           in case read_response se of
                                None \<Rightarrow>
                                  (let w3 = emit (Logged ''Failed to read response from local'') w2;
                                       w4 = w3\<lparr>insp := fst (AddExchange req reqBody None []
                                                 (time_Sub (t_since se) (t_start se)) (t_stamp se)
                                                 (insp w3))\<rparr>
                                   in emit Closed_remote (emit Closed_local w4))
                              | Some wresp \<Rightarrow>
                                  (let (resp, h2) = http_ReadResponse wresp (snd (insp w2));
                                       w3 = w2\<lparr>insp := (fst (insp w2), h2)\<rparr>;
                                       respBody = response_body se;
                                       duration = time_Sub (t_since se) (t_start se);
                                       w4 = w3\<lparr>insp := fst (AddExchange req reqBody (Some resp) respBody
                                                 duration (t_stamp se) (insp w3))\<rparr>;
                                       w5 = (case write_remote_err se of
                                               Some err \<Rightarrow>
                                                 emit (Logged (''Failed to write response to remote: '' @ err)) w4
                                             | None \<Rightarrow> emit Response_forwarded w4)
                                   in emit Closed_remote (emit Closed_local
                                        (emit Closed_response_body w5)))))))"

text \<open>
  The accept loop of \<open>handleSession\<close>: every accepted stream gets a worker. The workers
  are goroutines; they are run here one after the other, in the order of acceptance. The
  streams accepted before \<open>session.Accept\<close> fails are the list \<open>accepted\<close>.
\<close>

fun accept_loop :: "Tunnel \<Rightarrow> stream_env list \<Rightarrow> world \<Rightarrow> world" where
  "accept_loop t [] w = w"
| "accept_loop t (se # ses) w = accept_loop t ses (proxyStream t se w)"

record session_env =
  yamux_err :: "string option"
  open_err :: "string option"
  auth_encode_err :: "string option"
  tunnel_encode_err :: "string option"
  init_response :: "InitResponse option"
  accepted :: "stream_env list"
  accept_err :: string

definition announce :: "Tunnel \<Rightarrow> string \<Rightarrow> effect" where
  "announce t d =
     (let scheme = (if Contains (ServerAddr t) ''localhost'' \<or> Contains (ServerAddr t) ''127.0.0.1''
                    then ''http'' else ''https'')
      in Printed ('' - '' @ scheme @ ''://'' @ d @ '' -> localhost:'' @ LocalPort t))"

text \<open>
  \<open>handleSession\<close> returns the error it ends with. \<open>AuthRequest{Token: t.Token}\<close> leaves
  \<open>Force\<close> at its zero value.
\<close>

definition handleSession :: "Tunnel \<Rightarrow> session_env \<Rightarrow> world \<Rightarrow> world \<times> string" where
  "handleSession t env w =
     (case yamux_err env of
        Some err \<Rightarrow> (emit Closed_conn w, ''failed to start yamux: '' @ err)
      | None \<Rightarrow>
          (case open_err env of
             Some err \<Rightarrow> (emit Closed_conn w, ''failed to open handshake stream: '' @ err)
           | None \<Rightarrow>
               (let authReq = \<lparr>Token = TunnelToken t, Force = False\<rparr>;
                    w1 = emit (Control_write (Auth_msg authReq)) w
                in case auth_encode_err env of
                     Some err \<Rightarrow> (emit Closed_conn w1, err)
                   | None \<Rightarrow>
                       (let requestedDomains = (if Subdomain t \<noteq> [] then Some [Subdomain t] else None);
                            tunnelReq = \<lparr>RequestedDomains = requestedDomains\<rparr>;
                            w2 = emit (Control_write (Tunnel_msg tunnelReq)) w1
                        in case tunnel_encode_err env of
                             Some err \<Rightarrow> (emit Closed_conn w2, err)
                           | None \<Rightarrow>
                               (case init_response env of
                                  None \<Rightarrow> (emit Closed_conn w2, ''handshake read failed'')
                                | Some resp \<Rightarrow>
                                    if \<not> Success resp
                                    then (emit Closed_conn w2, ''server error: '' @ Error resp)
                                    else (let w3 = emit (Printed ''Tunnel Established! Incoming traffic on:'') w2;
                                              w4 = fold (\<lambda>d. emit (announce t d)) (BoundDomains resp) w3;
                                              w5 = emit Control_close w4;
                                              w6 = accept_loop t (accepted env) w5
                                          in (emit Closed_conn w6,
                                              ''session ended: '' @ accept_err env)))))))"

text \<open>The records written to the control stream, in order.\<close>

fun control_writes :: "effect list \<Rightarrow> control_msg list" where
  "control_writes [] = []"
| "control_writes (Control_write m # es) = m # control_writes es"
| "control_writes (e # es) = control_writes es"

fun carries_no_force :: "control_msg \<Rightarrow> bool" where
  "carries_no_force (Auth_msg a) = (\<not> Force a)"
| "carries_no_force (Tunnel_msg r) = True"

fun is_dial :: "effect \<Rightarrow> bool" where
  "is_dial (Dialed_local a) = True"
| "is_dial e = False"

section \<open>Predicates and example states of the verification\<close>

text \<open>
  Newest first: identifiers fall strictly along the list and all lie below the next
  identifier to be assigned.
\<close>

definition newest_first :: "InMemoryStore \<Rightarrow> bool" where
  "newest_first s \<longleftrightarrow>
     sorted_wrt (\<lambda>a b. sint (ID b) < sint (ID a)) (exchanges s)
     \<and> list_all (\<lambda>e. sint (ID e) < sint (nextID s)) (exchanges s)"

text \<open>
  A store holding one exchange whose request record, with a \<open>Host\<close> header, lives in the
  heap: the header map at address 0, the request at address 1.
\<close>

definition shared_request_heap :: heap where
  "shared_request_heap =
     (let (m, h1) = new_header_map [(''Host'', [''a.example''])] empty_heap;
          (a, h2) = new_request \<lparr>Method = ''GET'', URL = ''/'', Proto = ''HTTP/1.1'',
                                  Headers = Some m, Body = [], Size = 0\<rparr> h1
      in h2)"

definition shared_request_store :: InMemoryStore where
  "shared_request_store =
     \<lparr>exchanges = [zero_exchange\<lparr>Request := Some 1\<rparr>], nextID = 1, maxSize = 100\<rparr>"

text \<open>The memory of a caller who holds that store and no pointer yet.\<close>

definition shared_request_memory :: memory where
  "shared_request_memory =
     \<lparr>store = shared_request_store, variables = Map.empty, next_variable = 0,
      objects = shared_request_heap\<rparr>"

text \<open>
  A store holding one exchange of duration 100 with a request and a response record,
  each with a header map: the header maps at addresses 0 and 2, the request at 1, the
  response at 3.
\<close>

definition full_exchange_heap :: heap where
  "full_exchange_heap =
     (let (m, h1) = new_header_map [(''Host'', [''a.example''])] empty_heap;
          (a, h2) = new_request \<lparr>Method = ''POST'', URL = ''/api/test'', Proto = ''HTTP/1.1'',
                                  Headers = Some m, Body = ''ping'', Size = 4\<rparr> h1;
          (m', h3) = new_header_map [(''Content-Type'', [''text/plain''])] h2;
          (b, h4) = new_response \<lparr>Status = 200, Proto_r = ''HTTP/1.1'', Headers_r = Some m',
                                   Body_r = ''pong'', Size_r = 4\<rparr> h3
      in h4)"

definition full_exchange :: HTTPExchange where
  "full_exchange = \<lparr>ID = 0, Request = Some 1, Response = Some 3, Duration = 100, Timestamp = 5\<rparr>"

definition full_exchange_memory :: memory where
  "full_exchange_memory =
     \<lparr>store = \<lparr>exchanges = [full_exchange], nextID = 1, maxSize = 100\<rparr>,
      variables = Map.empty, next_variable = 0, objects = full_exchange_heap\<rparr>"

text \<open>Every captured exchange holds a request record.\<close>

definition captured :: "inspector \<times> heap \<Rightarrow> bool" where
  "captured st \<longleftrightarrow> list_all (\<lambda>ex. stored_request (snd st) ex \<noteq> None) (pkg_exchanges (fst st))"

text \<open>
  A network in which \<open>url.Parse\<close> rejects \<open>http://localhost:3000*\<close> (a port that is not
  a number) and only \<open>http://localhost:3000/ok\<close> answers; and package states: one that
  captured \<open>OPTIONS *\<close>, one built by the legacy \<open>AddRequest\<close>, one that captured \<open>GET /ok\<close>.
\<close>

definition example_env :: net_env where
  "example_env =
     \<lparr>url_Parse = (\<lambda>u. if u = ''http://localhost:3000*'' then Some ''invalid port'' else None),
      client_Do = (\<lambda>c r. if out_URL r = ''http://localhost:3000/ok''
                           then Inr \<lparr>up_StatusCode = 201, up_Header = [], up_Body = ''ok''\<rparr>
                           else Inl ''connection refused''),
      canonical_key = (\<lambda>k. k)\<rparr>"

definition options_star_state :: "inspector \<times> heap" where
  "options_star_state =
     inspector_run [DoSetLocalPort ''3000'', DoParseHeader [],
       DoAddExchange \<lparr>req_Method = ''OPTIONS'', req_URL = ''*'', req_Proto = ''HTTP/1.1'',
                      req_Header = Some 0\<rparr> [] None [] 0 0]"

definition legacy_state :: "inspector \<times> heap" where
  "legacy_state =
     inspector_run [DoSetLocalPort ''3000'', DoAddRequest ''BAD METHOD'' ''a.example'' ''/'' 200 0]"

definition get_ok_state :: "inspector \<times> heap" where
  "get_ok_state =
     inspector_run [DoSetLocalPort ''3000'', DoParseHeader [(''Accept'', [''text/html''])],
       DoAddExchange \<lparr>req_Method = ''GET'', req_URL = ''/ok'', req_Proto = ''HTTP/1.1'',
                      req_Header = Some 0\<rparr> [] None [] 0 0]"

text \<open>
  A tunnel, a process that has not served anything yet (one subscriber on the default
  bus), a stream on which everything succeeds, and a session whose handshake succeeds.
\<close>

definition example_tunnel :: Tunnel where
  "example_tunnel = NewTunnel ''tunnel.example:4443'' ''secret'' ''3000''"

definition example_world :: world where
  "example_world =
     \<lparr>insp = (inspector_init, empty_heap), stats_w = New 0,
      bus_w = fst (Subscribe NewBus), effects = []\<rparr>"

definition ok_stream :: stream_env where
  "ok_stream =
     \<lparr>dial_err = None,
      read_request = Some \<lparr>w_Method = ''GET'', w_URL = ''/ok'', w_Proto = ''HTTP/1.1'',
                            w_Header = [(''Host'', [''a.example''])]\<rparr>,
      request_body = [], write_local_err = None,
      read_response = Some \<lparr>w_StatusCode = 200, w_RespProto = ''HTTP/1.1'',
                             w_RespHeader = [(''Content-Type'', [''text/plain''])]\<rparr>,
      response_body = ''hello'', write_remote_err = None,
      t_start = 1000000000, t_since = 1012345678, t_stamp = 1012345999\<rparr>"

definition ok_session :: session_env where
  "ok_session =
     \<lparr>yamux_err = None, open_err = None, auth_encode_err = None, tunnel_encode_err = None,
      init_response = Some \<lparr>Success = True, Error = [], ErrorCode = [],
                             BoundDomains = [''a.example''], ServerStats = None\<rparr>,
      accepted = [],
      accept_err = ''EOF''\<rparr>"

text \<open>
  Modelled from the spec: the event as delivered, its timestamp filled in at publish time
  if unset (\<open>events.go\<close> is missing).
\<close>

definition stamped :: "Time \<Rightarrow> Event \<Rightarrow> Event" where
  "stamped now e = (case ev_Timestamp e of None \<Rightarrow> e\<lparr>ev_Timestamp := Some now\<rparr> | Some t \<Rightarrow> e)"

text \<open>
  A \<open>connecting\<close> event, and a bus of one-slot endpoints with two subscribers, the first
  of them full.
\<close>

definition connecting :: Event where
  "connecting = \<lparr>ev_Type = EventConnecting, ev_Data = NoData, ev_Timestamp = None\<rparr>"

definition two_subscribers :: Bus where
  "two_subscribers =
     \<lparr>subscribers = [\<lparr>ep_id = 0, queue = [connecting\<lparr>ev_Timestamp := Some 1\<rparr>], ep_closed = False\<rparr>,
                     \<lparr>ep_id = 1, queue = [], ep_closed = False\<rparr>],
      bufferSize = 1, next_ep = 2, closed = False\<rparr>"

section \<open>Verification\<close>

subsection \<open>Cases of the packages' own tests, replayed on the model\<close>

text \<open>
  \<open>TestDecrementOpenConnections\<close>, \<open>TestRingBufferOverflow\<close> of package stats,
  \<open>TestInMemoryStore_List\<close> and \<open>TestInMemoryStore_DefaultMaxSize\<close> of package inspector, and
  the inputs \<open>strconv.ParseInt(s, 10, 64)\<close> accepts and rejects.
\<close>

lemma ParseInt_examples:
  "ParseInt ''42'' = Some 42" "ParseInt ''-7'' = Some (- 7)" "ParseInt ''+5'' = Some 5"
  "ParseInt [] = None" "ParseInt ''abc'' = None" "ParseInt ''1.5'' = None" "ParseInt ''-'' = None"
  "ParseInt ''9223372036854775807'' = Some 9223372036854775807"
  "ParseInt ''-9223372036854775808'' = Some (- 9223372036854775808)"
  "ParseInt ''-9223372036854775809'' = None"
  by (simp_all add: ParseInt_def digit_of_def)

lemma test_DecrementOpenConnections:
  "run_stats (New t0)
     [OpIncrementConnections, OpIncrementConnections, OpDecrementOpenConnections, OpSnapshot t1,
      OpDecrementOpenConnections, OpDecrementOpenConnections, OpSnapshot t2]
   = Inr (s, [a, b]) \<Longrightarrow>
   TotalConnections a = 2 \<and> OpenConnections a = 1 \<and> OpenConnections b = 0"
  by (auto simp: New_def IncrementConnections_def DecrementOpenConnections_def Snapshot_def Let_def
      word_sless_alt)

lemma test_RingBufferOverflow:
  "run_stats (NewWithOptions 5 t0)
     (map (\<lambda>i. OpRecordRequest (of_nat i * Millisecond) 0) [0 ..< 10] @ [OpSnapshot t1])
   = Inr (s, [a]) \<Longrightarrow>
   RT1 a = 9 * Millisecond \<and> RT5 a = 7 * Millisecond \<and>
   requestTimes s = map (\<lambda>i. of_nat i * Millisecond) [5 ..< 10]"
  by (auto simp: NewWithOptions_def RecordRequest_def Snapshot_def Let_def go_copy_def sum_last_def
      go_div_def Millisecond_def upt_conv_Cons signed_divide_int_def)

lemma test_InMemoryStore_List:
  "run_store (NewInMemoryStore 100) [OpAdd e, OpAdd e, OpAdd e] = Inr (s, ids) \<Longrightarrow>
   map ID (List s) = [2, 1, 0] \<and> ids = [0, 1, 2]"
  by (auto simp: NewInMemoryStore_def Add_def List_def Let_def go_copy_def)

lemma test_InMemoryStore_DefaultMaxSize:
  "maxSize (NewInMemoryStore 0) = 100" "maxSize (NewInMemoryStore (- 1)) = 100"
  by (simp_all add: NewInMemoryStore_def)

subsection \<open>The double-precision index equals the integer quotient\<close>

lemma bitlen_le_iff: "bitlen n \<le> k \<longleftrightarrow> n < 2 ^ k"
proof (induction n arbitrary: k rule: bitlen.induct)
  case (1 n)
  show ?case
  proof (cases "n = 0")
    case True
    then show ?thesis by (simp add: bitlen.simps)
  next
    case False
    show ?thesis
    proof (cases k)
      case 0
      with False show ?thesis by (simp add: bitlen.simps)
    next
      case (Suc j)
      have "bitlen n \<le> Suc j \<longleftrightarrow> bitlen (n div 2) \<le> j"
        using False by (subst bitlen.simps) simp
      also have "\<dots> \<longleftrightarrow> n div 2 < 2 ^ j" using 1 False by simp
      also have "\<dots> \<longleftrightarrow> n < 2 ^ Suc j" by auto
      finally show ?thesis using Suc by simp
    qed
  qed
qed

lemma bitlen_lower:
  assumes a: "0 < bitlen n"
  shows "2 ^ (bitlen n - 1) \<le> n"
proof -
  have "\<not> bitlen n \<le> bitlen n - 1" using a by simp
  then have "\<not> n < 2 ^ (bitlen n - 1)" using bitlen_le_iff by blast
  then show ?thesis by simp
qed

lemma f64_of_nat_exact: "n < 2 ^ 53 \<Longrightarrow> f64_of_nat n = (n, 0)"
  by (simp add: f64_of_nat_def round_f64_def bitlen_le_iff)


lemma bitlen_numeral [simp]: "bitlen (numeral (Num.Bit0 k)) = Suc (bitlen (numeral k))"
  "bitlen (numeral (Num.Bit1 k)) = Suc (bitlen (numeral k))" "bitlen 1 = 1" "bitlen 0 = 0" "bitlen (Suc 0) = 1"
  by (subst bitlen.simps, simp add: bitlen.simps)+

lemma f64_product_trunc:
  assumes n: "n < 2 ^ 49"
  shows "f64_trunc (round_f64 (n * 8106479329266893, - 53)) = 9 * n div 10"
proof -
  define X where "X = n * 8106479329266893"
  define k where "k = 9 * n div 10"
  define P :: nat where "P = 2 ^ 53"
  have P_val: "P = 9007199254740992" by (simp add: P_def)
  have n': "12 * n < P" using n by (simp add: P_val)
  have tenX: "10 * X = 9 * n * P + 2 * n" by (simp add: X_def P_val)
  have k_lo: "10 * k \<le> 9 * n" and k_hi: "9 * n < 10 * k + 10" by (simp_all add: k_def)
  have X_lo: "k * P \<le> X"
  proof -
    have "10 * k * P \<le> 9 * n * P" using k_lo by (rule mult_le_mono1)
    also have "\<dots> \<le> 10 * X" using tenX by simp
    finally show ?thesis by simp
  qed
  have X_hi: "10 * X + P \<le> 10 * ((k + 1) * P) + 2 * n"
  proof -
    have "9 * n + 1 \<le> 10 * (k + 1)" using k_hi by simp
    then have "(9 * n + 1) * P \<le> 10 * (k + 1) * P"
      by (rule mult_le_mono1)
    then show ?thesis using tenX by (simp add: algebra_simps)
  qed
  have X_lt: "X < (k + 1) * P"
  proof -
    have "10 * X < 10 * ((k + 1) * P)" using X_hi n' by linarith
    then show ?thesis by simp
  qed
  show ?thesis
  proof (cases "bitlen X \<le> 53")
    case True
    then have small: "X < P" by (simp add: bitlen_le_iff P_def)
    with X_lo have "k = 0" by (cases k) auto
    moreover have "f64_trunc (round_f64 (X, - 53)) = X div P"
      using True by (simp add: round_f64_def f64_trunc_def P_val)
    ultimately show ?thesis using small by (simp add: X_def k_def)
  next
    case False
    define s where "s = bitlen X - 53"
    define t where "t = 53 - s"
    define q where "q = X div 2 ^ s"
    define r where "r = X mod 2 ^ s"
    have s_pos: "0 < s" using False by (simp add: s_def)
    have n_pos: "0 < n" using False by (cases "n = 0") (simp_all add: X_def)
    have "X < 2 ^ 49 * 2 ^ 53" unfolding X_def
      using n by (intro mult_strict_mono) simp_all
    then have "X < 2 ^ 102" by simp
    then have "bitlen X \<le> 102" by (simp only: bitlen_le_iff)
    then have s_le: "s \<le> 49" by (simp add: s_def)
    have split53: "P = 2 ^ t * 2 ^ s"
      using s_le unfolding P_def t_def by (simp flip: power_add)
    have Xqr: "X = q * 2 ^ s + r"
      using div_mult_mod_eq [of X "2 ^ s"] by (simp add: q_def r_def)
    have r_lt: "r < 2 ^ s" by (simp add: r_def)
    have q_lo: "k * 2 ^ t \<le> q"
    proof -
      have "k * 2 ^ t * 2 ^ s \<le> X" using X_lo by (simp add: split53 mult.assoc)
      then show ?thesis unfolding q_def by (simp add: less_eq_div_iff_mult_less_eq)
    qed
    have q_hi: "q < (k + 1) * 2 ^ t"
    proof -
      have "X < (k + 1) * 2 ^ t * 2 ^ s" using X_lt by (simp only: split53 mult.assoc)
      then show ?thesis unfolding q_def by (simp add: div_less_iff_less_mult)
    qed
    have pow_s: "2 ^ s < 2 * n"
    proof -
      have "0 < bitlen X" using False by simp
      then have "2 ^ (bitlen X - 1) \<le> X" by (rule bitlen_lower)
      moreover have "bitlen X - 1 = s + 52" using False by (simp add: s_def)
      ultimately have "2 ^ s * 2 ^ 52 \<le> X" by (simp only: power_add)
      also have "X < n * 2 ^ 53" unfolding X_def using n_pos by simp
      also have "n * 2 ^ 53 = (2 * n) * 2 ^ 52" by simp
      finally show ?thesis by (simp only: mult_less_cancel2)
    qed
    have no_carry: "\<not> (2 ^ (s - 1) \<le> r \<and> q + 1 = (k + 1) * 2 ^ t)"
    proof
      assume a: "2 ^ (s - 1) \<le> r \<and> q + 1 = (k + 1) * 2 ^ t"
      have "(2::nat) ^ s = 2 * 2 ^ (s - 1)" using s_pos by (cases s) simp_all
      then have half: "2 ^ s \<le> 2 * r" using a by simp
      have "(k + 1) * P = (q + 1) * 2 ^ s" using a by (simp only: split53 mult.assoc)
      also have "\<dots> = q * 2 ^ s + 2 ^ s" by (simp add: algebra_simps)
      finally have "2 * ((k + 1) * P) \<le> 2 * X + 2 ^ s" using Xqr half by simp
      then have "10 * ((k + 1) * P) \<le> 10 * X + 5 * 2 ^ s" by simp
      with X_hi have "P \<le> 2 * n + 5 * 2 ^ s" by linarith
      with pow_s have "P < 12 * n" by linarith
      with n' show False by simp
    qed
    define q' where "q' = (if 2 ^ (s - 1) < r \<or> (r = 2 ^ (s - 1) \<and> odd q) then q + 1 else q)"
    have q'_lo: "k * 2 ^ t \<le> q'" using q_lo by (simp add: q'_def)
    have q'_hi: "q' < (k + 1) * 2 ^ t"
      using q_hi no_carry unfolding q'_def by (auto simp: less_le)
    have "round_f64 (X, - 53) = (q', - 53 + int s)"
      using False by (simp add: round_f64_def Let_def s_def q_def r_def q'_def)
    moreover have "nat (53 - int s) = t" using s_le by (simp add: t_def)
    ultimately have "f64_trunc (round_f64 (X, - 53)) = q' div 2 ^ t"
      using s_le by (simp add: f64_trunc_def)
    also have "\<dots> = k"
      using q'_lo q'_hi by (simp add: div_nat_eqI mult.commute)
    finally show ?thesis by (simp add: X_def k_def)
  qed
qed

lemma p90Index_eq:
  assumes "n < 2 ^ 49"
  shows "p90Index n = min (9 * n div 10) (n - 1)"
proof -
  have "n < 2 ^ 53" using assms by simp
  then have "f64_trunc (f64_mul (f64_of_nat n) f64_0_9) = 9 * n div 10"
    using f64_product_trunc [OF assms] by (simp add: f64_of_nat_exact f64_mul_def f64_0_9_def)
  then show ?thesis by (auto simp: p90Index_def Let_def min_def)
qed

subsection \<open>Package stats: helper facts\<close>

lemma fold_plus_nth:
  "fold (\<lambda>i sum. sum + f i) is acc = acc + sum_list (map f is)"
  for acc :: "'a::comm_monoid_add"
  by (induction "is" arbitrary: acc) (simp_all add: add.assoc)

lemma map_nth_from: "map ((!) ts) [a ..< length ts] = drop a ts"
proof -
  have "drop a (map ((!) ts) [0 ..< length ts]) = map ((!) ts) [a ..< length ts]"
    by (simp add: drop_map)
  then show ?thesis by (simp add: map_nth)
qed

lemma sum_last_eq:
  "sum_last ts (length ts) k = sum_list (drop (length ts - k) ts)"
  by (simp add: sum_last_def fold_plus_nth map_nth_from)

lemma drop_all_but_last: "ts \<noteq> [] \<Longrightarrow> drop (length (tl ts)) ts = [last ts]"
proof -
  assume ne: "ts \<noteq> []"
  have "drop (length (butlast ts)) (butlast ts @ [last ts]) = [last ts]" by simp
  then show ?thesis using ne by simp
qed

lemma go_copy_shift:
  assumes "ts \<noteq> []"
  shows "butlast (go_copy ts (tl ts)) = tl ts"
proof -
  have "take (length ts) (tl ts) = tl ts" by simp
  then have "go_copy ts (tl ts) = tl ts @ [last ts]"
    unfolding go_copy_def using drop_all_but_last [OF assms] by simp
  then show ?thesis by simp
qed

lemma sint_sum_list:
  fixes ds :: "Duration list"
  assumes "\<forall>d \<in> set ds. \<bar>sint d\<bar> < B" and "int (length ds) * B \<le> 2 ^ 63"
  shows "sint (sum_list ds) = (\<Sum>d\<leftarrow>ds. sint d) \<and> \<bar>\<Sum>d\<leftarrow>ds. sint d\<bar> \<le> int (length ds) * B"
  using assms
proof (induction ds)
  case Nil
  then show ?case by simp
next
  case (Cons d ds)
  have B: "0 < B" using Cons.prems(1) by auto
  have len: "int (length ds) * B \<le> 2 ^ 63 - B" using Cons.prems(2) by (simp add: algebra_simps)
  then have "int (length ds) * B \<le> 2 ^ 63" using B by linarith
  with Cons have IH: "sint (sum_list ds) = (\<Sum>d\<leftarrow>ds. sint d)" "\<bar>\<Sum>d\<leftarrow>ds. sint d\<bar> \<le> int (length ds) * B"
    by simp_all
  have d: "\<bar>sint d\<bar> < B" using Cons.prems(1) by simp
  have bound: "\<bar>sint d + (\<Sum>d\<leftarrow>ds. sint d)\<bar> < 2 ^ 63" using d IH(2) len by linarith
  have "sint (d + sum_list ds) = signed_take_bit 63 (sint d + sint (sum_list ds))"
    by (simp add: sint_word_ariths)
  also have "\<dots> = sint d + (\<Sum>d\<leftarrow>ds. sint d)"
    using bound by (simp add: IH(1) signed_take_bit_int_eq_self)
  finally show ?case using d IH(2) by (simp add: algebra_simps)
qed

lemma sint_succ:
  fixes x :: int64
  assumes "sint x < 2 ^ 63 - 1"
  shows "sint (x + 1) = sint x + 1"
proof -
  have lo: "- (2 ^ 63) \<le> sint x" using sint_ge [of x] by simp
  have "sint (x + 1) = signed_take_bit 63 (sint x + 1)" by (simp add: sint_word_ariths)
  also have "\<dots> = sint x + 1" using assms lo by (simp add: signed_take_bit_int_eq_self)
  finally show ?thesis .
qed

lemma sint_pred:
  fixes x :: int64
  assumes "0 < sint x"
  shows "sint (x - 1) = sint x - 1"
proof -
  have hi: "sint x < 2 ^ 63" using sint_lt [of x] by simp
  have "sint (x - 1) = signed_take_bit 63 (sint x - 1)" by (simp add: sint_word_ariths)
  also have "\<dots> = sint x - 1" using assms hi by (simp add: signed_take_bit_int_eq_self)
  finally show ?thesis .
qed

lemma RecordRequest_returns:
  assumes "0 < maxSamples s"
  shows "\<exists>s'. RecordRequest d b s = Inr s' \<and> openConns s' = openConns s
           \<and> totalConns s' = totalConns s \<and> maxSamples s' = maxSamples s"
  using assms by (cases "requestTimes s = []") (simp_all add: RecordRequest_def Let_def)

lemma run_stats_conns:
  assumes "0 < maxSamples s" and "0 \<le> sint (openConns s)"
    and "sint (openConns s) \<le> sint (totalConns s)"
    and "sint (totalConns s) + int (length ops) < 2 ^ 63"
  shows "\<exists>s' snaps. run_stats s ops = Inr (s', snaps)
           \<and> 0 \<le> sint (openConns s') \<and> sint (openConns s') \<le> sint (totalConns s')
           \<and> (\<forall>sn \<in> set snaps. 0 \<le> sint (OpenConnections sn)
                 \<and> sint (OpenConnections sn) \<le> sint (TotalConnections sn))"
  using assms
proof (induction s ops rule: run_stats.induct)
  case (1 s)
  then show ?case by simp
next
  case (2 s ops)
  let ?s = "IncrementConnections s"
  have t: "sint (totalConns s) < 2 ^ 63 - 1" using "2.prems"(4) by simp
  then have o: "sint (openConns s) < 2 ^ 63 - 1" using "2.prems"(3) by simp
  have eq: "sint (totalConns ?s) = sint (totalConns s) + 1"
    "sint (openConns ?s) = sint (openConns s) + 1"
    using t o by (simp_all add: IncrementConnections_def sint_succ)
  have m: "maxSamples ?s = maxSamples s" by (simp add: IncrementConnections_def)
  have "0 < maxSamples ?s" "0 \<le> sint (openConns ?s)"
    "sint (openConns ?s) \<le> sint (totalConns ?s)"
    "sint (totalConns ?s) + int (length ops) < 2 ^ 63"
    using "2.prems" eq m by simp_all
  then show ?case using "2.IH" by simp
next
  case (3 s ops)
  let ?s = "DecrementOpenConnections s"
  have "0 < maxSamples ?s" "0 \<le> sint (openConns ?s)"
    "sint (openConns ?s) \<le> sint (totalConns ?s)"
    "sint (totalConns ?s) + int (length ops) < 2 ^ 63"
    using "3.prems" by (auto simp: DecrementOpenConnections_def word_sless_alt sint_pred)
  then show ?case using "3.IH" by simp
next
  case (4 s d b ops)
  obtain s' where s': "RecordRequest d b s = Inr s'" "openConns s' = openConns s"
    "totalConns s' = totalConns s" "maxSamples s' = maxSamples s"
    using RecordRequest_returns [OF "4.prems"(1)] by blast
  have "0 < maxSamples s'" "0 \<le> sint (openConns s')"
    "sint (openConns s') \<le> sint (totalConns s')"
    "sint (totalConns s') + int (length ops) < 2 ^ 63"
    using "4.prems" s' by simp_all
  then show ?case using "4.IH" [OF s'(1)] s'(1) by simp
next
  case (5 s l ops)
  let ?s = "SetServerLatency l s"
  have "0 < maxSamples ?s" "0 \<le> sint (openConns ?s)"
    "sint (openConns ?s) \<le> sint (totalConns ?s)"
    "sint (totalConns ?s) + int (length ops) < 2 ^ 63"
    using "5.prems" by (simp_all add: SetServerLatency_def)
  then show ?case using "5.IH" by simp
next
  case (6 s now ops)
  let ?s = "Reset now s"
  have "0 \<le> sint (totalConns s)" using "6.prems" by simp
  then have "0 < maxSamples ?s" "0 \<le> sint (openConns ?s)"
    "sint (openConns ?s) \<le> sint (totalConns ?s)"
    "sint (totalConns ?s) + int (length ops) < 2 ^ 63"
    using "6.prems" by (simp_all add: Reset_def)
  then show ?case using "6.IH" by simp
next
  case (7 s now ops)
  have "sint (totalConns s) + int (length ops) < 2 ^ 63" using "7.prems"(4) by simp
  with "7.IH" "7.prems" obtain s' snaps where r: "run_stats s ops = Inr (s', snaps)"
    "0 \<le> sint (openConns s')" "sint (openConns s') \<le> sint (totalConns s')"
    "\<forall>sn \<in> set snaps. 0 \<le> sint (OpenConnections sn) \<and> sint (OpenConnections sn) \<le> sint (TotalConnections sn)"
    by blast
  have "OpenConnections (Snapshot s now) = openConns s" "TotalConnections (Snapshot s now) = totalConns s"
    by (simp_all add: Snapshot_def Let_def)
  then show ?case using r "7.prems" by simp
qed

lemma abs_sdiv_le: "\<bar>a sdiv b\<bar> \<le> \<bar>a\<bar>" for a b :: int
proof -
  have "0 \<le> \<bar>a\<bar> div \<bar>b\<bar>" by (simp add: div_int_pos_iff)
  then have "\<bar>a sdiv b\<bar> = \<bar>sgn a\<bar> * \<bar>sgn b\<bar> * (\<bar>a\<bar> div \<bar>b\<bar>)"
    by (simp add: signed_divide_int_def abs_mult)
  also have "\<dots> \<le> \<bar>a\<bar> div \<bar>b\<bar>"
    by (cases "a = 0"; cases "b = 0") (simp_all add: abs_sgn_eq)
  also have "\<dots> \<le> \<bar>a\<bar>"
  proof (cases "b = 0")
    case True
    then show ?thesis by simp
  next
    case False
    then have "\<bar>a\<bar> div \<bar>b\<bar> \<le> \<bar>a\<bar> div 1" by (intro zdiv_mono2) simp_all
    then show ?thesis by simp
  qed
  finally show ?thesis .
qed

lemma sum_list_word_of_int:
  fixes ds :: "Duration list"
  shows "sum_list ds = word_of_int (\<Sum>d\<leftarrow>ds. sint d)"
  by (induction ds) simp_all

lemma sint_sum_list_wrap:
  fixes ds :: "Duration list"
  shows "sint (sum_list ds) = signed_take_bit 63 (\<Sum>d\<leftarrow>ds. sint d)"
  by (subst sum_list_word_of_int) (simp add: signed_of_int)

lemma sint_sum_list_exact:
  fixes ds :: "Duration list"
  assumes "- (2 ^ 63) \<le> (\<Sum>d\<leftarrow>ds. sint d)" and "(\<Sum>d\<leftarrow>ds. sint d) < 2 ^ 63"
  shows "sint (sum_list ds) = (\<Sum>d\<leftarrow>ds. sint d)"
  using assms by (simp add: sint_sum_list_wrap signed_take_bit_int_eq_self)

lemma sdiv_nonneg_range:
  fixes a k :: int
  assumes "- B \<le> a" and "a < B" and "0 \<le> k"
  shows "- B \<le> a sdiv k \<and> a sdiv k < B"
proof (cases "0 \<le> a")
  case True
  then show ?thesis using abs_sdiv_le [of a k] assms by linarith
next
  case False
  have "0 \<le> \<bar>a\<bar> div \<bar>k\<bar>" by (simp add: div_int_pos_iff)
  then have "sgn k * (\<bar>a\<bar> div \<bar>k\<bar>) \<ge> 0" using assms(3) by (simp add: sgn_if)
  then have "a sdiv k \<le> 0" using False by (simp add: signed_divide_int_def)
  then show ?thesis using abs_sdiv_le [of a k] assms False by linarith
qed

lemma sint_go_div_count:
  fixes a :: Duration
  assumes "k \<le> 5"
  shows "sint (go_div a (of_nat k)) = sint a sdiv int k"
proof -
  have "int k < 2 ^ 63" using assms by simp
  then have k: "sint (of_nat k :: int64) = int k"
    by (simp add: signed_of_nat signed_take_bit_int_eq_self)
  have "- (2 ^ 63) \<le> sint a" "sint a < 2 ^ 63" using sint_ge [of a] sint_lt [of a] by simp_all
  then have "- (2 ^ 63) \<le> sint a sdiv int k \<and> sint a sdiv int k < 2 ^ 63"
    by (intro sdiv_nonneg_range) simp_all
  then have "sint (word_of_int (sint a sdiv int k) :: int64) = sint a sdiv int k"
    by (simp add: signed_of_int signed_take_bit_int_eq_self)
  then show ?thesis by (simp add: go_div_def k)
qed

lemma percentile_durations_eval:
  "percentile_durations = [10000000, 20000000, 30000000, 40000000, 50000000,
      60000000, 70000000, 80000000, 90000000, 100000000]"
  by (simp add: percentile_durations_def Millisecond_def upt_conv_Cons)

lemma p90Index_10: "p90Index 10 = 9"
  using p90Index_eq [of 10] by simp

lemma p90Index_Suc10:
  "p90Index (Suc (Suc (Suc (Suc (Suc (Suc (Suc (Suc (Suc (Suc 0)))))))))) = 9"
proof -
  have "Suc (Suc (Suc (Suc (Suc (Suc (Suc (Suc (Suc (Suc 0))))))))) = 10" by simp
  then show ?thesis by (simp only: p90Index_10)
qed

lemma seed_run:
  "\<exists>s1 sn. run_stats (NewWithOptions 100 t0)
        (map (\<lambda>d. OpRecordRequest d 0) percentile_durations @ [OpSnapshot t1]) = Inr (s1, [sn])
      \<and> RT1 sn = 100 * Millisecond \<and> RT5 sn = 80 * Millisecond
      \<and> P50 sn = 60 * Millisecond \<and> P90 sn = 100 * Millisecond"
  by (simp add: percentile_durations_eval NewWithOptions_def RecordRequest_def Snapshot_def
      Let_def sum_last_def sort_durations_def go_div_def Millisecond_def p90Index_Suc10
      upt_rec_numeral signed_divide_int_def)

lemma RecordRequest_ring:
  assumes "0 < maxSamples s"
  shows "RecordRequest d b s =
     Inr (s\<lparr>totalRequests := totalRequests s + 1, totalBytes := totalBytes s + b,
            requestTimes := (if maxSamples s \<le> int (length (requestTimes s))
                             then tl (requestTimes s) else requestTimes s) @ [d]\<rparr>)"
proof (cases "maxSamples s \<le> int (length (requestTimes s))")
  case True
  then have ne: "requestTimes s \<noteq> []" using assms by auto
  show ?thesis using True ne by (simp add: RecordRequest_def Let_def go_copy_shift)
next
  case False
  then show ?thesis by (simp add: RecordRequest_def Let_def)
qed

lemma RT1_after_record:
  assumes "0 < maxSamples s"
  shows "\<exists>s'. RecordRequest d b s = Inr s' \<and> last (requestTimes s') = d
           \<and> RT1 (Snapshot s' now) = d
           \<and> requestTimes s' = (if maxSamples s \<le> int (length (requestTimes s))
                             then tl (requestTimes s) else requestTimes s) @ [d]"
  using RecordRequest_ring [OF assms, of d b]
  by (simp add: Snapshot_def Let_def)

subsection \<open>Derived timings of a snapshot\<close>

text \<open>
  Claim C2, amended. Let \<open>ts\<close> be the sample buffer of a statistics state, \<open>n\<close> its length
  (below \<open>2 ^ 49\<close>, which every buffer that fits in memory is) and \<open>recent\<close> its last
  \<open>min n 5\<close> samples. With no sample all four timings of the snapshot are zero. Otherwise
  \<open>RT1\<close> is the last sample. \<open>RT5\<close> is the sum of \<open>recent\<close> as a 64-bit \<open>Duration\<close>, which
  wraps, divided by \<open>min n 5\<close> with the quotient cut toward zero; it is the mean of
  \<open>recent\<close> cut toward zero to whole nanoseconds whenever the sum of \<open>recent\<close> lies in
  the \<open>int64\<close> range, as it does when every sample is below \<open>2 ^ 60\<close> ns in size. \<open>P50\<close> is
  the sorted buffer at \<open>n div 2\<close> and \<open>P90\<close> the sorted buffer at
  \<open>min (9 * n div 10) (n - 1)\<close>, the double-precision product of the source giving exactly
  that index. The sorted buffer is ascending and a permutation of the buffer. Recording a
  duration puts it at the end of the buffer, after dropping the oldest sample of a full
  buffer, so that the next snapshot has it as \<open>RT1\<close>. Recording 10, 20, ..., 100 ms into an
  engine of capacity 100 and taking a snapshot gives \<open>RT1 = 100 ms\<close>, \<open>RT5 = 80 ms\<close>,
  \<open>P50 = 60 ms\<close> and \<open>P90 = 100 ms\<close>.
\<close>

theorem snapshot_timings:
  fixes s :: Stats and now t0 t1 :: Time
  defines "ts \<equiv> requestTimes s"
  defines "n \<equiv> length ts"
  defines "recent \<equiv> drop (n - min n 5) ts"
  defines "snap \<equiv> Snapshot s now"
  assumes mem: "n < 2 ^ 49"
  shows "(n = 0 \<longrightarrow> RT1 snap = 0 \<and> RT5 snap = 0 \<and> P50 snap = 0 \<and> P90 snap = 0)
       \<and> (0 < n \<longrightarrow>
            RT1 snap = last ts
          \<and> length recent = min n 5
          \<and> sint (RT5 snap) = signed_take_bit 63 (\<Sum>d\<leftarrow>recent. sint d) sdiv int (min n 5)
          \<and> (- (2 ^ 63) \<le> (\<Sum>d\<leftarrow>recent. sint d) \<and> (\<Sum>d\<leftarrow>recent. sint d) < 2 ^ 63 \<longrightarrow>
                sint (RT5 snap) = (\<Sum>d\<leftarrow>recent. sint d) sdiv int (min n 5))
          \<and> ((\<forall>d \<in> set recent. \<bar>sint d\<bar> < 2 ^ 60) \<longrightarrow>
                sint (RT5 snap) = (\<Sum>d\<leftarrow>recent. sint d) sdiv int (min n 5))
          \<and> P50 snap = sort_durations ts ! (n div 2)
          \<and> P90 snap = sort_durations ts ! min (9 * n div 10) (n - 1))
       \<and> sorted (map sint (sort_durations ts))
       \<and> mset (sort_durations ts) = mset ts
       \<and> (\<forall>d b. 0 < maxSamples s \<longrightarrow>
             (\<exists>s'. RecordRequest d b s = Inr s'
                \<and> requestTimes s' = (if maxSamples s \<le> int n then tl ts else ts) @ [d]
                \<and> RT1 (Snapshot s' now) = d))
       \<and> (\<exists>s1 sn. run_stats (NewWithOptions 100 t0)
               (map (\<lambda>d. OpRecordRequest d 0) percentile_durations @ [OpSnapshot t1]) = Inr (s1, [sn])
             \<and> RT1 sn = 100 * Millisecond \<and> RT5 sn = 80 * Millisecond
             \<and> P50 sn = 60 * Millisecond \<and> P90 sn = 100 * Millisecond)"
proof -
  have zero: "n = 0 \<longrightarrow> RT1 snap = 0 \<and> RT5 snap = 0 \<and> P50 snap = 0 \<and> P90 snap = 0"
    by (simp add: snap_def Snapshot_def n_def ts_def)
  have srt: "sorted (map sint (sort_durations ts))" "mset (sort_durations ts) = mset ts"
    by (simp_all add: sort_durations_def)
  have pos: "RT1 snap = last ts \<and> length recent = min n 5
      \<and> sint (RT5 snap) = signed_take_bit 63 (\<Sum>d\<leftarrow>recent. sint d) sdiv int (min n 5)
      \<and> (- (2 ^ 63) \<le> (\<Sum>d\<leftarrow>recent. sint d) \<and> (\<Sum>d\<leftarrow>recent. sint d) < 2 ^ 63 \<longrightarrow>
                sint (RT5 snap) = (\<Sum>d\<leftarrow>recent. sint d) sdiv int (min n 5))
      \<and> ((\<forall>d \<in> set recent. \<bar>sint d\<bar> < 2 ^ 60) \<longrightarrow>
                sint (RT5 snap) = (\<Sum>d\<leftarrow>recent. sint d) sdiv int (min n 5))
      \<and> P50 snap = sort_durations ts ! (n div 2)
      \<and> P90 snap = sort_durations ts ! min (9 * n div 10) (n - 1)" if n: "0 < n"
  proof -
    have ne: "ts \<noteq> []" using n by (simp add: n_def)
    have cnt: "(if n < 5 then n else 5) = min n 5" by simp
    have rt1: "RT1 snap = last ts"
      using n ne by (simp add: snap_def Snapshot_def Let_def last_conv_nth flip: ts_def n_def)
    have len: "length recent = min n 5" by (auto simp: recent_def n_def)
    have rt5: "RT5 snap = go_div (sum_list recent) (of_nat (min n 5))"
      using n sum_last_eq [of ts "min n 5"]
      by (simp add: snap_def Snapshot_def Let_def cnt recent_def flip: ts_def n_def del: min_less_iff_conj)
    have wrap: "sint (RT5 snap) = signed_take_bit 63 (\<Sum>d\<leftarrow>recent. sint d) sdiv int (min n 5)"
      using sint_go_div_count [of "min n 5" "sum_list recent"]
      by (simp add: rt5 sint_sum_list_wrap)
    have exact: "sint (RT5 snap) = (\<Sum>d\<leftarrow>recent. sint d) sdiv int (min n 5)"
      if "- (2 ^ 63) \<le> (\<Sum>d\<leftarrow>recent. sint d)" "(\<Sum>d\<leftarrow>recent. sint d) < 2 ^ 63"
      using that by (simp add: wrap signed_take_bit_int_eq_self)
    have p50: "P50 snap = sort_durations ts ! (n div 2)"
      using n by (simp add: snap_def Snapshot_def Let_def flip: ts_def n_def)
    have p90: "P90 snap = sort_durations ts ! min (9 * n div 10) (n - 1)"
      using n p90Index_eq [OF mem] by (simp add: snap_def Snapshot_def Let_def flip: ts_def n_def)
    have mean: "sint (RT5 snap) = (\<Sum>d\<leftarrow>recent. sint d) sdiv int (min n 5)"
      if small: "\<forall>d \<in> set recent. \<bar>sint d\<bar> < 2 ^ 60"
    proof -
      have "int (length recent) * 2 ^ 60 \<le> 5 * 2 ^ 60" using len by simp
      then have le: "int (length recent) * 2 ^ 60 \<le> 2 ^ 62 + 2 ^ 60" by simp
      then have "int (length recent) * 2 ^ 60 \<le> 2 ^ 63" by simp
      from sint_sum_list [OF small this]
      have "\<bar>\<Sum>d\<leftarrow>recent. sint d\<bar> \<le> int (length recent) * 2 ^ 60" by simp
      then have "\<bar>\<Sum>d\<leftarrow>recent. sint d\<bar> < 2 ^ 63" using le by simp
      then show ?thesis by (intro exact) linarith+
    qed
    show ?thesis using rt1 len wrap exact p50 p90 mean by blast
  qed
  have rec: "\<forall>d b. 0 < maxSamples s \<longrightarrow>
             (\<exists>s'. RecordRequest d b s = Inr s'
                \<and> requestTimes s' = (if maxSamples s \<le> int n then tl ts else ts) @ [d]
                \<and> RT1 (Snapshot s' now) = d)"
    unfolding n_def ts_def using RT1_after_record [of s] by blast
  show ?thesis using zero pos srt rec seed_run [of t0 t1] by blast
qed

text \<open>
  Claim C2 as stated fails. \<open>RecordRequest\<close> takes any \<open>Duration\<close>. After the samples
  \<open>9223372036854775807\<close> ns, the largest \<open>Duration\<close>, and \<open>1\<close> ns the sum of the two is
  \<open>2 ^ 63\<close> and their mean \<open>2 ^ 62\<close>; the sum computed by \<open>Snapshot\<close> wraps to \<open>- 2 ^ 63\<close> and
  \<open>RT5\<close> is \<open>- 2 ^ 62\<close>.
\<close>

theorem rt5_sum_overflows:
  "\<exists>s sn. run_stats (New 0) [OpRecordRequest 9223372036854775807 0, OpRecordRequest 1 0, OpSnapshot 0]
            = Inr (s, [sn])
        \<and> requestTimes s = [9223372036854775807, 1]
        \<and> (\<Sum>d\<leftarrow>requestTimes s. sint d) = 9223372036854775808
        \<and> (\<Sum>d\<leftarrow>requestTimes s. sint d) sdiv 2 = 4611686018427387904
        \<and> sint (RT5 sn) = - 4611686018427387904"
  by (simp add: New_def RecordRequest_def Snapshot_def Let_def sum_last_def go_div_def
      sort_durations_def signed_divide_int_def time_Sub_def p90Index_eq upt_conv_Cons)

theorem snapshot_timings_witness:
  "length (requestTimes (New 0)) < 2 ^ 49 \<and> length (requestTimes (New 0)) = 0
   \<and> RT1 (Snapshot (New 0) 7) = 0 \<and> RT5 (Snapshot (New 0) 7) = 0
   \<and> P50 (Snapshot (New 0) 7) = 0 \<and> P90 (Snapshot (New 0) 7) = 0
   \<and> length (requestTimes (New 0\<lparr>requestTimes := [3, 1, 2, - 9, 4, 7]\<rparr>)) < 2 ^ 49
   \<and> 0 < length (requestTimes (New 0\<lparr>requestTimes := [3, 1, 2, - 9, 4, 7]\<rparr>))
   \<and> list_all (\<lambda>d. \<bar>sint d\<bar> < 2 ^ 60) (drop 1 [3, 1, 2, - 9, 4, 7 :: Duration])
   \<and> - (2 ^ 63) \<le> (\<Sum>d\<leftarrow>drop 1 [3, 1, 2, - 9, 4, 7 :: Duration]. sint d)
   \<and> (\<Sum>d\<leftarrow>drop 1 [3, 1, 2, - 9, 4, 7 :: Duration]. sint d) < 2 ^ 63
   \<and> (\<Sum>d\<leftarrow>drop 1 [3, 1, 2, - 9, 4, 7 :: Duration]. sint d) = 5
   \<and> RT1 (Snapshot (New 0\<lparr>requestTimes := [3, 1, 2, - 9, 4, 7]\<rparr>) 7) = 7
   \<and> sint (RT5 (Snapshot (New 0\<lparr>requestTimes := [3, 1, 2, - 9, 4, 7]\<rparr>) 7)) = 1
   \<and> P50 (Snapshot (New 0\<lparr>requestTimes := [3, 1, 2, - 9, 4, 7]\<rparr>) 7) = 3
   \<and> P90 (Snapshot (New 0\<lparr>requestTimes := [3, 1, 2, - 9, 4, 7]\<rparr>) 7) = 7
   \<and> 0 < maxSamples (New 0)
   \<and> (\<exists>s'. RecordRequest 5 0 (New 0) = Inr s' \<and> requestTimes s' = [5]
          \<and> RT1 (Snapshot s' 7) = 5)"
  using snapshot_timings [of "New 0" 7 0 0]
    snapshot_timings [of "New 0\<lparr>requestTimes := [3, 1, 2, - 9, 4, 7]\<rparr>" 7 0 0]
  by (simp add: New_def sort_durations_def go_div_def signed_divide_int_def)

subsection \<open>Open connections stay between zero and the total\<close>

text \<open>
  Claim C8. Start from \<open>New\<close> or \<open>NewWithOptions\<close> and run any history of increments,
  decrements, request records, latency updates, resets and snapshots with fewer than
  \<open>2 ^ 63\<close> calls, the range of the \<open>int64\<close> counters. No call panics; in the final state
  and in every snapshot taken on the way, open connections are at least zero and at most
  total connections. A decrement at zero open connections changes nothing.
\<close>

theorem open_connections_within_bounds:
  assumes "s0 = New t0 \<or> s0 = NewWithOptions m t0"
    and "length ops < 2 ^ 63"
  shows "\<exists>s snaps. run_stats s0 ops = Inr (s, snaps)
           \<and> 0 \<le> sint (openConns s) \<and> sint (openConns s) \<le> sint (totalConns s)
           \<and> (\<forall>sn \<in> set snaps. 0 \<le> sint (OpenConnections sn)
                 \<and> sint (OpenConnections sn) \<le> sint (TotalConnections sn))
           \<and> (\<forall>z. openConns z = 0 \<longrightarrow> DecrementOpenConnections z = z)"
proof -
  have init: "0 < maxSamples s0" "openConns s0 = 0" "totalConns s0 = 0"
    using assms(1) by (auto simp: New_def NewWithOptions_def Let_def)
  have "int (length ops) < 2 ^ 63" using assms(2) by (simp flip: of_nat_less_iff)
  then have "sint (totalConns s0) + int (length ops) < 2 ^ 63" using init by simp
  moreover have "0 \<le> sint (openConns s0)" "sint (openConns s0) \<le> sint (totalConns s0)"
    using init by simp_all
  ultimately obtain s snaps where "run_stats s0 ops = Inr (s, snaps)"
    "0 \<le> sint (openConns s)" "sint (openConns s) \<le> sint (totalConns s)"
    "\<forall>sn \<in> set snaps. 0 \<le> sint (OpenConnections sn)
        \<and> sint (OpenConnections sn) \<le> sint (TotalConnections sn)"
    using run_stats_conns [OF init(1), of ops] by blast
  moreover have "\<forall>z. openConns z = 0 \<longrightarrow> DecrementOpenConnections z = z"
    by (simp add: DecrementOpenConnections_def)
  ultimately show ?thesis by blast
qed

theorem open_connections_within_bounds_witness:
  "New 0 = New 0 \<and>
   length [OpIncrementConnections, OpIncrementConnections, OpDecrementOpenConnections,
           OpSnapshot 1, OpDecrementOpenConnections, OpDecrementOpenConnections,
           OpSnapshot 2, OpRecordRequest 5 7, OpReset 3, OpSnapshot 4] < 2 ^ 63 \<and>
   (\<exists>s a b c. run_stats (New 0)
       [OpIncrementConnections, OpIncrementConnections, OpDecrementOpenConnections,
        OpSnapshot 1, OpDecrementOpenConnections, OpDecrementOpenConnections,
        OpSnapshot 2, OpRecordRequest 5 7, OpReset 3, OpSnapshot 4] = Inr (s, [a, b, c])
      \<and> sint (OpenConnections a) = 1 \<and> sint (TotalConnections a) = 2
      \<and> sint (OpenConnections b) = 0 \<and> sint (TotalConnections b) = 2
      \<and> sint (OpenConnections c) = 0 \<and> sint (TotalConnections c) = 0
      \<and> 0 \<le> sint (openConns s) \<and> sint (openConns s) \<le> sint (totalConns s)) \<and>
   openConns (New 0) = 0 \<and> DecrementOpenConnections (New 0) = New 0"
  using open_connections_within_bounds [of "New 0" 0 0
      "[OpIncrementConnections, OpIncrementConnections, OpDecrementOpenConnections,
        OpSnapshot 1, OpDecrementOpenConnections, OpDecrementOpenConnections,
        OpSnapshot 2, OpRecordRequest 5 7, OpReset 3, OpSnapshot 4]"]
  by (simp add: New_def IncrementConnections_def DecrementOpenConnections_def
      RecordRequest_def Reset_def Snapshot_def Let_def word_sless_alt)

subsection \<open>Package inspector: the store\<close>

lemma go_copy_same_length: "length dst = length src \<Longrightarrow> go_copy dst src = src"
  by (simp add: go_copy_def)

lemma List_eq: "List s = exchanges s"
  by (simp add: List_def go_copy_same_length)

lemma Add_result:
  assumes "0 < maxSize s"
  shows "Add e s =
     Inr (s\<lparr>nextID := nextID s + 1,
            exchanges := (if maxSize s \<le> int (length (exchanges s))
                          then e\<lparr>ID := nextID s\<rparr> # butlast (exchanges s)
                          else e\<lparr>ID := nextID s\<rparr> # exchanges s)\<rparr>, nextID s)"
proof (cases "maxSize s \<le> int (length (exchanges s))")
  case True
  then have ne: "exchanges s \<noteq> []" using assms by auto
  have "go_copy (tl (exchanges s)) (butlast (exchanges s)) = butlast (exchanges s)"
    by (rule go_copy_same_length) simp
  then show ?thesis using True ne by (simp add: Add_def Let_def)
next
  case False
  have "go_copy (replicate (length (exchanges s)) zero_exchange) (exchanges s) = exchanges s"
    by (rule go_copy_same_length) simp
  then show ?thesis using False by (simp add: Add_def Let_def)
qed

lemma Add_take:
  assumes "0 < maxSize s" and "int (length (exchanges s)) \<le> maxSize s"
  shows "Add e s =
     Inr (s\<lparr>nextID := nextID s + 1,
            exchanges := take (nat (maxSize s)) (e\<lparr>ID := nextID s\<rparr> # exchanges s)\<rparr>, nextID s)"
proof (cases "maxSize s \<le> int (length (exchanges s))")
  case True
  then have len: "nat (maxSize s) = length (exchanges s)" using assms(2) by simp
  have ne: "exchanges s \<noteq> []" using True assms(1) by auto
  have "take (length (exchanges s)) (e\<lparr>ID := nextID s\<rparr> # exchanges s)
        = e\<lparr>ID := nextID s\<rparr> # butlast (exchanges s)"
    using ne by (cases "exchanges s" rule: rev_cases) simp_all
  then show ?thesis using True by (simp add: Add_result [OF assms(1)] len)
next
  case False
  then have "length (e\<lparr>ID := nextID s\<rparr> # exchanges s) \<le> nat (maxSize s)" by simp
  then have "take (nat (maxSize s)) (e\<lparr>ID := nextID s\<rparr> # exchanges s) = e\<lparr>ID := nextID s\<rparr> # exchanges s"
    by (rule take_all)
  then show ?thesis using False by (simp add: Add_result [OF assms(1)])
qed

lemma run_store_ids:
  assumes "0 < maxSize s"
  shows "\<exists>s' k. run_store s ops = Inr (s', map (\<lambda>i. nextID s + of_nat i) [0 ..< k])
           \<and> k \<le> length ops
           \<and> nextID s' = nextID s + of_nat k
           \<and> maxSize s' = maxSize s"
  using assms
proof (induction s ops rule: run_store.induct)
  case (1 s)
  then show ?case by simp
next
  case (2 s e ops)
  define s1 where "s1 = s\<lparr>nextID := nextID s + 1,
            exchanges := (if maxSize s \<le> int (length (exchanges s))
                          then e\<lparr>ID := nextID s\<rparr> # butlast (exchanges s)
                          else e\<lparr>ID := nextID s\<rparr> # exchanges s)\<rparr>"
  have add: "Add e s = Inr (s1, nextID s)" using Add_result [OF "2.prems"] by (simp add: s1_def)
  have m: "maxSize s1 = maxSize s" "nextID s1 = nextID s + 1" by (simp_all add: s1_def)
  then have "0 < maxSize s1" using "2.prems" by simp
  from "2.IH" [OF add refl this] obtain s' k where
    r: "run_store s1 ops = Inr (s', map (\<lambda>i. nextID s1 + of_nat i) [0 ..< k])"
    "k \<le> length ops" "nextID s' = nextID s1 + of_nat k" "maxSize s' = maxSize s1" by blast
  have "map (\<lambda>i. nextID s + of_nat i) [0 ..< Suc k]
        = nextID s # map (\<lambda>i. nextID s + of_nat (Suc i)) [0 ..< k]"
    by (simp add: upt_conv_Cons map_Suc_upt [symmetric] del: upt_Suc)
  also have "map (\<lambda>i. nextID s + of_nat (Suc i)) [0 ..< k]
        = map (\<lambda>i. nextID s1 + of_nat i) [0 ..< k]"
    by (simp add: m ac_simps)
  finally have ids: "map (\<lambda>i. nextID s + of_nat i) [0 ..< Suc k]
        = nextID s # map (\<lambda>i. nextID s1 + of_nat i) [0 ..< k]" .
  have "run_store s (OpAdd e # ops) = Inr (s', map (\<lambda>i. nextID s + of_nat i) [0 ..< Suc k])"
    using add r(1) by (simp only: ids run_store.simps sum.case prod.case)
  moreover have "Suc k \<le> length (OpAdd e # ops)" using r(2) by simp
  moreover have "nextID s' = nextID s + of_nat (Suc k)" using r(3) m by (simp add: ac_simps)
  moreover have "maxSize s' = maxSize s" using r(4) m by simp
  ultimately show ?case by blast
next
  case (3 s i ops)
  from "3.IH" [OF "3.prems"] obtain s' k where
    "run_store s ops = Inr (s', map (\<lambda>i. nextID s + of_nat i) [0 ..< k])"
    "k \<le> length ops" "nextID s' = nextID s + of_nat k" "maxSize s' = maxSize s" by blast
  then have "run_store s (OpGet i # ops) = Inr (s', map (\<lambda>i. nextID s + of_nat i) [0 ..< k])
      \<and> k \<le> length (OpGet i # ops) \<and> nextID s' = nextID s + of_nat k \<and> maxSize s' = maxSize s"
    by simp
  then show ?case by blast
next
  case (4 s ops)
  from "4.IH" [OF "4.prems"] obtain s' k where
    "run_store s ops = Inr (s', map (\<lambda>i. nextID s + of_nat i) [0 ..< k])"
    "k \<le> length ops" "nextID s' = nextID s + of_nat k" "maxSize s' = maxSize s" by blast
  then have "run_store s (OpList # ops) = Inr (s', map (\<lambda>i. nextID s + of_nat i) [0 ..< k])
      \<and> k \<le> length (OpList # ops) \<and> nextID s' = nextID s + of_nat k \<and> maxSize s' = maxSize s"
    by simp
  then show ?case by blast
next
  case (5 s ops)
  have c: "0 < maxSize (Clear s)" "nextID (Clear s) = nextID s" "maxSize (Clear s) = maxSize s"
    using "5.prems" by (simp_all add: Clear_def)
  from "5.IH" [OF c(1)] obtain s' k where
    "run_store (Clear s) ops = Inr (s', map (\<lambda>i. nextID (Clear s) + of_nat i) [0 ..< k])"
    "k \<le> length ops" "nextID s' = nextID (Clear s) + of_nat k" "maxSize s' = maxSize (Clear s)" by blast
  then have "run_store s (OpClear # ops) = Inr (s', map (\<lambda>i. nextID s + of_nat i) [0 ..< k])
      \<and> k \<le> length (OpClear # ops) \<and> nextID s' = nextID s + of_nat k \<and> maxSize s' = maxSize s"
    using c by simp
  then show ?case by blast
next
  case (6 s ops)
  from "6.IH" [OF "6.prems"] obtain s' k where
    "run_store s ops = Inr (s', map (\<lambda>i. nextID s + of_nat i) [0 ..< k])"
    "k \<le> length ops" "nextID s' = nextID s + of_nat k" "maxSize s' = maxSize s" by blast
  then have "run_store s (OpCount # ops) = Inr (s', map (\<lambda>i. nextID s + of_nat i) [0 ..< k])
      \<and> k \<le> length (OpCount # ops) \<and> nextID s' = nextID s + of_nat k \<and> maxSize s' = maxSize s"
    by simp
  then show ?case by blast
qed

lemma sint_of_nat_small: "n < 2 ^ 63 \<Longrightarrow> sint (of_nat n :: int64) = int n"
proof -
  assume "n < 2 ^ 63"
  then have "int n < 2 ^ 63" by (simp flip: of_nat_less_iff)
  then show ?thesis by (simp add: signed_of_nat signed_take_bit_int_eq_self)
qed

lemma ids_increasing:
  assumes "k < 2 ^ 63"
  shows "sorted_wrt (\<lambda>a b. a <s b) (map (of_nat :: nat \<Rightarrow> int64) [0 ..< k])"
proof -
  have "sint (of_nat i :: int64) < sint (of_nat j :: int64)" if "i < j" "j < k" for i j
    using that assms by (simp add: sint_of_nat_small)
  then show ?thesis
    by (simp add: sorted_wrt_map sorted_wrt_upt word_sless_alt sorted_wrt_iff_nth_less)
qed

lemma sorted_wrt_butlast: "sorted_wrt P xs \<Longrightarrow> sorted_wrt P (butlast xs)"
  by (induction xs) (auto dest: in_set_butlastD)

lemma newest_first_Add:
  assumes "newest_first s" and "sint (nextID s) < 2 ^ 63 - 1"
  shows "newest_first (s\<lparr>nextID := nextID s + 1,
            exchanges := (if b then e\<lparr>ID := nextID s\<rparr> # butlast (exchanges s)
                          else e\<lparr>ID := nextID s\<rparr> # exchanges s)\<rparr>)"
proof -
  have nx: "sint (nextID s + 1) = sint (nextID s) + 1" using assms(2) by (rule sint_succ)
  have a: "\<forall>x \<in> set (exchanges s). sint (ID x) < sint (nextID s)"
    using assms(1) by (simp add: newest_first_def list_all_iff)
  then have b: "\<forall>x \<in> set (butlast (exchanges s)). sint (ID x) < sint (nextID s)"
    by (auto dest: in_set_butlastD)
  have s1: "sorted_wrt (\<lambda>a b. sint (ID b) < sint (ID a)) (exchanges s)"
    using assms(1) by (simp add: newest_first_def)
  show ?thesis
  proof (cases b)
    case True
    then show ?thesis using a b s1 nx
      by (auto simp: newest_first_def list_all_iff sorted_wrt_butlast dest: in_set_butlastD) 
  next
    case False
    then show ?thesis using a s1 nx
      by (auto simp: newest_first_def list_all_iff)
  qed
qed

lemma run_store_inv:
  assumes "run_store s ops = Inr (s', ids)"
    and "0 < maxSize s" and "int (length (exchanges s)) \<le> maxSize s"
    and "newest_first s" and "0 \<le> sint (nextID s)"
    and "sint (nextID s) + int (length ops) < 2 ^ 63"
  shows "maxSize s' = maxSize s \<and> int (length (exchanges s')) \<le> maxSize s' \<and> newest_first s'"
  using assms
proof (induction s ops arbitrary: ids rule: run_store.induct)
  case (1 s)
  then show ?case by simp
next
  case (2 s e ops)
  define s1 where "s1 = s\<lparr>nextID := nextID s + 1,
            exchanges := (if maxSize s \<le> int (length (exchanges s))
                          then e\<lparr>ID := nextID s\<rparr> # butlast (exchanges s)
                          else e\<lparr>ID := nextID s\<rparr> # exchanges s)\<rparr>"
  have add: "Add e s = Inr (s1, nextID s)" using Add_result [OF "2.prems"(2)] by (simp add: s1_def)
  have lt: "sint (nextID s) < 2 ^ 63 - 1" using "2.prems"(6) by simp
  have nx: "sint (nextID s1) = sint (nextID s) + 1" using sint_succ [OF lt] by (simp add: s1_def)
  have m: "maxSize s1 = maxSize s" by (simp add: s1_def)
  have len: "int (length (exchanges s1)) \<le> maxSize s1"
    using "2.prems"(2,3) by (auto simp: s1_def)
  have nf: "newest_first s1" unfolding s1_def using "2.prems"(4) lt by (rule newest_first_Add)
  obtain ids' where run: "run_store s1 ops = Inr (s', ids')"
    using "2.prems"(1) add by (auto split: sum.splits)
  have "maxSize s' = maxSize s1 \<and> int (length (exchanges s')) \<le> maxSize s' \<and> newest_first s'"
    using "2.IH" [OF add refl run] m len nf nx "2.prems" by simp
  then show ?case using m by simp
next
  case (3 s i ops)
  then show ?case by simp
next
  case (4 s ops)
  then show ?case by simp
next
  case (5 s ops)
  have "maxSize (Clear s) = maxSize s" "exchanges (Clear s) = []" "nextID (Clear s) = nextID s"
    by (simp_all add: Clear_def)
  moreover from this have "newest_first (Clear s)" by (simp add: newest_first_def)
  ultimately show ?case using "5.IH" [of ids] "5.prems" by simp
next
  case (6 s ops)
  then show ?case by simp
qed

lemma New_store_ok:
  "0 < maxSize (NewInMemoryStore c)" "exchanges (NewInMemoryStore c) = []"
  "nextID (NewInMemoryStore c) = 0" "maxSize (NewInMemoryStore c) = (if c \<le> 0 then 100 else c)"
  by (simp_all add: NewInMemoryStore_def Let_def)

lemma clear_scenario:
  "\<exists>s5 s6. run_store (NewInMemoryStore 100) (replicate 5 (OpAdd zero_exchange)) = Inr (s5, [0, 1, 2, 3, 4])
      \<and> Count s5 = 5 \<and> Count (Clear s5) = 0 \<and> Add zero_exchange (Clear s5) = Inr (s6, 5)"
  by (simp add: NewInMemoryStore_def Add_def Clear_def Count_def Let_def go_copy_def
      numeral_eq_Suc zero_exchange_def)

subsection \<open>Identifiers of the store\<close>

text \<open>
  Claim C3. Run any history of fewer than \<open>2 ^ 63\<close> calls (\<open>Add\<close>, \<open>Get\<close>, \<open>List\<close>,
  \<open>Clear\<close>, \<open>Count\<close>) on a store made by \<open>NewInMemoryStore\<close>. No call panics; the
  identifiers the \<open>Add\<close> calls return, in call order, increase strictly as signed 64-bit
  values and are pairwise distinct, whether or not \<open>Clear\<close> calls lie between them;
  \<open>Clear\<close> leaves the identifier counter as it is. After five \<open>Add\<close> calls and a
  \<open>Clear\<close> the store is empty and the next \<open>Add\<close> returns 5.
\<close>

theorem store_ids_never_reused:
  assumes "length ops < 2 ^ 63"
  shows "\<exists>s ids. run_store (NewInMemoryStore c) ops = Inr (s, ids)
           \<and> sorted_wrt (\<lambda>a b. a <s b) ids \<and> distinct ids
           \<and> nextID s = of_nat (length ids)
           \<and> nextID (Clear s) = nextID s
           \<and> (\<exists>s5 s6. run_store (NewInMemoryStore 100) (replicate 5 (OpAdd zero_exchange))
                          = Inr (s5, [0, 1, 2, 3, 4])
                 \<and> Count s5 = 5 \<and> Count (Clear s5) = 0
                 \<and> Add zero_exchange (Clear s5) = Inr (s6, 5))"
proof -
  let ?s0 = "NewInMemoryStore c"
  from run_store_ids [OF New_store_ok(1), of c ops] obtain s k where
    r: "run_store ?s0 ops = Inr (s, map (\<lambda>i. nextID ?s0 + of_nat i) [0 ..< k])"
    "k \<le> length ops" "nextID s = nextID ?s0 + of_nat k" by blast
  define ids :: "int64 list" where "ids = map of_nat [0 ..< k]"
  have run: "run_store ?s0 ops = Inr (s, ids)" using r(1) by (simp add: New_store_ok ids_def)
  have k: "k < 2 ^ 63" using r(2) assms by simp
  have inc: "sorted_wrt (\<lambda>a b. a <s b) ids" unfolding ids_def using k by (rule ids_increasing)
  have "inj_on (of_nat :: nat \<Rightarrow> int64) (set [0 ..< k])"
  proof (rule inj_onI)
    fix i j assume "i \<in> set [0 ..< k]" "j \<in> set [0 ..< k]" "(of_nat i :: int64) = of_nat j"
    then have "i < 2 ^ 63" "j < 2 ^ 63" "sint (of_nat i :: int64) = sint (of_nat j :: int64)"
      using k by simp_all
    then show "i = j" by (simp add: sint_of_nat_small)
  qed
  then have dist: "distinct ids" by (simp add: ids_def distinct_map)
  have nx: "nextID s = of_nat (length ids)" using r(3) by (simp add: New_store_ok ids_def)
  have "nextID (Clear s) = nextID s" by (simp add: Clear_def)
  then show ?thesis using run inc dist nx clear_scenario by blast
qed

theorem store_ids_never_reused_witness:
  "length [OpAdd zero_exchange, OpAdd zero_exchange, OpClear, OpAdd zero_exchange,
           OpGet 0, OpList, OpCount, OpAdd zero_exchange] < 2 ^ 63
   \<and> (\<exists>s. run_store (NewInMemoryStore 2)
          [OpAdd zero_exchange, OpAdd zero_exchange, OpClear, OpAdd zero_exchange,
           OpGet 0, OpList, OpCount, OpAdd zero_exchange] = Inr (s, [0, 1, 2, 3])
        \<and> nextID s = 4 \<and> nextID (Clear s) = 4)
   \<and> sorted_wrt (\<lambda>a b. a <s b) [0, 1, 2, 3 :: int64] \<and> distinct [0, 1, 2, 3 :: int64]"
  using store_ids_never_reused [of
      "[OpAdd zero_exchange, OpAdd zero_exchange, OpClear, OpAdd zero_exchange,
           OpGet 0, OpList, OpCount, OpAdd zero_exchange]" 2]
  by (simp add: NewInMemoryStore_def Add_def Clear_def Let_def go_copy_def zero_exchange_def
      word_sless_alt)

lemma eviction_scenario:
  "\<exists>s. run_store (NewInMemoryStore 3)
           (map (\<lambda>i. OpAdd (zero_exchange\<lparr>Duration := of_nat i\<rparr>)) [0 ..< 5]) = Inr (s, [0, 1, 2, 3, 4])
       \<and> Count s = 3 \<and> ID (List s ! 0) = 4 \<and> ID (List s ! 2) = 2"
  by (simp add: NewInMemoryStore_def Add_def Count_def List_def Let_def go_copy_def
      upt_conv_Cons zero_exchange_def)

subsection \<open>Capacity and order of the store\<close>

text \<open>
  Claim C4. Any history of fewer than \<open>2 ^ 63\<close> calls on \<open>NewInMemoryStore c\<close> runs
  without panic; let \<open>s\<close> be the store after it. Its capacity is \<open>c\<close>, or 100 when \<open>c \<le> 0\<close>; its count never
  exceeds the capacity; \<open>List\<close> returns the exchanges with strictly falling identifiers,
  newest first; and \<open>Add\<close> returns the next identifier and leaves the stamped exchange in
  front of the former list cut to the capacity: in front of the whole list while there is
  room, in front of the list without its last, oldest entry at capacity. With capacity 3,
  five \<open>Add\<close> calls leave count 3, identifier 4 at index 0 and identifier 2 at index 2.
\<close>

theorem store_capacity_newest_first:
  assumes "length ops < 2 ^ 63"
  shows "\<exists>s ids. run_store (NewInMemoryStore c) ops = Inr (s, ids)
       \<and> maxSize s = (if c \<le> 0 then 100 else c)
       \<and> Count s \<le> maxSize s
       \<and> List s = exchanges s
       \<and> sorted_wrt (\<lambda>a b. ID b <s ID a) (List s)
       \<and> (\<forall>e. \<exists>s'. Add e s = Inr (s', nextID s)
              \<and> List s' = take (nat (maxSize s)) (e\<lparr>ID := nextID s\<rparr> # List s)
              \<and> Count s' \<le> maxSize s
              \<and> (Count s = maxSize s \<longrightarrow> List s' = e\<lparr>ID := nextID s\<rparr> # butlast (List s))
              \<and> (Count s < maxSize s \<longrightarrow> List s' = e\<lparr>ID := nextID s\<rparr> # List s))
       \<and> (\<exists>s3. run_store (NewInMemoryStore 3)
              (map (\<lambda>i. OpAdd (zero_exchange\<lparr>Duration := of_nat i\<rparr>)) [0 ..< 5]) = Inr (s3, [0, 1, 2, 3, 4])
            \<and> Count s3 = 3 \<and> ID (List s3 ! 0) = 4 \<and> ID (List s3 ! 2) = 2)"
proof -
  let ?s0 = "NewInMemoryStore c"
  obtain s ids where run: "run_store ?s0 ops = Inr (s, ids)"
    using run_store_ids [OF New_store_ok(1), of c ops] by blast
  have "int (length ops) < 2 ^ 63" using assms by (simp flip: of_nat_less_iff)
  then have "sint (nextID ?s0) + int (length ops) < 2 ^ 63" by (simp add: New_store_ok)
  moreover have "newest_first ?s0" by (simp add: newest_first_def New_store_ok)
  moreover have "int (length (exchanges ?s0)) \<le> maxSize ?s0" "0 \<le> sint (nextID ?s0)"
    using New_store_ok(1) [of c] by (simp_all add: New_store_ok(2,3))
  ultimately have inv: "maxSize s = maxSize ?s0" "int (length (exchanges s)) \<le> maxSize s"
    "newest_first s"
    using run_store_inv [OF run New_store_ok(1)] by simp_all
  have pos: "0 < maxSize s" using inv(1) New_store_ok(1) [of c] by simp
  have m: "maxSize s = (if c \<le> 0 then 100 else c)" using inv(1) by (simp only: New_store_ok(4))
  have cnt: "Count s \<le> maxSize s" using inv(2) by (simp add: Count_def)
  have srt: "sorted_wrt (\<lambda>a b. ID b <s ID a) (List s)"
    using inv(3) by (simp add: newest_first_def List_eq word_sless_alt)
  have step: "\<exists>s'. Add e s = Inr (s', nextID s)
              \<and> List s' = take (nat (maxSize s)) (e\<lparr>ID := nextID s\<rparr> # List s)
              \<and> Count s' \<le> maxSize s
              \<and> (Count s = maxSize s \<longrightarrow> List s' = e\<lparr>ID := nextID s\<rparr> # butlast (List s))
              \<and> (Count s < maxSize s \<longrightarrow> List s' = e\<lparr>ID := nextID s\<rparr> # List s)" for e
  proof -
    define s' where "s' = s\<lparr>nextID := nextID s + 1,
            exchanges := take (nat (maxSize s)) (e\<lparr>ID := nextID s\<rparr> # exchanges s)\<rparr>"
    have a: "Add e s = Inr (s', nextID s)" using Add_take [OF pos inv(2)] by (simp add: s'_def)
    have l: "List s' = take (nat (maxSize s)) (e\<lparr>ID := nextID s\<rparr> # List s)"
      by (simp add: List_eq s'_def)
    have c: "Count s' \<le> maxSize s" using pos by (simp add: Count_def s'_def)
    have full: "List s' = e\<lparr>ID := nextID s\<rparr> # butlast (List s)" if "Count s = maxSize s"
    proof -
      have n: "nat (maxSize s) = length (exchanges s)" using that by (simp add: Count_def)
      have ne: "exchanges s \<noteq> []" using that pos by (auto simp: Count_def)
      have "take (length (exchanges s)) (e\<lparr>ID := nextID s\<rparr> # exchanges s)
            = e\<lparr>ID := nextID s\<rparr> # butlast (exchanges s)"
        using ne by (cases "exchanges s" rule: rev_cases) simp_all
      then show ?thesis using l by (simp add: List_eq n)
    qed
    have room: "List s' = e\<lparr>ID := nextID s\<rparr> # List s" if "Count s < maxSize s"
    proof -
      have "length (e\<lparr>ID := nextID s\<rparr> # exchanges s) \<le> nat (maxSize s)"
        using that by (simp add: Count_def)
      then have "take (nat (maxSize s)) (e\<lparr>ID := nextID s\<rparr> # exchanges s) = e\<lparr>ID := nextID s\<rparr> # exchanges s"
        by (rule take_all)
      then show ?thesis using l by (simp add: List_eq)
    qed
    show ?thesis using a l c full room by blast
  qed
  show ?thesis using run m cnt List_eq [of s] srt step eviction_scenario by blast
qed

theorem store_capacity_newest_first_witness:
  "run_store (NewInMemoryStore 2) [OpAdd zero_exchange, OpAdd zero_exchange, OpAdd zero_exchange]
     = Inr (\<lparr>exchanges = [zero_exchange\<lparr>ID := 2\<rparr>, zero_exchange\<lparr>ID := 1\<rparr>], nextID = 3, maxSize = 2\<rparr>,
            [0, 1, 2])
   \<and> length [OpAdd zero_exchange, OpAdd zero_exchange, OpAdd zero_exchange] < 2 ^ 63
   \<and> Count \<lparr>exchanges = [zero_exchange\<lparr>ID := 2\<rparr>, zero_exchange\<lparr>ID := 1\<rparr>], nextID = 3, maxSize = 2\<rparr> = 2
   \<and> (\<exists>s'. Add zero_exchange
              \<lparr>exchanges = [zero_exchange\<lparr>ID := 2\<rparr>, zero_exchange\<lparr>ID := 1\<rparr>], nextID = 3, maxSize = 2\<rparr>
            = Inr (s', 3)
          \<and> List s' = [zero_exchange\<lparr>ID := 3\<rparr>, zero_exchange\<lparr>ID := 2\<rparr>])
   \<and> run_store (NewInMemoryStore 0) [OpAdd zero_exchange]
     = Inr (\<lparr>exchanges = [zero_exchange], nextID = 1, maxSize = 100\<rparr>, [0])
   \<and> Count \<lparr>exchanges = [zero_exchange], nextID = 1, maxSize = 100\<rparr> < 100
   \<and> (\<exists>s'. Add zero_exchange \<lparr>exchanges = [zero_exchange], nextID = 1, maxSize = 100\<rparr> = Inr (s', 1)
          \<and> List s' = [zero_exchange\<lparr>ID := 1\<rparr>, zero_exchange])"
  using store_capacity_newest_first [of "[OpAdd zero_exchange, OpAdd zero_exchange, OpAdd zero_exchange]" 2]
    store_capacity_newest_first [of "[OpAdd zero_exchange]" 0]
  by (simp add: NewInMemoryStore_def Add_def Count_def List_def Let_def go_copy_def zero_exchange_def)

lemma first_index:
  assumes "e \<in> set xs"
  shows "\<exists>i. find (\<lambda>i. ID (xs ! i) = ID e) [0 ..< length xs] = Some i
           \<and> i < length xs \<and> ID (xs ! i) = ID e
           \<and> (distinct (map ID xs) \<longrightarrow> xs ! i = e)"
proof -
  from assms obtain j where j: "j < length xs" "xs ! j = e" by (auto simp: in_set_conv_nth)
  then have "find (\<lambda>i. ID (xs ! i) = ID e) [0 ..< length xs] \<noteq> None"
    by (auto simp: find_None_iff)
  then obtain i where f: "find (\<lambda>i. ID (xs ! i) = ID e) [0 ..< length xs] = Some i" by blast
  then have i: "i < length xs" "ID (xs ! i) = ID e"
    by (auto simp: find_Some_iff)
  have "xs ! i = e" if d: "distinct (map ID xs)"
  proof -
    have "map ID xs ! i = map ID xs ! j" using i j by simp
    then have "i = j" using d i(1) j(1) nth_eq_iff_index_eq [of "map ID xs" i j] by simp
    then show ?thesis using j by simp
  qed
  then show ?thesis using f i by blast
qed

lemma Get_copy:
  assumes "e \<in> set (exchanges (store m))"
  shows "\<exists>e0. Get (ID e) m = (Some (Variable (next_variable m)),
                  m\<lparr>variables := (variables m)(next_variable m \<mapsto> e0),
                    next_variable := Suc (next_variable m)\<rparr>)
           \<and> e0 \<in> set (exchanges (store m)) \<and> ID e0 = ID e
           \<and> (distinct (map ID (exchanges (store m))) \<longrightarrow> e0 = e)
           \<and> (\<forall>m'. store m' = store m \<longrightarrow>
                 Get (ID e) m' = (Some (Variable (next_variable m')),
                    m'\<lparr>variables := (variables m')(next_variable m' \<mapsto> e0),
                       next_variable := Suc (next_variable m')\<rparr>))"
proof -
  from first_index [OF assms] obtain i where
    i: "find (\<lambda>i. ID (exchanges (store m) ! i) = ID e) [0 ..< length (exchanges (store m))] = Some i"
    "i < length (exchanges (store m))" "ID (exchanges (store m) ! i) = ID e"
    "distinct (map ID (exchanges (store m))) \<longrightarrow> exchanges (store m) ! i = e" by blast
  let ?e0 = "exchanges (store m) ! i"
  have "Get (ID e) m' = (Some (Variable (next_variable m')),
                    m'\<lparr>variables := (variables m')(next_variable m' \<mapsto> ?e0),
                       next_variable := Suc (next_variable m')\<rparr>)" if "store m' = store m" for m'
    using i(1) that by (simp add: Get_def Let_def)
  moreover have "?e0 \<in> set (exchanges (store m))" using i(2) by simp
  ultimately show ?thesis using i(3,4) by blast
qed

lemma mutate_own_field:
  assumes "own_field mu" and "variables m a = Some ex"
  shows "\<exists>ex'. mutate mu (Variable a) m = Inr (m\<lparr>variables := (variables m)(a \<mapsto> ex')\<rparr>)"
  using assms by (cases mu; simp add: update_exchange_def load_def assign_def; blast)

lemma mutate_all_own_fields:
  assumes "list_all own_field mus" and "variables m a = Some ex"
  shows "\<exists>m2. mutate_all mus (Variable a) m = Inr m2
           \<and> store m2 = store m \<and> objects m2 = objects m
           \<and> next_variable m2 = next_variable m"
  using assms
proof (induction mus arbitrary: m ex)
  case Nil
  then show ?case by simp
next
  case (Cons mu mus)
  then obtain ex' where
    s: "mutate mu (Variable a) m = Inr (m\<lparr>variables := (variables m)(a \<mapsto> ex')\<rparr>)"
    using mutate_own_field [of mu m a ex] by auto
  let ?m = "m\<lparr>variables := (variables m)(a \<mapsto> ex')\<rparr>"
  have "variables ?m a = Some ex'" by simp
  with Cons obtain m2 where "mutate_all mus (Variable a) ?m = Inr m2"
    "store m2 = store ?m" "objects m2 = objects ?m" "next_variable m2 = next_variable ?m"
    by fastforce
  then show ?case using s by simp
qed

lemma full_exchange_heap_eval:
  "full_exchange_heap =
     \<lparr>requests = [1 \<mapsto> \<lparr>Method = ''POST'', URL = ''/api/test'', Proto = ''HTTP/1.1'',
                           Headers = Some 0, Body = ''ping'', Size = 4\<rparr>],
      responses = [3 \<mapsto> \<lparr>Status = 200, Proto_r = ''HTTP/1.1'', Headers_r = Some 2,
                            Body_r = ''pong'', Size_r = 4\<rparr>],
      header_maps = [0 \<mapsto> [(''Host'', [''a.example''])], 2 \<mapsto> [(''Content-Type'', [''text/plain''])]],
      next_addr = 4\<rparr>"
  by (simp add: full_exchange_heap_def new_header_map_def new_request_def new_response_def
      empty_heap_def numeral_2_eq_2 numeral_3_eq_3)

lemma update_request_variable:
  assumes "variables m a = Some ex" and "Request ex = Some q" and "requests (objects m) q = Some r"
  shows "\<exists>m'. update_request (Variable a) f m = Inr m' \<and> store m' = store m
           \<and> requests (objects m') q = Some (f r)"
  using assms by (simp add: update_request_def load_def)

lemma update_response_variable:
  assumes "variables m a = Some ex" and "Response ex = Some q" and "responses (objects m) q = Some r"
  shows "\<exists>m'. update_response (Variable a) f m = Inr m' \<and> store m' = store m
           \<and> responses (objects m') q = Some (f r)"
  using assms by (simp add: update_response_def load_def)

lemma shared_request_heap_eval:
  "shared_request_heap =
     \<lparr>requests = [1 \<mapsto> \<lparr>Method = ''GET'', URL = ''/'', Proto = ''HTTP/1.1'',
                           Headers = Some 0, Body = [], Size = 0\<rparr>],
      responses = Map.empty, header_maps = [0 \<mapsto> [(''Host'', [''a.example''])]], next_addr = 2\<rparr>"
  by (simp add: shared_request_heap_def new_header_map_def new_request_def empty_heap_def)

lemma shared_request_store_built:
  "Add (zero_exchange\<lparr>Request := Some 1\<rparr>) (NewInMemoryStore 100) = Inr (shared_request_store, 0)"
  by (simp add: shared_request_store_def NewInMemoryStore_def Add_def Let_def go_copy_def zero_exchange_def)

text \<open>
  An assignment through a pointer at the slice element, \<open>&s.exchanges[0]\<close>, changes the
  store; the pointer \<open>Get\<close> returns is at a variable, not at the element.
\<close>

lemma element_pointer_reaches_store:
  "mutate (SetDuration 999) (Element 0) full_exchange_memory
     = Inr (full_exchange_memory\<lparr>store :=
              \<lparr>exchanges = [full_exchange\<lparr>Duration := 999\<rparr>], nextID = 1, maxSize = 100\<rparr>\<rparr>)"
  by (simp add: update_exchange_def load_def assign_def full_exchange_memory_def)

subsection \<open>What \<open>Get\<close> copies\<close>

text \<open>
  Claim C5, amended. For every exchange \<open>e\<close> in the store, \<open>Get\<close> of its identifier
  returns a pointer \<open>p\<close> at a new variable that holds a copy of the stored exchange with
  that identifier, which is \<open>e\<close> itself when the identifiers in the store are distinct;
  the store and the nested records are as before. Any sequence of assignments through \<open>p\<close>
  to the record's own fields (\<open>ID\<close>, \<open>Request\<close>, \<open>Response\<close>, \<open>Duration\<close>, \<open>Timestamp\<close>)
  runs without panic and leaves the store, with the stored exchange, and the nested
  records unchanged; a later \<open>Get\<close> of the identifier returns another pointer, at a copy
  of the original exchange, with the original data behind it. The copy holds the stored
  exchange's \<open>Request\<close> and \<open>Response\<close> pointers: a write through either of them from \<open>p\<close>
  changes the record the stored exchange points at, the store's slice staying as it was.
\<close>

theorem get_copies_own_fields:
  assumes "e \<in> set (exchanges (store m))" and "list_all own_field mus"
  shows "\<exists>p m1 e0 m2 p' m3.
           Get (ID e) m = (Some p, m1)
         \<and> load p m1 = Some e0 \<and> e0 \<in> set (exchanges (store m)) \<and> ID e0 = ID e
         \<and> (distinct (map ID (exchanges (store m))) \<longrightarrow> e0 = e)
         \<and> store m1 = store m \<and> objects m1 = objects m
         \<and> mutate_all mus p m1 = Inr m2
         \<and> store m2 = store m \<and> objects m2 = objects m
         \<and> Get (ID e) m2 = (Some p', m3)
         \<and> p' \<noteq> p
         \<and> load p' m3 = Some e0
         \<and> store m3 = store m \<and> objects m3 = objects m
         \<and> exchange_data (objects m3) e0 = exchange_data (objects m) e0
         \<and> (\<forall>q r f. Request e0 = Some q \<and> requests (objects m) q = Some r \<longrightarrow>
               (\<exists>m'. update_request p f m1 = Inr m' \<and> store m' = store m
                   \<and> requests (objects m') q = Some (f r)))
         \<and> (\<forall>q r f. Response e0 = Some q \<and> responses (objects m) q = Some r \<longrightarrow>
               (\<exists>m'. update_response p f m1 = Inr m' \<and> store m' = store m
                   \<and> responses (objects m') q = Some (f r)))"
proof -
  let ?a = "next_variable m"
  from Get_copy [OF assms(1)] obtain e0 where
    g: "Get (ID e) m = (Some (Variable ?a), m\<lparr>variables := (variables m)(?a \<mapsto> e0), next_variable := Suc ?a\<rparr>)"
    and e0: "e0 \<in> set (exchanges (store m))" "ID e0 = ID e"
      "distinct (map ID (exchanges (store m))) \<longrightarrow> e0 = e"
    and again: "\<And>m'. store m' = store m \<Longrightarrow>
        Get (ID e) m' = (Some (Variable (next_variable m')),
           m'\<lparr>variables := (variables m')(next_variable m' \<mapsto> e0),
              next_variable := Suc (next_variable m')\<rparr>)" by blast
  define m1 where "m1 = m\<lparr>variables := (variables m)(?a \<mapsto> e0), next_variable := Suc ?a\<rparr>"
  have m1: "store m1 = store m" "objects m1 = objects m" "next_variable m1 = Suc ?a"
    "variables m1 ?a = Some e0" by (simp_all add: m1_def)
  have l1: "load (Variable ?a) m1 = Some e0" by (simp add: load_def m1)
  from mutate_all_own_fields [OF assms(2) m1(4)] obtain m2 where
    m2: "mutate_all mus (Variable ?a) m1 = Inr m2" "store m2 = store m1" "objects m2 = objects m1"
    "next_variable m2 = next_variable m1" by blast
  define m3 where "m3 = m2\<lparr>variables := (variables m2)(next_variable m2 \<mapsto> e0),
              next_variable := Suc (next_variable m2)\<rparr>"
  have g2: "Get (ID e) m2 = (Some (Variable (Suc ?a)), m3)"
    using again [of m2] m2 m1 by (simp add: m3_def)
  have m3: "store m3 = store m" "objects m3 = objects m" "load (Variable (Suc ?a)) m3 = Some e0"
    using m2 m1 by (simp_all add: m3_def load_def)
  have ne: "Variable (Suc ?a) \<noteq> Variable ?a" by simp
  have d: "exchange_data (objects m3) e0 = exchange_data (objects m) e0" using m3 by simp
  have rq: "\<forall>q r f. Request e0 = Some q \<and> requests (objects m) q = Some r \<longrightarrow>
               (\<exists>m'. update_request (Variable ?a) f m1 = Inr m' \<and> store m' = store m
                   \<and> requests (objects m') q = Some (f r))"
    using update_request_variable [OF m1(4)] m1(1,2) by simp
  have rs: "\<forall>q r f. Response e0 = Some q \<and> responses (objects m) q = Some r \<longrightarrow>
               (\<exists>m'. update_response (Variable ?a) f m1 = Inr m' \<and> store m' = store m
                   \<and> responses (objects m') q = Some (f r))"
    using update_response_variable [OF m1(4)] m1(1,2) by simp
  have "Get (ID e) m = (Some (Variable ?a), m1)" using g by (simp add: m1_def)
  moreover have "store m2 = store m" "objects m2 = objects m" using m2 m1 by simp_all
  ultimately show ?thesis
    using l1 e0 m1(1,2) m2(1) g2 ne m3 d rq rs by blast
qed

text \<open>
  Claim C5 as stated fails. \<open>Get\<close> copies the exchange record, and with it the addresses
  of the request and response records. After \<open>p.Request.Method = "MODIFIED"\<close> and
  \<open>p.Request.Headers["Host"] = ...\<close> through the pointer \<open>p\<close> that \<open>Get\<close> returned, the
  exchange a later \<open>Get\<close> of the same identifier returns has the new method and the new
  header behind it.
\<close>

theorem get_shares_nested_records:
  "Add (zero_exchange\<lparr>Request := Some 1\<rparr>) (NewInMemoryStore 100) = Inr (shared_request_store, 0)
   \<and> (\<exists>m1 m2 m3.
         Get 0 shared_request_memory = (Some (Variable 0), m1)
       \<and> load (Variable 0) m1 = Some (zero_exchange\<lparr>Request := Some 1\<rparr>)
       \<and> exchange_data (objects m1) (zero_exchange\<lparr>Request := Some 1\<rparr>)
           = (zero_exchange\<lparr>Request := Some 1\<rparr>,
              Some (\<lparr>Method = ''GET'', URL = ''/'', Proto = ''HTTP/1.1'', Headers = Some 0,
                     Body = [], Size = 0\<rparr>, Some [(''Host'', [''a.example''])]),
              None)
       \<and> mutate_all [SetRequestMethod ''MODIFIED'', SetRequestHeader ''Host'' [''b.example'']]
             (Variable 0) m1 = Inr m2
       \<and> store m2 = shared_request_store
       \<and> Get 0 m2 = (Some (Variable 1), m3)
       \<and> load (Variable 1) m3 = Some (zero_exchange\<lparr>Request := Some 1\<rparr>)
       \<and> exchange_data (objects m3) (zero_exchange\<lparr>Request := Some 1\<rparr>)
           = (zero_exchange\<lparr>Request := Some 1\<rparr>,
              Some (\<lparr>Method = ''MODIFIED'', URL = ''/'', Proto = ''HTTP/1.1'', Headers = Some 0,
                     Body = [], Size = 0\<rparr>, Some [(''Host'', [''b.example''])]),
              None))"
  using shared_request_store_built
  by (simp add: Get_def Let_def load_def shared_request_memory_def shared_request_store_def
      shared_request_heap_eval update_request_def set_header_def exchange_data_def
      request_data_def zero_exchange_def)

theorem get_copies_own_fields_witness:
  "Add (full_exchange\<lparr>ID := 42\<rparr>) (NewInMemoryStore 100) = Inr (store full_exchange_memory, 0)
   \<and> full_exchange \<in> set (exchanges (store full_exchange_memory))
   \<and> distinct (map ID (exchanges (store full_exchange_memory)))
   \<and> list_all own_field [SetDuration 999, SetID 7, SetRequest None]
   \<and> Request full_exchange = Some 1
   \<and> requests (objects full_exchange_memory) 1
       = Some \<lparr>Method = ''POST'', URL = ''/api/test'', Proto = ''HTTP/1.1'', Headers = Some 0,
                Body = ''ping'', Size = 4\<rparr>
   \<and> Response full_exchange = Some 3
   \<and> responses (objects full_exchange_memory) 3
       = Some \<lparr>Status = 200, Proto_r = ''HTTP/1.1'', Headers_r = Some 2, Body_r = ''pong'',
                Size_r = 4\<rparr>
   \<and> (\<exists>m1 m2 m3 m4 m5.
         Get 0 full_exchange_memory = (Some (Variable 0), m1)
       \<and> load (Variable 0) m1 = Some full_exchange
       \<and> mutate_all [SetDuration 999, SetID 7, SetRequest None] (Variable 0) m1 = Inr m2
       \<and> load (Variable 0) m2
           = Some \<lparr>ID = 7, Request = None, Response = Some 3, Duration = 999, Timestamp = 5\<rparr>
       \<and> store m2 = store full_exchange_memory
       \<and> objects m2 = objects full_exchange_memory
       \<and> Get 0 m2 = (Some (Variable 1), m3)
       \<and> load (Variable 1) m3 = Some full_exchange
       \<and> update_request (Variable 0) (\<lambda>r. r\<lparr>Method := ''MODIFIED''\<rparr>) m1 = Inr m4
       \<and> store m4 = store full_exchange_memory
       \<and> requests (objects m4) 1
           = Some \<lparr>Method = ''MODIFIED'', URL = ''/api/test'', Proto = ''HTTP/1.1'',
                    Headers = Some 0, Body = ''ping'', Size = 4\<rparr>
       \<and> update_response (Variable 0) (\<lambda>r. r\<lparr>Status := 500\<rparr>) m1 = Inr m5
       \<and> store m5 = store full_exchange_memory
       \<and> responses (objects m5) 3
           = Some \<lparr>Status = 500, Proto_r = ''HTTP/1.1'', Headers_r = Some 2, Body_r = ''pong'',
                    Size_r = 4\<rparr>)"
  using get_copies_own_fields [of full_exchange full_exchange_memory
      "[SetDuration 999, SetID 7, SetRequest None]"]
  by (simp add: Get_def Let_def load_def assign_def update_exchange_def update_request_def
      update_response_def full_exchange_memory_def full_exchange_def full_exchange_heap_eval
      NewInMemoryStore_def Add_def go_copy_def zero_exchange_def)

subsection \<open>Package inspector: the HTTP surface\<close>

lemma stored_request_alloc:
  assumes "stored_request h ex \<noteq> None" and "\<forall>a. requests h a \<noteq> None \<longrightarrow> requests h' a \<noteq> None"
  shows "stored_request h' ex \<noteq> None"
  using assms by (auto simp: stored_request_def split: option.splits)

lemma AddExchange_shape:
  obtains g' h' ex i where "AddExchange req reqBody resp respBody d now (g, h) = ((g', h'), i)"
    and "set (pkg_exchanges g') \<subseteq> insert ex (set (pkg_exchanges g))"
    and "stored_request h' ex \<noteq> None"
    and "\<forall>a. requests h a \<noteq> None \<longrightarrow> requests h' a \<noteq> None"
proof (cases resp)
  case None
  show ?thesis
    by (rule that [of _ _ _ "\<lparr>ID = pkg_nextID g, Request = Some (next_addr h), Response = None,
            Duration = Milliseconds d, Timestamp = now\<rparr>"])
      (auto simp: None AddExchange_def Let_def new_request_def stored_request_def dest: in_set_takeD split: if_splits)
next
  case (Some r)
  show ?thesis
    by (rule that [of _ _ _ "\<lparr>ID = pkg_nextID g, Request = Some (next_addr h),
            Response = Some (Suc (next_addr h)), Duration = Milliseconds d, Timestamp = now\<rparr>"])
      (auto simp: Some AddExchange_def Let_def new_request_def new_response_def stored_request_def
        dest: in_set_takeD split: if_splits)
qed

lemma AddRequest_shape:
  obtains g' h' ex where "AddRequest m host path status now (g, h) = (g', h')"
    and "set (pkg_exchanges g') \<subseteq> insert ex (set (pkg_exchanges g))"
    and "stored_request h' ex \<noteq> None"
    and "\<forall>a. requests h a \<noteq> None \<longrightarrow> requests h' a \<noteq> None"
proof (cases "0 < status")
  case True
  show ?thesis
    by (rule that [of _ _ "\<lparr>ID = pkg_nextID g, Request = Some (Suc (next_addr h)),
            Response = Some (Suc (Suc (next_addr h))), Duration = 0, Timestamp = now\<rparr>"])
      (auto simp: True AddRequest_def Let_def new_request_def new_response_def new_header_map_def
        stored_request_def dest: in_set_takeD split: if_splits)
next
  case False
  show ?thesis
    by (rule that [of _ _ "\<lparr>ID = pkg_nextID g, Request = Some (Suc (next_addr h)), Response = None,
            Duration = 0, Timestamp = now\<rparr>"])
      (auto simp: False AddRequest_def Let_def new_request_def new_header_map_def
        stored_request_def dest: in_set_takeD split: if_splits)
qed

lemma captured_step:
  assumes "captured st"
  shows "captured (inspector_step op st)"
proof (cases st)
  case (Pair g h)
  have keep: "\<forall>ex \<in> set (pkg_exchanges g). stored_request h ex \<noteq> None"
    using assms Pair by (simp add: captured_def list_all_iff)
  show ?thesis
  proof (cases op)
    case (DoSetLocalPort p)
    then show ?thesis using keep Pair by (simp add: captured_def SetLocalPort_def list_all_iff)
  next
    case (DoAddExchange req reqBody resp respBody d now)
    obtain g' h' ex i where r: "AddExchange req reqBody resp respBody d now (g, h) = ((g', h'), i)"
      "set (pkg_exchanges g') \<subseteq> insert ex (set (pkg_exchanges g))"
      "stored_request h' ex \<noteq> None"
      "\<forall>a. requests h a \<noteq> None \<longrightarrow> requests h' a \<noteq> None"
      by (rule AddExchange_shape)
    have "\<forall>e \<in> set (pkg_exchanges g'). stored_request h' e \<noteq> None"
      using r(2,3) keep stored_request_alloc [OF _ r(4)] by blast
    then show ?thesis using DoAddExchange Pair r(1) by (simp add: captured_def list_all_iff)
  next
    case (DoAddRequest m host path status now)
    obtain g' h' ex where r: "AddRequest m host path status now (g, h) = (g', h')"
      "set (pkg_exchanges g') \<subseteq> insert ex (set (pkg_exchanges g))"
      "stored_request h' ex \<noteq> None"
      "\<forall>a. requests h a \<noteq> None \<longrightarrow> requests h' a \<noteq> None"
      by (rule AddRequest_shape)
    have "\<forall>e \<in> set (pkg_exchanges g'). stored_request h' e \<noteq> None"
      using r(2,3) keep stored_request_alloc [OF _ r(4)] by blast
    then show ?thesis using DoAddRequest Pair r(1) by (simp add: captured_def list_all_iff)
  next
    case (DoParseHeader hd0)
    have "\<forall>a. requests h a \<noteq> None \<longrightarrow> requests (snd (new_header_map hd0 h)) a \<noteq> None"
      by (simp add: new_header_map_def)
    then have "\<forall>e \<in> set (pkg_exchanges g). stored_request (snd (new_header_map hd0 h)) e \<noteq> None"
      using keep stored_request_alloc by blast
    then show ?thesis using DoParseHeader Pair
      by (simp add: captured_def list_all_iff)
  qed
qed

lemma captured_fold: "captured st \<Longrightarrow> captured (fold inspector_step ops st)"
  by (induction ops arbitrary: st) (simp_all add: captured_step)

lemma captured_run: "captured (inspector_run ops)"
  unfolding inspector_run_def
  by (rule captured_fold) (simp add: captured_def inspector_init_def)

lemma TrimPrefix_append: "TrimPrefix (p @ s) p = s"
  by (simp add: TrimPrefix_def HasPrefix_def)

lemma replay_route_eq:
  "replay_route env st m (''/api/replay/'' @ idStr) = handleReplay env st m idStr"
proof -
  have "TrimPrefix (''/api/replay/'' @ idStr) ''/api/replay/'' = idStr" by (rule TrimPrefix_append)
  moreover have "m \<noteq> ''POST'' \<Longrightarrow> handleReplay env st m idStr = Inr (Error_reply ''Method not allowed'' 405, [])"
    by (cases st) (simp add: handleReplay_def)
  ultimately show ?thesis unfolding replay_route_def by (simp del: append.simps)
qed

lemma exchanges_route_eq:
  "exchanges_route env st m (''/api/exchanges/replay/'' @ idStr) = handleReplay env st m idStr"
proof -
  have "''/api/exchanges/replay/'' @ idStr = ''/api/exchanges/'' @ (''replay/'' @ idStr)" by simp
  then have "TrimPrefix (''/api/exchanges/replay/'' @ idStr) ''/api/exchanges/'' = ''replay/'' @ idStr"
    by (simp only: TrimPrefix_append)
  moreover have "HasPrefix (''replay/'' @ idStr) ''replay/''" by (simp add: HasPrefix_def)
  moreover have "TrimPrefix (''replay/'' @ idStr) ''replay/'' = idStr" by (rule TrimPrefix_append)
  ultimately show ?thesis unfolding exchanges_route_def by (simp add: Let_def del: append.simps)
qed

lemma GetExchange_captured:
  assumes "captured st" and "GetExchange i (fst st) = Some ex"
  shows "\<exists>rq. stored_request (snd st) ex = Some rq"
proof -
  have "ex \<in> set (pkg_exchanges (fst st))"
    using assms(2) unfolding GetExchange_def by (auto simp: find_Some_iff)
  then show ?thesis using assms(1) by (auto simp: captured_def list_all_iff)
qed

lemma reply_methods:
  "r_Method \<noteq> ''POST'' \<Longrightarrow> handleReplay env st r_Method idStr = Inr (Error_reply ''Method not allowed'' 405, [])"
  by (cases st) (simp add: handleReplay_def)

lemma reply_invalid_id:
  "ParseInt idStr = None \<Longrightarrow> handleReplay env st ''POST'' idStr = Inr (Error_reply ''Invalid ID'' 400, [])"
  by (cases st) (simp add: handleReplay_def)

lemma reply_unknown:
  "ParseInt idStr = Some i \<Longrightarrow> GetExchange i (fst st) = None \<Longrightarrow>
   handleReplay env st ''POST'' idStr = Inr (Error_reply ''Exchange not found'' 404, [])"
  by (cases st) (simp add: handleReplay_def)

lemma reply_no_port:
  "ParseInt idStr = Some i \<Longrightarrow> GetExchange i (fst st) = Some ex \<Longrightarrow> localPort (fst st) = [] \<Longrightarrow>
   handleReplay env st ''POST'' idStr = Inr (Error_reply ''Replay not configured (no local port)'' 500, [])"
  by (cases st) (simp add: handleReplay_def)

lemma reply_bad_request:
  "ParseInt idStr = Some i \<Longrightarrow> GetExchange i (fst st) = Some ex \<Longrightarrow> localPort (fst st) \<noteq> [] \<Longrightarrow>
   stored_request (snd st) ex = Some rq \<Longrightarrow>
   http_NewRequest env (Method rq) (replay_URL (fst st) rq) (Body rq) = Inl err \<Longrightarrow>
   handleReplay env st ''POST'' idStr = Inr (Error_reply (''Failed to create request: '' @ err) 500, [])"
  by (cases st) (simp add: handleReplay_def)

lemma reply_upstream_failed:
  "ParseInt idStr = Some i \<Longrightarrow> GetExchange i (fst st) = Some ex \<Longrightarrow> localPort (fst st) \<noteq> [] \<Longrightarrow>
   stored_request (snd st) ex = Some rq \<Longrightarrow>
   http_NewRequest env (Method rq) (replay_URL (fst st) rq) (Body rq) = Inr req0 \<Longrightarrow>
   client_Do env replay_client (copy_headers env (stored_headers (snd st) rq) req0) = Inl err \<Longrightarrow>
   handleReplay env st ''POST'' idStr
     = Inr (Error_reply (''Replay failed: '' @ err) 502,
            [(replay_client, copy_headers env (stored_headers (snd st) rq) req0)])"
  by (cases st) (simp add: handleReplay_def Let_def)

lemma reply_upstream_answered:
  "ParseInt idStr = Some i \<Longrightarrow> GetExchange i (fst st) = Some ex \<Longrightarrow> localPort (fst st) \<noteq> [] \<Longrightarrow>
   stored_request (snd st) ex = Some rq \<Longrightarrow>
   http_NewRequest env (Method rq) (replay_URL (fst st) rq) (Body rq) = Inr req0 \<Longrightarrow>
   client_Do env replay_client (copy_headers env (stored_headers (snd st) rq) req0) = Inr up \<Longrightarrow>
   handleReplay env st ''POST'' idStr
     = Inr (Replay_JSON (up_StatusCode up) (up_Header up) (up_Body up),
            [(replay_client, copy_headers env (stored_headers (snd st) rq) req0)])"
  by (cases st) (simp add: handleReplay_def Let_def)

subsection \<open>Replies of the replay endpoint\<close>

text \<open>
  Claim C6, amended. In every state of the package and for every method and id segment,
  \<open>handleReplay\<close> returns without panic, and both replay routes give its reply. The status
  is 405 exactly when the method is not \<open>POST\<close>; 400 exactly when, for a \<open>POST\<close>, the id segment
  does not parse as a decimal \<open>int64\<close>; 404 exactly when it parses and no captured exchange
  has that identifier; 500 exactly when the exchange is found and the local port is empty
  or \<open>http.NewRequest\<close> rejects the stored method or the URL built from port and stored
  URL; 502 exactly when the request was built and the upstream call failed; 200 exactly
  when the upstream call answered, the reply then being the JSON of the upstream status,
  headers and body. No other status occurs, an upstream call is made in the last two cases
  only, and it goes through a client whose timeout is 30 seconds.
\<close>

theorem replay_reply_by_case:
  fixes env :: net_env and ops :: "inspector_op list" and r_Method idStr :: string
  defines "g \<equiv> fst (inspector_run ops)" and "h \<equiv> snd (inspector_run ops)"
  shows "\<exists>rep calls.
       handleReplay env (inspector_run ops) r_Method idStr = Inr (rep, calls)
     \<and> replay_route env (inspector_run ops) r_Method (''/api/replay/'' @ idStr) = Inr (rep, calls)
     \<and> exchanges_route env (inspector_run ops) r_Method (''/api/exchanges/replay/'' @ idStr)
         = Inr (rep, calls)
     \<and> (reply_status rep = 405 \<longleftrightarrow> r_Method \<noteq> ''POST'')
     \<and> (reply_status rep = 400 \<longleftrightarrow> r_Method = ''POST'' \<and> ParseInt idStr = None)
     \<and> (reply_status rep = 404 \<longleftrightarrow>
           r_Method = ''POST'' \<and> (\<exists>i. ParseInt idStr = Some i \<and> GetExchange i g = None))
     \<and> (reply_status rep = 500 \<longleftrightarrow>
           r_Method = ''POST''
           \<and> (\<exists>i ex rq. ParseInt idStr = Some i \<and> GetExchange i g = Some ex
                 \<and> stored_request h ex = Some rq
                 \<and> (localPort g = []
                     \<or> (\<exists>err. http_NewRequest env (Method rq) (replay_URL g rq) (Body rq) = Inl err))))
     \<and> (reply_status rep = 502 \<longleftrightarrow>
           r_Method = ''POST''
           \<and> (\<exists>i ex rq req0 err. ParseInt idStr = Some i \<and> GetExchange i g = Some ex
                 \<and> stored_request h ex = Some rq \<and> localPort g \<noteq> []
                 \<and> http_NewRequest env (Method rq) (replay_URL g rq) (Body rq) = Inr req0
                 \<and> client_Do env replay_client (copy_headers env (stored_headers h rq) req0) = Inl err
                 \<and> calls = [(replay_client, copy_headers env (stored_headers h rq) req0)]))
     \<and> (reply_status rep = 200 \<longleftrightarrow>
           r_Method = ''POST''
           \<and> (\<exists>i ex rq req0 up. ParseInt idStr = Some i \<and> GetExchange i g = Some ex
                 \<and> stored_request h ex = Some rq \<and> localPort g \<noteq> []
                 \<and> http_NewRequest env (Method rq) (replay_URL g rq) (Body rq) = Inr req0
                 \<and> client_Do env replay_client (copy_headers env (stored_headers h rq) req0) = Inr up
                 \<and> rep = Replay_JSON (up_StatusCode up) (up_Header up) (up_Body up)
                 \<and> calls = [(replay_client, copy_headers env (stored_headers h rq) req0)]))
     \<and> reply_status rep \<in> {405, 400, 404, 500, 502, 200}
     \<and> (calls = [] \<or> reply_status rep \<in> {502, 200})
     \<and> Timeout replay_client = 30 * Second \<and> sint (30 * Second) = 30 * 10 ^ 9"
proof -
  let ?st = "inspector_run ops"
  have routes: "replay_route env ?st r_Method (''/api/replay/'' @ idStr) = handleReplay env ?st r_Method idStr"
    "exchanges_route env ?st r_Method (''/api/exchanges/replay/'' @ idStr) = handleReplay env ?st r_Method idStr"
    by (rule replay_route_eq, rule exchanges_route_eq)
  have tm: "Timeout replay_client = 30 * Second \<and> sint (30 * Second) = 30 * 10 ^ 9"
    by (simp add: replay_client_def Second_def)
  have cap: "captured ?st" by (rule captured_run)
  consider (method0) "r_Method \<noteq> ''POST''"
    | (invalid) "r_Method = ''POST''" "ParseInt idStr = None"
    | (unknown) i where "r_Method = ''POST''" "ParseInt idStr = Some i" "GetExchange i g = None"
    | (no_port) i ex rq where "r_Method = ''POST''" "ParseInt idStr = Some i"
        "GetExchange i g = Some ex" "stored_request h ex = Some rq" "localPort g = []"
    | (bad_request) i ex rq err where "r_Method = ''POST''" "ParseInt idStr = Some i"
        "GetExchange i g = Some ex" "stored_request h ex = Some rq" "localPort g \<noteq> []"
        "http_NewRequest env (Method rq) (replay_URL g rq) (Body rq) = Inl err"
    | (failed) i ex rq req0 err where "r_Method = ''POST''" "ParseInt idStr = Some i"
        "GetExchange i g = Some ex" "stored_request h ex = Some rq" "localPort g \<noteq> []"
        "http_NewRequest env (Method rq) (replay_URL g rq) (Body rq) = Inr req0"
        "client_Do env replay_client (copy_headers env (stored_headers h rq) req0) = Inl err"
    | (answered) i ex rq req0 up where "r_Method = ''POST''" "ParseInt idStr = Some i"
        "GetExchange i g = Some ex" "stored_request h ex = Some rq" "localPort g \<noteq> []"
        "http_NewRequest env (Method rq) (replay_URL g rq) (Body rq) = Inr req0"
        "client_Do env replay_client (copy_headers env (stored_headers h rq) req0) = Inr up"
  proof -
    show ?thesis
    proof (cases "r_Method = ''POST''")
      case False
      then show ?thesis using method0 by blast
    next
      case post: True
      show ?thesis
      proof (cases "ParseInt idStr")
        case None
        then show ?thesis using invalid post by blast
      next
        case (Some i)
        show ?thesis
        proof (cases "GetExchange i g")
          case None
          then show ?thesis using unknown post Some by blast
        next
          case found: (Some ex)
          then obtain rq where rq: "stored_request h ex = Some rq"
            using GetExchange_captured [OF cap, of i ex] by (auto simp: g_def h_def)
          show ?thesis
          proof (cases "localPort g = []")
            case True
            then show ?thesis using no_port post Some found rq by blast
          next
            case port: False
            show ?thesis
            proof (cases "http_NewRequest env (Method rq) (replay_URL g rq) (Body rq)")
              case (Inl err)
              then show ?thesis using bad_request post Some found rq port by blast
            next
              case (Inr req0)
              show ?thesis
              proof (cases "client_Do env replay_client (copy_headers env (stored_headers h rq) req0)")
                case (Inl err)
                then show ?thesis using failed post Some found rq port Inr by blast
              next
                case up: (Inr up)
                then show ?thesis using answered post Some found rq port Inr by blast
              qed
            qed
          qed
        qed
      qed
    qed
  qed
  then show ?thesis
  proof cases
    case method0
    then show ?thesis using reply_methods [OF method0, of env ?st idStr] routes tm by simp
  next
    case invalid
    then show ?thesis using reply_invalid_id [OF invalid(2), of env ?st] routes tm by simp
  next
    case unknown
    then show ?thesis using reply_unknown [OF unknown(2), of ?st env] routes tm
      by (simp add: g_def)
  next
    case no_port
    then show ?thesis using reply_no_port [OF no_port(2), of ?st ex env] routes tm
      by (auto simp: g_def h_def)
  next
    case bad_request
    then show ?thesis using reply_bad_request [OF bad_request(2), of ?st ex rq env err] routes tm
      by (auto simp: g_def h_def)
  next
    case failed
    then show ?thesis using reply_upstream_failed [OF failed(2), of ?st ex rq env req0 err] routes tm
      by (auto simp: g_def h_def)
  next
    case answered
    then show ?thesis using reply_upstream_answered [OF answered(2), of ?st ex rq env req0 up] routes tm
      by (auto simp: g_def h_def)
  qed
qed

lemma ParseInt_0: "ParseInt ''0'' = Some 0"
  by (simp add: ParseInt_def digit_of_def)

lemma ParseInt_big: "ParseInt ''9223372036854775808'' = None"
  by (simp add: ParseInt_def digit_of_def)

lemma options_star_eval:
  "options_star_state =
    (\<lparr>pkg_exchanges = [\<lparr>ID = 0, Request = Some 1, Response = None, Duration = 0, Timestamp = 0\<rparr>],
      pkg_nextID = 1, localPort = ''3000''\<rparr>,
     \<lparr>requests = [1 \<mapsto> \<lparr>Method = ''OPTIONS'', URL = ''*'', Proto = ''HTTP/1.1'', Headers = Some 0,
                           Body = [], Size = 0\<rparr>],
      responses = Map.empty, header_maps = [0 \<mapsto> []], next_addr = 2\<rparr>)"
  by (simp add: options_star_state_def inspector_run_def inspector_init_def empty_heap_def
      SetLocalPort_def new_header_map_def AddExchange_def new_request_def Let_def truncateBody_def
      Milliseconds_def go_div_def)

text \<open>
  Claim C6 as stated fails: with the port configured, a \<open>POST\<close> and a stored exchange the
  status is 500 when the replay request cannot be constructed, and no upstream call is
  made; and an id segment that is an integer outside \<open>int64\<close> is answered 400.
\<close>

theorem replay_request_construction_fails:
  "localPort (fst options_star_state) = ''3000''
   \<and> handleReplay example_env options_star_state ''POST'' ''0''
       = Inr (Error_reply ''Failed to create request: invalid port'' 500, [])
   \<and> localPort (fst legacy_state) = ''3000''
   \<and> handleReplay example_env legacy_state ''POST'' ''0''
       = Inr (Error_reply ''Failed to create request: net/http: invalid method BAD METHOD'' 500, [])
   \<and> handleReplay example_env options_star_state ''POST'' ''9223372036854775808''
       = Inr (Error_reply ''Invalid ID'' 400, [])"
  by (simp add: options_star_eval legacy_state_def inspector_run_def inspector_init_def empty_heap_def
      SetLocalPort_def new_header_map_def AddRequest_def new_request_def new_response_def Let_def
      handleReplay_def ParseInt_0 ParseInt_big GetExchange_def stored_request_def replay_URL_def
      http_NewRequest_def validMethod_def isTokenRune_def example_env_def)

theorem replay_reply_by_case_witness:
  "handleReplay example_env get_ok_state ''POST'' ''0''
     = Inr (Replay_JSON 201 [] ''ok'',
            [(replay_client, \<lparr>out_Method = ''GET'', out_URL = ''http://localhost:3000/ok'',
                               out_Header = [(''Accept'', [''text/html''])], out_Body = []\<rparr>)])
   \<and> exchanges_route example_env get_ok_state ''POST'' ''/api/exchanges/replay/0''
     = handleReplay example_env get_ok_state ''POST'' ''0''
   \<and> replay_route example_env get_ok_state ''GET'' ''/api/replay/0''
     = Inr (Error_reply ''Method not allowed'' 405, [])"
  using replay_reply_by_case [of example_env
      "[DoSetLocalPort ''3000'', DoParseHeader [(''Accept'', [''text/html''])],
       DoAddExchange \<lparr>req_Method = ''GET'', req_URL = ''/ok'', req_Proto = ''HTTP/1.1'',
                      req_Header = Some 0\<rparr> [] None [] 0 0]" "''POST''" "''0''"]
    replay_reply_by_case [of example_env
      "[DoSetLocalPort ''3000'', DoParseHeader [(''Accept'', [''text/html''])],
       DoAddExchange \<lparr>req_Method = ''GET'', req_URL = ''/ok'', req_Proto = ''HTTP/1.1'',
                      req_Header = Some 0\<rparr> [] None [] 0 0]" "''GET''" "''0''"]
  by (simp add: get_ok_state_def inspector_run_def inspector_init_def empty_heap_def
      SetLocalPort_def new_header_map_def AddExchange_def new_request_def Let_def truncateBody_def
      Milliseconds_def go_div_def
      handleReplay_def ParseInt_0 GetExchange_def stored_request_def replay_URL_def
      http_NewRequest_def validMethod_def isTokenRune_def example_env_def
      exchanges_route_def replay_route_def TrimPrefix_def HasPrefix_def
      copy_headers_def stored_headers_def Header_Add_def replay_client_def)

subsection \<open>Package tunnel: helper facts\<close>

lemma emit_fields:
  "effects (emit e w) = effects w @ [e]" "insp (emit e w) = insp w"
  "stats_w (emit e w) = stats_w w" "bus_w (emit e w) = bus_w w"
  by (simp_all add: emit_def)

lemma control_writes_append: "control_writes (xs @ ys) = control_writes xs @ control_writes ys"
  by (induction xs rule: control_writes.induct) simp_all


lemma proxyStream_effects:
  "\<exists>es. effects (proxyStream t se w) = effects w @ es \<and> control_writes es = []
        \<and> length (filter is_dial es) = 1"
  by (simp add: proxyStream_def Let_def emit_fields http_ReadRequest_def http_ReadResponse_def
      split: option.splits prod.splits)

lemma accept_loop_effects:
  "\<exists>es. effects (accept_loop t ses w) = effects w @ es \<and> control_writes es = []
        \<and> length (filter is_dial es) = length ses"
proof (induction ses arbitrary: w)
  case Nil
  then show ?case by simp
next
  case (Cons se ses)
  obtain es1 where 1: "effects (proxyStream t se w) = effects w @ es1" "control_writes es1 = []"
    "length (filter is_dial es1) = 1" using proxyStream_effects by blast
  obtain es2 where 2: "effects (accept_loop t ses (proxyStream t se w)) = effects (proxyStream t se w) @ es2"
    "control_writes es2 = []" "length (filter is_dial es2) = length ses" using Cons by blast
  have "effects (accept_loop t (se # ses) w) = effects w @ (es1 @ es2)" using 1 2 by simp
  moreover have "control_writes (es1 @ es2) = []" using 1 2 by (simp add: control_writes_append)
  moreover have "length (filter is_dial (es1 @ es2)) = length (se # ses)" using 1 2 by simp
  ultimately show ?case by blast
qed

lemma fold_announce_effects:
  "\<exists>es. effects (fold (\<lambda>d. emit (announce t d)) ds w) = effects w @ es \<and> control_writes es = []
     \<and> filter is_dial es = []"
proof (induction ds arbitrary: w)
  case Nil
  then show ?case by simp
next
  case (Cons d ds)
  obtain es where es: "effects (fold (\<lambda>d. emit (announce t d)) ds (emit (announce t d) w))
      = effects (emit (announce t d) w) @ es" "control_writes es = []" "filter is_dial es = []"
    using Cons by blast
  have "effects (fold (\<lambda>d. emit (announce t d)) (d # ds) w) = effects w @ (announce t d # es)"
    using es by (simp add: emit_fields)
  moreover have "control_writes (announce t d # es) = []" "filter is_dial (announce t d # es) = []"
    using es by (simp_all add: announce_def Let_def)
  ultimately show ?case by blast
qed

subsection \<open>The handshake never asks for a forced disconnect\<close>

text \<open>
  Claim C10. Whatever the tunnel's configuration, the network and the process state, the
  records a session writes to the control stream carry no force flag; when the
  multiplexer starts and the control stream opens, the first record written is the
  \<open>AuthRequest\<close> with the tunnel's token and \<open>Force = False\<close>, and when they do not nothing
  is written.
\<close>

theorem auth_request_never_forces:
  "\<exists>es. effects (fst (handleSession t env w)) = effects w @ es
     \<and> list_all carries_no_force (control_writes es)
     \<and> (yamux_err env = None \<and> open_err env = None \<longrightarrow>
          (\<exists>rest. control_writes es = Auth_msg \<lparr>Token = TunnelToken t, Force = False\<rparr> # rest))
     \<and> (yamux_err env \<noteq> None \<or> open_err env \<noteq> None \<longrightarrow> control_writes es = [])"
proof (cases "yamux_err env = None \<and> open_err env = None")
  case False
  then have "effects (fst (handleSession t env w)) = effects w @ [Closed_conn]"
    by (auto simp: handleSession_def emit_fields split: option.splits)
  then show ?thesis using False by auto
next
  case ok: True
  let ?a = "Auth_msg \<lparr>Token = TunnelToken t, Force = False\<rparr>"
  let ?r = "Tunnel_msg \<lparr>RequestedDomains = (if Subdomain t \<noteq> [] then Some [Subdomain t] else None)\<rparr>"
  have "\<exists>es. effects (fst (handleSession t env w)) = effects w @ es
       \<and> (control_writes es = [?a] \<or> control_writes es = [?a, ?r])"
  proof (cases "auth_encode_err env")
    case (Some err)
    then have "effects (fst (handleSession t env w)) = effects w @ [Control_write ?a, Closed_conn]"
      using ok by (simp add: handleSession_def emit_fields Let_def)
    then show ?thesis by force
  next
    case auth: None
    show ?thesis
    proof (cases "tunnel_encode_err env = None \<and> (\<exists>resp. init_response env = Some resp \<and> Success resp)")
      case False
      then have "effects (fst (handleSession t env w))
          = effects w @ [Control_write ?a, Control_write ?r, Closed_conn]"
        using ok auth by (auto simp: handleSession_def emit_fields Let_def split: option.splits)
      then show ?thesis by force
    next
      case True
      then obtain resp where resp: "tunnel_encode_err env = None" "init_response env = Some resp"
        "Success resp" by blast
      define w2 where "w2 = emit (Control_write ?r) (emit (Control_write ?a) w)"
      define w3 where "w3 = emit (Printed ''Tunnel Established! Incoming traffic on:'') w2"
      define w4 where "w4 = fold (\<lambda>d. emit (announce t d)) (BoundDomains resp) w3"
      define w5 where "w5 = emit Control_close w4"
      define w6 where "w6 = accept_loop t (accepted env) w5"
      have hs: "fst (handleSession t env w) = emit Closed_conn w6"
        using ok auth resp
        by (simp add: handleSession_def Let_def w2_def w3_def w4_def w5_def w6_def)
      obtain es4 where es4: "effects w4 = effects w3 @ es4" "control_writes es4 = []"
        unfolding w4_def using fold_announce_effects by blast
      obtain es6 where es6: "effects w6 = effects w5 @ es6" "control_writes es6 = []"
        unfolding w6_def using accept_loop_effects by blast
      have "effects (emit Closed_conn w6)
          = effects w @ ([Control_write ?a, Control_write ?r,
                Printed ''Tunnel Established! Incoming traffic on:''] @ es4 @ [Control_close] @ es6
                @ [Closed_conn])"
        using es4 es6 by (simp add: emit_fields w2_def w3_def w5_def)
      moreover have "control_writes ([Control_write ?a, Control_write ?r,
                Printed ''Tunnel Established! Incoming traffic on:''] @ es4 @ [Control_close] @ es6
                @ [Closed_conn]) = [?a, ?r]"
        using es4 es6 by (simp add: control_writes_append)
      ultimately show ?thesis using hs by metis
    qed
  qed
  then obtain es where es: "effects (fst (handleSession t env w)) = effects w @ es"
    "control_writes es = [?a] \<or> control_writes es = [?a, ?r]" by blast
  then have "list_all carries_no_force (control_writes es)" by auto
  moreover have "\<exists>rest. control_writes es = ?a # rest" using es(2) by auto
  ultimately show ?thesis using es(1) ok by blast
qed

lemma example_world_eval:
  "example_world =
     \<lparr>insp = (\<lparr>pkg_exchanges = [], pkg_nextID = 0, localPort = []\<rparr>,
              \<lparr>requests = Map.empty, responses = Map.empty, header_maps = Map.empty, next_addr = 0\<rparr>),
      stats_w = New 0,
      bus_w = \<lparr>subscribers = [\<lparr>ep_id = 0, queue = [], ep_closed = False\<rparr>], bufferSize = 16,
                next_ep = 1, closed = False\<rparr>,
      effects = []\<rparr>"
  by (simp add: example_world_def inspector_init_def empty_heap_def Subscribe_def NewBus_def
      NewBusWithBuffer_def Let_def)

theorem auth_request_never_forces_witness:
  "yamux_err ok_session = None \<and> open_err ok_session = None
   \<and> control_writes (effects (fst (handleSession example_tunnel ok_session example_world)))
       = [Auth_msg \<lparr>Token = ''secret'', Force = False\<rparr>, Tunnel_msg \<lparr>RequestedDomains = None\<rparr>]
   \<and> yamux_err (ok_session\<lparr>yamux_err := Some ''closed''\<rparr>) = Some ''closed''
   \<and> control_writes (effects (fst (handleSession example_tunnel
         (ok_session\<lparr>yamux_err := Some ''closed''\<rparr>) example_world))) = []"
  using auth_request_never_forces [of example_tunnel ok_session example_world]
    auth_request_never_forces [of example_tunnel "ok_session\<lparr>yamux_err := Some ''closed''\<rparr>" example_world]
  by (simp add: ok_session_def example_tunnel_def NewTunnel_def example_world_eval handleSession_def
      Let_def emit_def announce_def)

lemma proxy_dial_failed:
  assumes "dial_err se = Some err"
  shows "insp (proxyStream t se w) = insp w
       \<and> effects (proxyStream t se w) = effects w @
            [Dialed_local (''localhost:'' @ LocalPort t),
             Logged (''Failed to dial local port '' @ LocalPort t @ '': '' @ err), Closed_remote]"
  using assms by (simp add: proxyStream_def Let_def emit_fields)

lemma proxy_request_unparsed:
  assumes "dial_err se = None" and "read_request se = None"
  shows "insp (proxyStream t se w) = insp w
       \<and> effects (proxyStream t se w) = effects w @
            [Dialed_local (''localhost:'' @ LocalPort t), Raw_copy, Closed_local, Closed_remote]"
  using assms by (simp add: proxyStream_def Let_def emit_fields)

lemma proxy_response_unparsed:
  fixes w :: world and se :: stream_env
  assumes "dial_err se = None" and "read_request se = Some wr" and "write_local_err se = None"
    and "read_response se = None"
  defines "ex \<equiv> \<lparr>ID = pkg_nextID (fst (insp w)), Request = Some (Suc (next_addr (snd (insp w)))),
                   Response = None,
                   Duration = Milliseconds (time_Sub (t_since se) (t_start se)),
                   Timestamp = t_stamp se\<rparr>"
  shows "pkg_exchanges (fst (insp (proxyStream t se w))) = take 100 (ex # pkg_exchanges (fst (insp w)))"
    and "pkg_nextID (fst (insp (proxyStream t se w))) = pkg_nextID (fst (insp w)) + 1"
    and "exchange_data (snd (insp (proxyStream t se w))) ex =
           (ex, Some (\<lparr>Method = w_Method wr, URL = w_URL wr, Proto = w_Proto wr,
                        Headers = Some (next_addr (snd (insp w))),
                        Body = truncateBody (request_body se),
                        Size = of_nat (length (request_body se))\<rparr>, Some (w_Header wr)), None)"
    and "effects (proxyStream t se w) = effects w @
            [Dialed_local (''localhost:'' @ LocalPort t), Request_forwarded,
             Logged ''Failed to read response from local'', Closed_local, Closed_remote]"
  using assms(1-4)
  by (cases "insp w";
      simp add: ex_def proxyStream_def Let_def emit_fields http_ReadRequest_def new_header_map_def
        AddExchange_def new_request_def exchange_data_def request_data_def emit_def)+


lemma handleSession_serving:
  assumes "yamux_err env = None" and "open_err env = None" and "auth_encode_err env = None"
    and "tunnel_encode_err env = None" and "init_response env = Some resp" and "Success resp"
  shows "snd (handleSession t env w) = ''session ended: '' @ accept_err env
       \<and> (\<exists>es. effects (fst (handleSession t env w)) = effects w @ es
              \<and> length (filter is_dial es) = length (accepted env))"
proof -
  let ?a = "Auth_msg \<lparr>Token = TunnelToken t, Force = False\<rparr>"
  let ?r = "Tunnel_msg \<lparr>RequestedDomains = (if Subdomain t \<noteq> [] then Some [Subdomain t] else None)\<rparr>"
  define w2 where "w2 = emit (Control_write ?r) (emit (Control_write ?a) w)"
  define w3 where "w3 = emit (Printed ''Tunnel Established! Incoming traffic on:'') w2"
  define w4 where "w4 = fold (\<lambda>d. emit (announce t d)) (BoundDomains resp) w3"
  define w5 where "w5 = emit Control_close w4"
  define w6 where "w6 = accept_loop t (accepted env) w5"
  have hs: "handleSession t env w = (emit Closed_conn w6, ''session ended: '' @ accept_err env)"
    using assms by (simp add: handleSession_def Let_def w2_def w3_def w4_def w5_def w6_def)
  obtain es4 where es4: "effects w4 = effects w3 @ es4" "filter is_dial es4 = []"
    unfolding w4_def using fold_announce_effects by blast
  obtain es6 where es6: "effects w6 = effects w5 @ es6" "length (filter is_dial es6) = length (accepted env)"
    unfolding w6_def using accept_loop_effects by blast
  have "effects (emit Closed_conn w6)
      = effects w @ ([Control_write ?a, Control_write ?r,
            Printed ''Tunnel Established! Incoming traffic on:''] @ es4 @ [Control_close] @ es6
            @ [Closed_conn])"
    using es4 es6 by (simp add: emit_fields w2_def w3_def w5_def)
  moreover have "length (filter is_dial ([Control_write ?a, Control_write ?r,
            Printed ''Tunnel Established! Incoming traffic on:''] @ es4 @ [Control_close] @ es6
            @ [Closed_conn])) = length (accepted env)"
    using es4 es6 by simp
  ultimately show ?thesis using hs by (metis fst_conv snd_conv)
qed

subsection \<open>Failures of one worker stay in the worker\<close>

text \<open>
  Claim C7. A worker whose local dial fails logs, closes the stream and leaves the
  inspector as it was. A worker whose request does not parse copies bytes both ways,
  closes both connections and leaves the inspector as it was. A worker whose request was
  forwarded and whose response does not parse records one exchange, with the request, no
  response part and the duration elapsed since its start in milliseconds, then closes
  both connections. The accept loop starts one worker, hence one local dial, per accepted
  stream whatever became of the workers before; after a successful handshake the session
  ends only with the error of \<open>Accept\<close>.
\<close>

theorem worker_failures_contained:
  fixes t :: Tunnel and se :: stream_env and w :: world and env :: session_env
  defines "w' \<equiv> proxyStream t se w"
  defines "failed \<equiv> \<lparr>ID = pkg_nextID (fst (insp w)), Request = Some (Suc (next_addr (snd (insp w)))),
                       Response = None,
                       Duration = Milliseconds (time_Sub (t_since se) (t_start se)),
                       Timestamp = t_stamp se\<rparr>"
  shows "(\<forall>err. dial_err se = Some err \<longrightarrow>
            insp w' = insp w
          \<and> effects w' = effects w @
               [Dialed_local (''localhost:'' @ LocalPort t),
                Logged (''Failed to dial local port '' @ LocalPort t @ '': '' @ err), Closed_remote])
       \<and> (dial_err se = None \<and> read_request se = None \<longrightarrow>
            insp w' = insp w
          \<and> effects w' = effects w @
               [Dialed_local (''localhost:'' @ LocalPort t), Raw_copy, Closed_local, Closed_remote])
       \<and> (\<forall>wr. dial_err se = None \<and> read_request se = Some wr \<and> write_local_err se = None
                 \<and> read_response se = None \<longrightarrow>
            pkg_exchanges (fst (insp w')) = take 100 (failed # pkg_exchanges (fst (insp w)))
          \<and> pkg_nextID (fst (insp w')) = pkg_nextID (fst (insp w)) + 1
          \<and> exchange_data (snd (insp w')) failed =
               (failed, Some (\<lparr>Method = w_Method wr, URL = w_URL wr, Proto = w_Proto wr,
                        Headers = Some (next_addr (snd (insp w))),
                        Body = truncateBody (request_body se),
                        Size = of_nat (length (request_body se))\<rparr>, Some (w_Header wr)), None)
          \<and> effects w' = effects w @
               [Dialed_local (''localhost:'' @ LocalPort t), Request_forwarded,
                Logged ''Failed to read response from local'', Closed_local, Closed_remote])
       \<and> (\<exists>es. effects (accept_loop t ses w) = effects w @ es
               \<and> length (filter is_dial es) = length ses)
       \<and> (\<forall>resp. yamux_err env = None \<and> open_err env = None \<and> auth_encode_err env = None
                 \<and> tunnel_encode_err env = None \<and> init_response env = Some resp \<and> Success resp \<longrightarrow>
            snd (handleSession t env w) = ''session ended: '' @ accept_err env
          \<and> (\<exists>es. effects (fst (handleSession t env w)) = effects w @ es
                 \<and> length (filter is_dial es) = length (accepted env)))"
proof -
  have a: "\<forall>err. dial_err se = Some err \<longrightarrow>
            insp w' = insp w
          \<and> effects w' = effects w @
               [Dialed_local (''localhost:'' @ LocalPort t),
                Logged (''Failed to dial local port '' @ LocalPort t @ '': '' @ err), Closed_remote]"
    unfolding w'_def using proxy_dial_failed by blast
  have b: "dial_err se = None \<and> read_request se = None \<longrightarrow>
            insp w' = insp w
          \<and> effects w' = effects w @
               [Dialed_local (''localhost:'' @ LocalPort t), Raw_copy, Closed_local, Closed_remote]"
    unfolding w'_def using proxy_request_unparsed by blast
  have c: "\<forall>wr. dial_err se = None \<and> read_request se = Some wr \<and> write_local_err se = None
                 \<and> read_response se = None \<longrightarrow>
            pkg_exchanges (fst (insp w')) = take 100 (failed # pkg_exchanges (fst (insp w)))
          \<and> pkg_nextID (fst (insp w')) = pkg_nextID (fst (insp w)) + 1
          \<and> exchange_data (snd (insp w')) failed =
               (failed, Some (\<lparr>Method = w_Method wr, URL = w_URL wr, Proto = w_Proto wr,
                        Headers = Some (next_addr (snd (insp w))),
                        Body = truncateBody (request_body se),
                        Size = of_nat (length (request_body se))\<rparr>, Some (w_Header wr)), None)
          \<and> effects w' = effects w @
               [Dialed_local (''localhost:'' @ LocalPort t), Request_forwarded,
                Logged ''Failed to read response from local'', Closed_local, Closed_remote]"
    unfolding w'_def failed_def
    using proxy_response_unparsed [where se = se and w = w and t = t] by blast
  have d: "\<exists>es. effects (accept_loop t ses w) = effects w @ es
               \<and> length (filter is_dial es) = length ses"
    using accept_loop_effects [of t ses w] by blast
  have e: "\<forall>resp. yamux_err env = None \<and> open_err env = None \<and> auth_encode_err env = None
                 \<and> tunnel_encode_err env = None \<and> init_response env = Some resp \<and> Success resp \<longrightarrow>
            snd (handleSession t env w) = ''session ended: '' @ accept_err env
          \<and> (\<exists>es. effects (fst (handleSession t env w)) = effects w @ es
                 \<and> length (filter is_dial es) = length (accepted env))"
    using handleSession_serving by blast
  show ?thesis using a b c d e by blast
qed

lemma elapsed_example: "Milliseconds (time_Sub 1012345678 1000000000) = 12"
  by (simp add: Milliseconds_def time_Sub_def go_div_def signed_divide_int_def)

theorem worker_failures_contained_witness:
  "dial_err (ok_stream\<lparr>dial_err := Some ''refused''\<rparr>) = Some ''refused''
   \<and> insp (proxyStream example_tunnel (ok_stream\<lparr>dial_err := Some ''refused''\<rparr>) example_world)
       = insp example_world
   \<and> effects (proxyStream example_tunnel (ok_stream\<lparr>dial_err := Some ''refused''\<rparr>) example_world)
       = [Dialed_local ''localhost:3000'', Logged ''Failed to dial local port 3000: refused'',
          Closed_remote]
   \<and> dial_err (ok_stream\<lparr>read_request := None\<rparr>) = None
   \<and> read_request (ok_stream\<lparr>read_request := None\<rparr>) = None
   \<and> insp (proxyStream example_tunnel (ok_stream\<lparr>read_request := None\<rparr>) example_world)
       = insp example_world
   \<and> effects (proxyStream example_tunnel (ok_stream\<lparr>read_request := None\<rparr>) example_world)
       = [Dialed_local ''localhost:3000'', Raw_copy, Closed_local, Closed_remote]
   \<and> dial_err (ok_stream\<lparr>read_response := None\<rparr>) = None
   \<and> write_local_err (ok_stream\<lparr>read_response := None\<rparr>) = None
   \<and> read_response (ok_stream\<lparr>read_response := None\<rparr>) = None
   \<and> pkg_exchanges (fst (insp (proxyStream example_tunnel (ok_stream\<lparr>read_response := None\<rparr>)
         example_world)))
       = [\<lparr>ID = 0, Request = Some 1, Response = None, Duration = 12, Timestamp = 1012345999\<rparr>]
   \<and> yamux_err (ok_session\<lparr>accepted := [ok_stream\<lparr>dial_err := Some ''refused''\<rparr>,
         ok_stream\<lparr>read_request := None\<rparr>, ok_stream\<lparr>read_response := None\<rparr>, ok_stream]\<rparr>) = None
   \<and> snd (handleSession example_tunnel
         (ok_session\<lparr>accepted := [ok_stream\<lparr>dial_err := Some ''refused''\<rparr>,
            ok_stream\<lparr>read_request := None\<rparr>, ok_stream\<lparr>read_response := None\<rparr>, ok_stream]\<rparr>)
         example_world) = ''session ended: EOF''
   \<and> (\<exists>es. effects (fst (handleSession example_tunnel
         (ok_session\<lparr>accepted := [ok_stream\<lparr>dial_err := Some ''refused''\<rparr>,
            ok_stream\<lparr>read_request := None\<rparr>, ok_stream\<lparr>read_response := None\<rparr>, ok_stream]\<rparr>)
         example_world)) = es
        \<and> length (filter is_dial es) = 4)"
  using worker_failures_contained [of "ok_stream\<lparr>dial_err := Some ''refused''\<rparr>" example_tunnel
      example_world Nil ok_session]
    worker_failures_contained [of "ok_stream\<lparr>read_request := None\<rparr>" example_tunnel
      example_world Nil ok_session]
    worker_failures_contained [of "ok_stream\<lparr>read_response := None\<rparr>" example_tunnel
      example_world Nil
      "ok_session\<lparr>accepted := [ok_stream\<lparr>dial_err := Some ''refused''\<rparr>,
            ok_stream\<lparr>read_request := None\<rparr>, ok_stream\<lparr>read_response := None\<rparr>, ok_stream]\<rparr>"]
  by (simp add: ok_stream_def ok_session_def example_tunnel_def NewTunnel_def example_world_eval
      elapsed_example)

subsection \<open>What a worker records of a completed exchange\<close>




lemma Publish_open:
  "\<not> closed b \<Longrightarrow> Publish now e b = b\<lparr>subscribers := map (offer (bufferSize b) (stamped now e)) (subscribers b)\<rparr>"
  by (simp add: Publish_def stamped_def Let_def)

subsection \<open>Publishing on the event bus\<close>

text \<open>
  Claim C9. \<open>Publish\<close> returns a bus in every state. On a closed bus it changes nothing.
  On an open bus it keeps the subscribers, and for each of them: an open endpoint with
  room receives the event, stamped, at the end of its queue; a full or closed endpoint is
  left as it is, whatever the other endpoints are. After \<open>Close\<close> every endpoint is
  closed with its queue still readable, and \<open>Publish\<close> changes nothing.
\<close>

theorem publish_drops_per_subscriber:
  "(closed b \<longrightarrow> Publish now e b = b)
   \<and> closed (Publish now e b) = closed b
   \<and> bufferSize (Publish now e b) = bufferSize b
   \<and> length (subscribers (Publish now e b)) = length (subscribers b)
   \<and> (\<forall>i < length (subscribers b).
         ep_id (subscribers (Publish now e b) ! i) = ep_id (subscribers b ! i)
       \<and> ep_closed (subscribers (Publish now e b) ! i) = ep_closed (subscribers b ! i)
       \<and> (\<not> closed b \<and> \<not> ep_closed (subscribers b ! i)
            \<and> length (queue (subscribers b ! i)) < bufferSize b \<longrightarrow>
              queue (subscribers (Publish now e b) ! i) = queue (subscribers b ! i) @ [stamped now e])
       \<and> (closed b \<or> ep_closed (subscribers b ! i)
            \<or> bufferSize b \<le> length (queue (subscribers b ! i)) \<longrightarrow>
              subscribers (Publish now e b) ! i = subscribers b ! i))
   \<and> closed (Close b) \<and> list_all ep_closed (subscribers (Close b))
   \<and> map queue (subscribers (Close b)) = map queue (subscribers b)
   \<and> Publish now e (Close b) = Close b"
proof (cases "closed b")
  case True
  then show ?thesis by (simp add: Publish_def Close_def list_all_iff comp_def)
next
  case False
  have "\<forall>i < length (subscribers b).
         ep_id (subscribers (Publish now e b) ! i) = ep_id (subscribers b ! i)
       \<and> ep_closed (subscribers (Publish now e b) ! i) = ep_closed (subscribers b ! i)
       \<and> (\<not> closed b \<and> \<not> ep_closed (subscribers b ! i)
            \<and> length (queue (subscribers b ! i)) < bufferSize b \<longrightarrow>
              queue (subscribers (Publish now e b) ! i) = queue (subscribers b ! i) @ [stamped now e])
       \<and> (closed b \<or> ep_closed (subscribers b ! i)
            \<or> bufferSize b \<le> length (queue (subscribers b ! i)) \<longrightarrow>
              subscribers (Publish now e b) ! i = subscribers b ! i)"
    using False by (simp add: Publish_open offer_def)
  moreover have "closed (Publish now e b) = closed b" "bufferSize (Publish now e b) = bufferSize b"
    "length (subscribers (Publish now e b)) = length (subscribers b)"
    using False by (simp_all add: Publish_open)
  moreover have "closed (Close b)" "list_all ep_closed (subscribers (Close b))"
    "map queue (subscribers (Close b)) = map queue (subscribers b)" "Publish now e (Close b) = Close b"
    by (simp_all add: Publish_def Close_def list_all_iff comp_def)
  ultimately show ?thesis using False by blast
qed

lemma two_subscribers_built:
  "two_subscribers =
     (let b0 = NewBusWithBuffer 1; (b1, ep1) = Subscribe b0;
          b2 = Publish 1 connecting b1; (b3, ep2) = Subscribe b2
      in b3)"
  by (simp add: two_subscribers_def NewBusWithBuffer_def Subscribe_def Publish_def offer_def
      connecting_def Let_def)

theorem publish_drops_per_subscriber_witness:
  "\<not> closed two_subscribers
   \<and> length (queue (subscribers two_subscribers ! 0)) = bufferSize two_subscribers
   \<and> length (queue (subscribers two_subscribers ! 1)) < bufferSize two_subscribers
   \<and> map queue (subscribers (Publish 2 (connecting\<lparr>ev_Type := EventConnected\<rparr>) two_subscribers))
       = [[connecting\<lparr>ev_Timestamp := Some 1\<rparr>],
          [\<lparr>ev_Type = EventConnected, ev_Data = NoData, ev_Timestamp = Some 2\<rparr>]]
   \<and> map queue (subscribers (Publish 3 (connecting\<lparr>ev_Type := EventDisconnected\<rparr>)
         (Publish 2 (connecting\<lparr>ev_Type := EventConnected\<rparr>) two_subscribers)))
       = [[connecting\<lparr>ev_Timestamp := Some 1\<rparr>],
          [\<lparr>ev_Type = EventConnected, ev_Data = NoData, ev_Timestamp = Some 2\<rparr>]]
   \<and> closed (Close two_subscribers)
   \<and> Publish 4 connecting (Close two_subscribers) = Close two_subscribers"
  using publish_drops_per_subscriber [of two_subscribers 2 "connecting\<lparr>ev_Type := EventConnected\<rparr>"]
    publish_drops_per_subscriber [of "Close two_subscribers" 4 connecting]
  by (simp add: two_subscribers_def Publish_def offer_def connecting_def Close_def Let_def)

end
